(* ===== verification/Sfu_Prelude.thy ===== *)
theory Sfu_Prelude
  imports Main "HOL-Library.Word" "HOL-Library.Multiset"
begin

text \<open>
  Types and generic facts shared by the whole development: Rust's machine integers, its two
  kinds of failure (an error value and a panic), awaits that may never complete, lists and their
  multisets, and the locales of transition systems with an invariant and of simulations.
\<close>

text \<open>Operations that leave the core, or its event channels, as they are.\<close>

named_theorems core_unchanged

section \<open>Machine integers\<close>

type_synonym usize = "64 word"
type_synonym u32 = "32 word"
type_synonym u16 = "16 word"
type_synonym u8 = "8 word"
type_synonym i32 = "32 word"

section \<open>Results, panics and awaits\<close>

text \<open>
  \<open>Result<T, E>\<close> is the sum \<open>'e + 'a\<close> with \<^const>\<open>Inl\<close> for \<open>Err\<close>. A call that can also
  panic returns a \<open>panics\<close>; a call that awaits a future that may stay pending for ever
  returns an \<open>awaited\<close>.
\<close>

datatype 'a panics = Panicked | Returned 'a

datatype 'a awaited = Blocked | Done 'a

text \<open>\<open>Option::ok_or\<close>, \<open>Result::map_err\<close> and \<open>Result::ok\<close>.\<close>

definition ok_or :: "'e \<Rightarrow> 'a option \<Rightarrow> 'e + 'a" where
  "ok_or e opt = (case opt of None \<Rightarrow> Inl e | Some a \<Rightarrow> Inr a)"

definition map_err :: "('e \<Rightarrow> 'f) \<Rightarrow> 'e + 'a \<Rightarrow> 'f + 'a" where
  "map_err f r = (case r of Inl e \<Rightarrow> Inl (f e) | Inr a \<Rightarrow> Inr a)"

text \<open>\<open>Display\<close> of an unsigned integer: its decimal digits.\<close>

fun nat_text :: "nat \<Rightarrow> string" where
  "nat_text n =
     (if n < 10 then [char_of (48 + n)] else nat_text (n div 10) @ [char_of (48 + n mod 10)])"

declare nat_text.simps [simp del]

lemma ok_or_simps [simp]:
  "ok_or e None = Inl e" "ok_or e (Some a) = Inr a"
  by (simp_all add: ok_or_def)

lemma ok_or_Inr [simp]: "ok_or e opt = Inr a \<longleftrightarrow> opt = Some a"
  by (simp add: ok_or_def split: option.splits)

lemma ok_or_Inl [simp]: "ok_or e opt = Inl e' \<longleftrightarrow> opt = None \<and> e' = e"
  by (auto simp: ok_or_def split: option.splits)

lemma map_err_simps [simp]:
  "map_err f (Inl e) = Inl (f e)" "map_err f (Inr a) = Inr a"
  by (simp_all add: map_err_def)

lemma map_err_Inr [simp]: "map_err f r = Inr a \<longleftrightarrow> r = Inr a"
  by (simp add: map_err_def split: sum.splits)

lemma map_err_Inl [simp]: "map_err f r = Inl e' \<longleftrightarrow> (\<exists>e. r = Inl e \<and> e' = f e)"
  by (auto simp: map_err_def split: sum.splits)

section \<open>Words as counters\<close>

lemma unat_Suc_below:
  fixes w m :: "'a::len word"
  assumes "w < m"
  shows "unat (w + 1) = Suc (unat w)" and "w + 1 \<le> m"
proof -
  have "unat w < unat m" using assms by (simp add: word_less_nat_alt)
  moreover have "unat m < 2 ^ LENGTH('a)" by (rule unsigned_less)
  ultimately have "Suc (unat w) mod 2 ^ LENGTH('a) = Suc (unat w)"
    by (intro mod_less) linarith
  then show eq: "unat (w + 1) = Suc (unat w)"
    by (simp add: unat_word_ariths)
  show "w + 1 \<le> m"
    using \<open>unat w < unat m\<close> by (simp add: word_le_nat_alt eq)
qed

lemma unat_pred_pos:
  fixes w :: "'a::len word"
  assumes "0 < unat w"
  shows "unat (w - 1) = unat w - 1"
  using assms by (metis unat_gt_0 unat_minus_one)

section \<open>Lists\<close>

text \<open>The list without its \<open>i\<close>-th element, and what it keeps of a list and of a sum.\<close>

definition delete_at :: "nat \<Rightarrow> 'a list \<Rightarrow> 'a list" where
  "delete_at i xs = take i xs @ drop (Suc i) xs"

lemma mset_delete_at: "i < length xs \<Longrightarrow> add_mset (xs ! i) (mset (delete_at i xs)) = mset xs"
  unfolding delete_at_def by (metis add_mset_add_single id_take_nth_drop mset.simps(2) mset_append union_mset_add_mset_right)

lemma in_set_delete_at: "x \<in> set (delete_at i xs) \<Longrightarrow> x \<in> set xs"
  by (auto simp: delete_at_def dest: in_set_takeD in_set_dropD)

lemma map_delete_at: "map f (delete_at i xs) = delete_at i (map f xs)"
  by (simp add: delete_at_def take_map drop_map)

lemma mset_concat_delete_at:
  "i < length xs \<Longrightarrow>
   mset (g (xs ! i)) + mset (concat (map g (delete_at i xs))) = mset (concat (map g xs))"
  unfolding delete_at_def
  by (subst (3) id_take_nth_drop [of i xs]) (simp_all add: ac_simps)

lemma mset_list_update:
  "i < length xs \<Longrightarrow> add_mset (xs ! i) (mset (xs[i := x])) = add_mset x (mset xs)"
  by (simp add: mset_update)

text \<open>Removing the only entry of a key.\<close>

lemma mset_filter_key:
  assumes "distinct (map fst xs)" and "(n, j) \<in> set xs"
  shows "mset xs = add_mset (n, j) (mset (filter (\<lambda>(k, j). k \<noteq> n) xs))"
  using assms
proof (induction xs)
  case (Cons x xs)
  show ?case
  proof (cases "x = (n, j)")
    case True
    with Cons.prems(1) have "filter (\<lambda>(k, j). k \<noteq> n) xs = xs"
      by (force simp: filter_id_conv)
    with True show ?thesis by simp
  next
    case False
    with Cons show ?thesis by (force simp: image_iff)
  qed
qed simp

lemma sum_list_delete_at:
  fixes g :: "'a \<Rightarrow> nat"
  assumes "i < length xs"
  shows "sum_list (map g xs) = g (xs ! i) + sum_list (map g (delete_at i xs))"
  using assms unfolding delete_at_def
  by (subst (1) id_take_nth_drop [of i xs]) simp_all

lemma length_delete_at: "i < length xs \<Longrightarrow> length xs = Suc (length (delete_at i xs))"
  by (simp add: delete_at_def)

lemma sum_list_update_le:
  fixes g :: "'a \<Rightarrow> nat"
  assumes "i < length xs"
  shows "sum_list (map g (xs[i := x])) + g (xs ! i) = sum_list (map g xs) + g x"
  using assms by (induction xs arbitrary: i) (auto split: nat.split)

lemma sum_list_filter_le: "sum_list (map (g :: 'a \<Rightarrow> nat) (filter P xs)) \<le> sum_list (map g xs)"
  by (induction xs) auto

lemma concat_filter_key:
  assumes "distinct (map fst xs)" and "(n, j) \<in> set xs" and "g (n, j) = []"
  shows "concat (map g (filter (\<lambda>(k, j). k \<noteq> n) xs)) = concat (map g xs)"
  using assms
proof (induction xs)
  case (Cons x xs)
  show ?case
  proof (cases "x = (n, j)")
    case True
    with Cons.prems(1) have "filter (\<lambda>(k, j). k \<noteq> n) xs = xs"
      by (force simp: filter_id_conv)
    with True Cons.prems(3) show ?thesis by simp
  next
    case False
    with Cons show ?thesis by (force simp: image_iff)
  qed
qed simp

lemma in_mset_nth: "x \<in># mset xs \<Longrightarrow> \<exists>i < length xs. xs ! i = x"
  by (auto simp: in_set_conv_nth)

section \<open>Invariants of transition systems\<close>

text \<open>
  A system with initial states, steps and an invariant that the initial states have and the
  steps keep: then every reachable state has it.
\<close>

locale invariant_system =
  fixes start :: "'s \<Rightarrow> bool"
    and step :: "'s \<Rightarrow> 's \<Rightarrow> bool"
    and inv :: "'s \<Rightarrow> bool"
  assumes start_inv: "start s \<Longrightarrow> inv s"
    and step_inv: "inv s \<Longrightarrow> step s t \<Longrightarrow> inv t"
begin

lemma steps_inv: "step\<^sup>*\<^sup>* s t \<Longrightarrow> inv s \<Longrightarrow> inv t"
  by (induction rule: rtranclp_induct) (auto intro: step_inv)

lemma reachable_inv: "start s \<Longrightarrow> step\<^sup>*\<^sup>* s t \<Longrightarrow> inv t"
  using start_inv steps_inv by blast

end

section \<open>Simulations\<close>

text \<open>
  A machine is simulated by another: its initial states match, and every step is matched by
  steps of the other, or by none. Then every run is.
\<close>

locale simulation =
  fixes start :: "'c \<Rightarrow> bool"
    and step :: "'c \<Rightarrow> 'c \<Rightarrow> bool"
    and astart :: "'a \<Rightarrow> bool"
    and astep :: "'a \<Rightarrow> 'a \<Rightarrow> bool"
    and match :: "'c \<Rightarrow> 'a \<Rightarrow> bool"
  assumes start_match: "start c \<Longrightarrow> \<exists>a. astart a \<and> match c a"
    and step_match: "match c a \<Longrightarrow> step c c' \<Longrightarrow> \<exists>a'. astep\<^sup>*\<^sup>* a a' \<and> match c' a'"
begin

lemma steps_match: "step\<^sup>*\<^sup>* c c' \<Longrightarrow> match c a \<Longrightarrow> \<exists>a'. astep\<^sup>*\<^sup>* a a' \<and> match c' a'"
proof (induction rule: rtranclp_induct)
  case base
  then show ?case by blast
next
  case (step c' c'')
  then obtain a' where "astep\<^sup>*\<^sup>* a a'" "match c' a'" by blast
  with step_match [OF this(2) step.hyps(2)] show ?case by (meson rtranclp_trans)
qed

lemma simulated:
  "start c \<Longrightarrow> step\<^sup>*\<^sup>* c c' \<Longrightarrow> \<exists>a a'. astart a \<and> astep\<^sup>*\<^sup>* a a' \<and> match c' a'"
  using start_match steps_match by blast

end

text \<open>
  An invariant of the machine above is an invariant of the machine below, read through the match.
\<close>

locale refined_invariant = simulation start step astart astep match +
  above: invariant_system astart astep inv
  for start :: "'c \<Rightarrow> bool" and step and astart :: "'a \<Rightarrow> bool" and astep and match and inv
begin

lemma reachable_match_inv: "start c \<Longrightarrow> step\<^sup>*\<^sup>* c c' \<Longrightarrow> \<exists>a. match c' a \<and> inv a"
  using simulated above.reachable_inv by blast

end

end
