(* ===== verification/Hash_Map.thy ===== *)
theory Hash_Map
  imports Sfu_Prelude "HOL-Library.AList" "HOL-Library.Multiset"
begin

text \<open>
  \<open>std::collections::HashMap\<close>: an association list with distinct keys. The order of the list
  carries no meaning: a loop over a map visits the entries in the order \<open>hm_iter \<pi>\<close>, where the
  seed \<open>\<pi>\<close> ranks the entries arbitrarily, so that every property quantified over \<open>\<pi>\<close> holds for
  every iteration order. The contract of the map is the locale \<open>hash_map\<close>; what the components
  need (counting entries under an update) is proved from the contract alone.
\<close>

type_synonym ('k, 'v) hmap = "('k \<times> 'v) list"

type_synonym hash_seed = "nat \<Rightarrow> nat"

definition hm_ok :: "('k, 'v) hmap \<Rightarrow> bool" where
  "hm_ok m = distinct (map fst m)"

definition hm_get :: "('k, 'v) hmap \<Rightarrow> 'k \<Rightarrow> 'v option" where
  "hm_get m k = map_of m k"

definition hm_insert :: "'k \<Rightarrow> 'v \<Rightarrow> ('k, 'v) hmap \<Rightarrow> ('k, 'v) hmap" where
  "hm_insert k v m = AList.update k v m"

definition hm_remove :: "'k \<Rightarrow> ('k, 'v) hmap \<Rightarrow> ('k, 'v) hmap" where
  "hm_remove k m = AList.delete k m"

definition hm_contains :: "('k, 'v) hmap \<Rightarrow> 'k \<Rightarrow> bool" where
  "hm_contains m k = (hm_get m k \<noteq> None)"

definition hm_len :: "('k, 'v) hmap \<Rightarrow> nat" where
  "hm_len m = length m"

definition hm_keys :: "('k, 'v) hmap \<Rightarrow> 'k set" where
  "hm_keys m = fst ` set m"

definition hm_iter :: "hash_seed \<Rightarrow> ('k, 'v) hmap \<Rightarrow> ('k \<times> 'v) list" where
  "hm_iter \<pi> m = map snd (sort_key (\<lambda>e. \<pi> (fst e)) (List.enumerate 0 m))"

definition hm_count :: "('v \<Rightarrow> bool) \<Rightarrow> ('k, 'v) hmap \<Rightarrow> nat" where
  "hm_count P m = length (filter (\<lambda>e. P (snd e)) m)"

lemma card_if_insert:
  "finite A \<Longrightarrow> x \<notin> A \<Longrightarrow> card (if b then insert x A else A) = card A + (if b then 1 else 0)"
  by simp

section \<open>The contract of a hash map\<close>

locale hash_map =
  fixes get :: "'m \<Rightarrow> 'k \<Rightarrow> 'v option"
    and ins :: "'k \<Rightarrow> 'v \<Rightarrow> 'm \<Rightarrow> 'm"
    and rem :: "'k \<Rightarrow> 'm \<Rightarrow> 'm"
    and entries :: "'m \<Rightarrow> ('k \<times> 'v) list"
    and ok :: "'m \<Rightarrow> bool"
  assumes ok_ins: "ok m \<Longrightarrow> ok (ins k v m)"
    and ok_rem: "ok m \<Longrightarrow> ok (rem k m)"
    and get_ins: "get (ins k v m) = (get m)(k \<mapsto> v)"
    and get_rem: "get (rem k m) = (get m)(k := None)"
    and distinct_entries: "ok m \<Longrightarrow> distinct (map fst (entries m))"
    and in_entries: "ok m \<Longrightarrow> (k, v) \<in> set (entries m) \<longleftrightarrow> get m k = Some v"
begin

lemma count_card:
  "ok m \<Longrightarrow> length (filter P (entries m)) = card {e \<in> set (entries m). P e}"
  using distinct_entries [of m]
  by (simp add: distinct_map flip: distinct_card)

lemma set_entries: "ok m \<Longrightarrow> set (entries m) = {(k, v). get m k = Some v}"
  by (auto simp: in_entries)

lemma finite_filter_entries: "finite {e \<in> set (entries m). P e}"
  by simp

text \<open>Counting after inserting a new key, replacing a value and removing a key.\<close>

lemma count_ins_new:
  assumes "ok m" and "get m k = None"
  shows "length (filter P (entries (ins k v m)))
       = length (filter P (entries m)) + (if P (k, v) then 1 else 0)"
proof -
  let ?A = "{e \<in> set (entries m). P e}"
  have set: "{e \<in> set (entries (ins k v m)). P e} = (if P (k, v) then insert (k, v) ?A else ?A)"
    using assms by (auto simp: set_entries ok_ins get_ins split: if_splits)
  have new: "(k, v) \<notin> ?A"
    using assms by (simp add: in_entries)
  show ?thesis
    unfolding count_card [OF assms(1)] count_card [OF ok_ins [OF assms(1)]] set
    by (rule card_if_insert [OF finite_filter_entries new])
qed

lemma count_rem:
  assumes "ok m" and "get m k = Some v"
  shows "length (filter P (entries m))
       = length (filter P (entries (rem k m))) + (if P (k, v) then 1 else 0)"
proof -
  let ?A = "{e \<in> set (entries (rem k m)). P e}"
  have set: "{e \<in> set (entries m). P e} = (if P (k, v) then insert (k, v) ?A else ?A)"
    using assms by (auto simp: set_entries ok_rem get_rem split: if_splits)
  have new: "(k, v) \<notin> ?A"
    using assms by (simp add: in_entries ok_rem get_rem)
  show ?thesis
    unfolding count_card [OF assms(1)] count_card [OF ok_rem [OF assms(1)]] set
    by (rule card_if_insert [OF finite_filter_entries new])
qed

lemma count_ins_same:
  assumes "ok m" and "get m k = Some v" and "P (k, v) = P (k, w)"
  shows "length (filter P (entries (ins k w m))) = length (filter P (entries m))"
proof -
  have "get (rem k (ins k w m)) = get (rem k m)"
    by (simp add: get_rem get_ins)
  then have "set (entries (rem k (ins k w m))) = set (entries (rem k m))"
    using assms(1) by (simp add: set_entries ok_rem ok_ins)
  then have "length (filter P (entries (rem k (ins k w m))))
           = length (filter P (entries (rem k m)))"
    using assms(1) by (simp add: count_card ok_rem ok_ins)
  moreover have "get (ins k w m) k = Some w" by (simp add: get_ins)
  ultimately show ?thesis
    using count_rem [OF assms(1,2), of P] count_rem [OF ok_ins [OF assms(1)], of k w k w P] assms(3)
    by simp
qed

end

section \<open>The model satisfies the contract\<close>

interpretation hm: hash_map hm_get hm_insert hm_remove "\<lambda>m. m" hm_ok
proof unfold_locales
  fix m :: "('k, 'v) hmap" and k v
  show "hm_ok m \<Longrightarrow> hm_ok (hm_insert k v m)"
    by (simp add: hm_ok_def hm_insert_def distinct_update)
  show "hm_ok m \<Longrightarrow> hm_ok (hm_remove k m)"
    by (simp add: hm_ok_def hm_remove_def distinct_delete)
  show "hm_get (hm_insert k v m) = (hm_get m)(k \<mapsto> v)"
    by (rule ext) (simp add: hm_get_def hm_insert_def update_conv')
  show "hm_get (hm_remove k m) = (hm_get m)(k := None)"
    by (rule ext) (simp add: hm_get_def hm_remove_def delete_conv')
  show "hm_ok m \<Longrightarrow> distinct (map fst m)"
    by (simp add: hm_ok_def)
  show "hm_ok m \<Longrightarrow> (k, v) \<in> set m \<longleftrightarrow> hm_get m k = Some v"
    by (simp add: hm_ok_def hm_get_def)
qed

lemma hm_ok_empty [simp]: "hm_ok []"
  by (simp add: hm_ok_def)

lemma hm_ok_single [simp]: "hm_ok [e]"
  by (simp add: hm_ok_def)

lemma hm_get_empty [simp]: "hm_get [] k = None"
  by (simp add: hm_get_def)

lemma hm_get_Cons [simp]: "hm_get ((k', v) # m) k = (if k = k' then Some v else hm_get m k)"
  by (auto simp: hm_get_def)

lemma hm_insert_empty: "hm_insert k v [] = [(k, v)]"
  by (simp add: hm_insert_def)

lemma hm_get_insert [simp]: "hm_get (hm_insert k v m) k' = (if k' = k then Some v else hm_get m k')"
  by (simp add: hm.get_ins)

lemma hm_get_remove [simp]: "hm_get (hm_remove k m) k' = (if k' = k then None else hm_get m k')"
  by (simp add: hm.get_rem)

lemma hm_ok_insert [simp]: "hm_ok m \<Longrightarrow> hm_ok (hm_insert k v m)"
  by (rule hm.ok_ins)

lemma hm_ok_remove [simp]: "hm_ok m \<Longrightarrow> hm_ok (hm_remove k m)"
  by (rule hm.ok_rem)

lemma hm_contains_insert [simp]:
  "hm_contains (hm_insert k v m) k' \<longleftrightarrow> k' = k \<or> hm_contains m k'"
  by (simp add: hm_contains_def)

lemma hm_keys_get: "k \<in> hm_keys m \<longleftrightarrow> (\<exists>v. hm_get m k = Some v)"
  unfolding hm_keys_def hm_get_def by (metis map_of_eq_None_iff not_Some_eq)

lemma hm_keys_empty [simp]: "hm_keys [] = {}"
  by (simp add: hm_keys_def)

lemma hm_keys_insert [simp]: "hm_keys (hm_insert k v m) = insert k (hm_keys m)"
  by (auto simp: hm_keys_get split: if_splits)

lemma hm_keys_remove [simp]: "hm_keys (hm_remove k m) = hm_keys m - {k}"
  by (auto simp: hm_keys_get split: if_splits)

lemma hm_get_in: "hm_get m k = Some v \<Longrightarrow> (k, v) \<in> set m"
  by (simp add: hm_get_def map_of_SomeD)

lemma hm_len_insert:
  "hm_len (hm_insert k v m) = (if hm_contains m k then hm_len m else Suc (hm_len m))"
proof -
  have "length (AList.update k v m) = (if map_of m k = None then Suc (length m) else length m)"
    by (induction m) auto
  then show ?thesis by (simp add: hm_len_def hm_insert_def hm_contains_def hm_get_def)
qed

lemma hm_len_empty [simp]: "hm_len [] = 0"
  by (simp add: hm_len_def)

lemma hm_all_None:
  assumes "\<And>k. hm_get m k = None"
  shows "m = []"
proof (cases m)
  case (Cons e rest)
  then have "hm_get m (fst e) = Some (snd e)" by (cases e) simp
  with assms show ?thesis by simp
qed

lemma hm_len_card: "hm_ok m \<Longrightarrow> hm_len m = card (hm_keys m)"
  unfolding hm_ok_def hm_len_def hm_keys_def by (metis distinct_card length_map set_map)

text \<open>Counting by value, from the contract.\<close>

lemma hm_count_insert_new:
  "hm_ok m \<Longrightarrow> hm_get m k = None \<Longrightarrow>
   hm_count P (hm_insert k v m) = hm_count P m + (if P v then 1 else 0)"
  unfolding hm_count_def using hm.count_ins_new [of m k "\<lambda>e. P (snd e)" v] by simp

lemma hm_count_remove:
  "hm_ok m \<Longrightarrow> hm_get m k = Some v \<Longrightarrow>
   hm_count P m = hm_count P (hm_remove k m) + (if P v then 1 else 0)"
  unfolding hm_count_def using hm.count_rem [of m k v "\<lambda>e. P (snd e)"] by simp

lemma hm_count_insert_same:
  "hm_ok m \<Longrightarrow> hm_get m k = Some v \<Longrightarrow> P v = P w \<Longrightarrow>
   hm_count P (hm_insert k w m) = hm_count P m"
  unfolding hm_count_def using hm.count_ins_same [of m k v "\<lambda>e. P (snd e)" w] by simp

lemma hm_count_pos: "hm_get m k = Some v \<Longrightarrow> P v \<Longrightarrow> 0 < hm_count P m"
  unfolding hm_count_def by (force simp: filter_empty_conv dest!: hm_get_in)

text \<open>A count is the number of keys.\<close>

lemma hm_count_card:
  assumes "hm_ok m"
  shows "hm_count P m = card {k. \<exists>v. hm_get m k = Some v \<and> P v}"
proof -
  have "hm_count P m = card {e \<in> set m. P (snd e)}"
    unfolding hm_count_def by (rule hm.count_card [OF assms])
  also have "\<dots> = card (fst ` {e \<in> set m. P (snd e)})"
    using assms by (intro card_image [symmetric])
      (auto simp: hm_ok_def distinct_map intro: inj_on_subset)
  also have "fst ` {e \<in> set m. P (snd e)} = {k. \<exists>v. hm_get m k = Some v \<and> P v}"
    using hm.in_entries [OF assms] by force
  finally show ?thesis .
qed

text \<open>The entries, counted class by class.\<close>

lemma hm_len_count:
  assumes "finite K" and "\<forall>(k, v) \<in> set m. f v \<in> K"
  shows "hm_len m = (\<Sum>x \<in> K. hm_count (\<lambda>v. f v = x) m)"
  using assms(2)
proof (induction m)
  case Nil
  then show ?case by (simp add: hm_count_def)
next
  case (Cons e m)
  obtain k v where e: "e = (k, v)" by (cases e)
  have "(\<Sum>x \<in> K. hm_count (\<lambda>v. f v = x) (e # m))
      = (\<Sum>x \<in> K. hm_count (\<lambda>v. f v = x) m + (if f v = x then 1 else 0))"
    by (rule sum.cong) (simp_all add: hm_count_def e)
  also have "\<dots> = (\<Sum>x \<in> K. hm_count (\<lambda>v. f v = x) m) + 1"
    using Cons.prems assms(1) by (simp add: sum.distrib e)
  finally show ?case using Cons by (simp add: hm_len_def)
qed

section \<open>Iteration\<close>

lemma mset_hm_iter [simp]: "mset (hm_iter \<pi> m) = mset m"
proof -
  have "mset (hm_iter \<pi> m) = mset (map snd (List.enumerate 0 m))"
    unfolding hm_iter_def by (simp only: mset_map mset_sort)
  then show ?thesis by simp
qed

lemma set_hm_iter [simp]: "set (hm_iter \<pi> m) = set m"
  by (metis mset_hm_iter set_mset_mset)

lemma length_hm_iter [simp]: "length (hm_iter \<pi> m) = length m"
  by (metis mset_hm_iter size_mset)

lemma hm_iter_Nil [simp]: "hm_iter \<pi> [] = []"
  by (simp add: hm_iter_def)

lemma distinct_hm_iter: "hm_ok m \<Longrightarrow> distinct (map fst (hm_iter \<pi> m))"
  unfolding hm_ok_def by (metis mset_eq_imp_distinct_iff mset_hm_iter mset_map)

end
