(* ===== verification/Media_Types.thy ===== *)
theory Media_Types
  imports Hash_Map
begin

text \<open>
  The values of the libraries the program calls (mediasoup, tokio, tonic, uuid and the generated
  protocol types), as the program sees them: handles with the accessors the source uses, opaque
  data that is only passed on, and the library calls themselves as parameters. Nothing is said
  here about how the libraries compute their results: every operation of the model takes the
  functions it calls as an argument, and an error of a library is its \<open>Display\<close> text.
\<close>

section \<open>Identifiers and opaque data\<close>

type_synonym uuid = "128 word"

datatype router_id = RouterId uuid
datatype transport_id = TransportId uuid
datatype producer_id = ProducerId uuid
datatype consumer_id = ConsumerId uuid

datatype media_kind = Audio | Video

text \<open>Data the program carries without looking inside: values told apart by a number.\<close>

datatype rtp_capabilities = RtpCapabilities nat
datatype rtp_capabilities_finalized = RtpCapabilitiesFinalized nat
datatype rtp_parameters = RtpParameters nat
datatype dtls_parameters = DtlsParameters nat
datatype ice_candidate = IceCandidate nat
datatype ice_parameters = IceParameters nat
datatype ip_addr = IpAddr nat
datatype worker = Worker nat

text \<open>
  The protocol's participant type: the source names the variant \<open>User\<close> only; the other
  numbers of the enum are kept as they come.
\<close>

datatype participant_type = User | OtherParticipant i32

section \<open>Handles and their accessors\<close>

record router =
  router_ident :: router_id
  router_caps :: rtp_capabilities_finalized

datatype webrtc_server = WebRtcServer nat

record webrtc_transport =
  transport_ident :: transport_id
  transport_ice_candidates :: "ice_candidate list"
  transport_dtls_parameters :: dtls_parameters
  transport_ice_parameters :: ice_parameters

record producer =
  producer_ident :: producer_id
  producer_kind :: media_kind

record consumer =
  consumer_ident :: consumer_id
  consumer_producer :: producer_id
  consumer_kind :: media_kind
  consumer_rtp_parameters :: rtp_parameters

record consumer_options =
  opt_producer_id :: producer_id
  opt_rtp_capabilities :: rtp_capabilities
  opt_paused :: bool

section \<open>The calls into mediasoup\<close>

text \<open>
  Each call is a function of its arguments; a step of the running system may use a different
  one each time, so nothing is assumed about repeated calls.
\<close>

record mediasoup =
  ms_create_webrtc_transport :: "router \<Rightarrow> webrtc_server \<Rightarrow> string + webrtc_transport"
  ms_connect :: "webrtc_transport \<Rightarrow> dtls_parameters \<Rightarrow> string + unit"
  ms_produce :: "webrtc_transport \<Rightarrow> media_kind \<Rightarrow> rtp_parameters \<Rightarrow> string + producer"
  ms_can_consume :: "router \<Rightarrow> producer_id \<Rightarrow> rtp_capabilities \<Rightarrow> bool"
  ms_consume :: "webrtc_transport \<Rightarrow> consumer_options \<Rightarrow> string + consumer"
  ms_resume :: "consumer \<Rightarrow> string + unit"

text \<open>
  \<open>Display\<close> of the identifiers, and their conversion into the protocol's wrapper messages (the
  \<open>id\<close> field of the message) and of a media kind into the protocol's number.
\<close>

record texts =
  uuid_text :: "uuid \<Rightarrow> string"
  transport_id_text :: "transport_id \<Rightarrow> string"
  producer_id_text :: "producer_id \<Rightarrow> string"
  consumer_id_text :: "consumer_id \<Rightarrow> string"
  transport_id_proto :: "transport_id \<Rightarrow> string"
  producer_id_proto :: "producer_id \<Rightarrow> string"
  consumer_id_proto :: "consumer_id \<Rightarrow> string"
  media_kind_proto :: "media_kind \<Rightarrow> i32"

section \<open>The calls into tokio's channels\<close>

text \<open>
  A sender is a handle. A call of \<open>send\<close> completes, reports that the receiver is gone, or stays
  pending for ever; a call of \<open>try_send\<close> reports a full or a closed channel.
\<close>

datatype sender = Sender nat

datatype send_outcome = SendOk | SendClosed | SendPending

datatype try_send_result = TryOk | TryFull | TryClosed

text \<open>
  What tokio documents for a bounded channel whose receiver is not polled: as many messages as
  its capacity are accepted, and every later \<open>send\<close> waits for room. The outcomes are
  numbered by the \<open>send\<close> calls made on the fresh channel.
\<close>

definition unpolled_channel :: "nat \<Rightarrow> (nat \<Rightarrow> send_outcome) \<Rightarrow> bool" where
  "unpolled_channel capacity snd_out \<longleftrightarrow>
     (\<forall>i. snd_out i = (if i < capacity then SendOk else SendPending))"

text \<open>
  The capacities with which \<open>mpsc::channel\<close> returns: tokio documents a panic for zero and for more
  than \<open>Semaphore::MAX_PERMITS\<close>, which is \<open>usize::MAX >> 3\<close>.
\<close>

definition max_permits :: nat where
  "max_permits = 2 ^ 61 - 1"

definition channel_ok :: "nat \<Rightarrow> bool" where
  "channel_ok capacity \<longleftrightarrow> 0 < capacity \<and> capacity \<le> max_permits"

lemma channel_ok_numerals [simp]: "channel_ok 1" "channel_ok (Suc 0)" "channel_ok 8" "\<not> channel_ok 0"
  by (simp_all add: channel_ok_def max_permits_def)

end
