(* ===== verification/Sfu_Error.thy ===== *)
theory Sfu_Error
  imports Sfu_Prelude
begin

text \<open>
  \<open>src/sfu/error.rs\<close>: the error enums and the texts \<open>thiserror\<close> derives from their
  \<open>#[error(...)]\<close> attributes. An error of a library is its \<open>Display\<close> text.
\<close>

datatype codec_error = InvalidClockRate | InvalidChannels

datatype router_manager_error =
    EmptyPool
  | Codec codec_error
  | Mediasoup string

datatype transport_error = TransportRequest string

datatype worker_manager_error =
    Io string
  | TooManyWorkers string
  | WebRtcServerCreation string

datatype session_error =
    RouterManager router_manager_error
  | MissingWebRtcServer
  | Transport transport_error
  | SessionNotFound string
  | TransportCreationFailed string
  | TransportConnectFailed string
  | InvalidTransportId string
  | InvalidTransportDirection string
  | InvalidTransport string
  | ProducerCreationFailed string
  | RtpCapabilitiesMismatch string
  | ConsumerCreationFailed string
  | ConsumerNotFound string
  | ConsumerResumeFailed string
  | EventChannelClosed
  | MissingRouterCounter
  | AllRoutersFull
  | SessionFull string
  | ParticipantNotFound string
  | ParticipantAlreadyExists string

fun codec_error_text :: "codec_error \<Rightarrow> string" where
  "codec_error_text InvalidClockRate = ''Invalid clock rate''"
| "codec_error_text InvalidChannels = ''Invalid channel count''"

fun router_manager_error_text :: "router_manager_error \<Rightarrow> string" where
  "router_manager_error_text EmptyPool = ''Router pool is empty''"
| "router_manager_error_text (Codec e) = ''Codec init error: '' @ codec_error_text e"
| "router_manager_error_text (Mediasoup s) = ''Mediasoup router creation error: '' @ s"

fun transport_error_text :: "transport_error \<Rightarrow> string" where
  "transport_error_text (TransportRequest s) = ''Mediasoup transport creaton error: '' @ s"

fun worker_manager_error_text :: "worker_manager_error \<Rightarrow> string" where
  "worker_manager_error_text (Io s) = ''Mediasoup worker creation error: '' @ s"
| "worker_manager_error_text (TooManyWorkers s) = ''Too many workers: '' @ s"
| "worker_manager_error_text (WebRtcServerCreation s) = ''WebRTC server creation error: '' @ s"

fun session_error_text :: "session_error \<Rightarrow> string" where
  "session_error_text (RouterManager e) = ''Router error: '' @ router_manager_error_text e"
| "session_error_text MissingWebRtcServer = ''Missing Webrtc server''"
| "session_error_text (Transport e) = ''Transport error: '' @ transport_error_text e"
| "session_error_text (SessionNotFound s) = ''Session not found: '' @ s"
| "session_error_text (TransportCreationFailed s) = ''Failed to create transport: '' @ s"
| "session_error_text (TransportConnectFailed s) = ''Failed to connect transport: '' @ s"
| "session_error_text (InvalidTransportId s) = ''Invalid transport ID: '' @ s"
| "session_error_text (InvalidTransportDirection s) = ''Invalid transport direction: '' @ s"
| "session_error_text (InvalidTransport s) = ''Invalid transport: '' @ s"
| "session_error_text (ProducerCreationFailed s) = ''Failed to create producer: '' @ s"
| "session_error_text (RtpCapabilitiesMismatch s) = ''RTP capabilities mismatch: '' @ s"
| "session_error_text (ConsumerCreationFailed s) = ''Failed to create consumer: '' @ s"
| "session_error_text (ConsumerNotFound s) = ''Consumer not found: '' @ s"
| "session_error_text (ConsumerResumeFailed s) = ''Failed to resume consumer: '' @ s"
| "session_error_text EventChannelClosed = ''Event channel is closed or receiver dropped''"
| "session_error_text MissingRouterCounter = ''No counter found for router''"
| "session_error_text AllRoutersFull = ''All routers are at max session capacity''"
| "session_error_text (SessionFull s) = ''Session is full: '' @ s"
| "session_error_text (ParticipantNotFound s) = ''Participant not found: '' @ s"
| "session_error_text (ParticipantAlreadyExists s) = ''Participant already exists: '' @ s"

end
