(* ===== verification/Worker_Manager.thy ===== *)
theory Worker_Manager
  imports Media_Types Sfu_Error
begin

text \<open>
  \<open>src/sfu/worker_manager.rs\<close>: the pool of mediasoup workers and the WebRTC server of each,
  one UDP port per worker from 10000 upwards. The port is a \<open>u16\<close>: the model keeps the width and
  takes whether the build checks overflows (a debug build panics, a release build wraps) as a
  parameter.
\<close>

section \<open>Data\<close>

datatype worker_log_level = LogDebug | LogWarn | LogError

datatype worker_log_tag =
    TagInfo | TagIce | TagDtls | TagRtp | TagSrtp | TagRtcp | TagRtx | TagBwe | TagScore
  | TagSctp | TagMessage

text \<open>\<open>WorkerSettings::default()\<close> with the two fields the source may set.\<close>

record worker_settings =
  log_level :: worker_log_level
  log_tags :: "worker_log_tag list option"

datatype protocol = Udp | Tcp

record listen_info =
  li_protocol :: protocol
  li_ip :: ip_addr
  li_port :: "u16 option"
  li_announced_address :: "string option"
  li_expose_internal_ip :: bool
  li_port_range :: "(u16 \<times> u16) option"
  li_flags :: "u8 option"
  li_send_buffer_size :: "u32 option"
  li_recv_buffer_size :: "u32 option"

record worker_manager =
  wm_workers :: "worker list"
  wm_webrtc_servers :: "webrtc_server list"

section \<open>Operations\<close>

text \<open>
  \<open>str::to_lowercase\<close> on the ASCII letters; the other bytes are left as they are, since no other
  character lowercases to a letter of the two names the result is compared with.
\<close>

definition ascii_lower :: "char \<Rightarrow> char" where
  "ascii_lower c = (if 65 \<le> (of_char c :: nat) \<and> (of_char c :: nat) \<le> 90
                    then char_of ((of_char c :: nat) + 32) else c)"

definition to_lowercase :: "string \<Rightarrow> string" where
  "to_lowercase s = map ascii_lower s"

definition parse_log_level :: "string \<Rightarrow> worker_log_level" where
  "parse_log_level value =
     (let v = to_lowercase value in
      if v = ''debug'' then LogDebug
      else if v = ''error'' then LogError
      else LogWarn)"

definition default_debug_log_tags :: "worker_log_tag list" where
  "default_debug_log_tags =
     [TagInfo, TagIce, TagDtls, TagRtp, TagSrtp, TagRtcp, TagRtx, TagBwe, TagScore, TagSctp,
      TagMessage]"

text \<open>\<open>None\<close> tags: the default of \<open>WorkerSettings\<close>.\<close>

definition settings_for :: "worker_log_level \<Rightarrow> worker_settings" where
  "settings_for level =
     \<lparr>log_level = level,
      log_tags = (if level = LogDebug then Some default_debug_log_tags else None)\<rparr>"

text \<open>The first loop: \<open>n\<close> workers, the first error returns. The calls are numbered.\<close>

fun create_workers ::
  "(nat \<Rightarrow> worker_settings \<Rightarrow> string + worker) \<Rightarrow> worker_log_level \<Rightarrow> nat \<Rightarrow> nat \<Rightarrow>
   worker_manager_error + worker list" where
  "create_workers create level i 0 = Inr []"
| "create_workers create level i (Suc n) =
     (case map_err Io (create i (settings_for level)) of
        Inl e \<Rightarrow> Inl e
      | Inr w \<Rightarrow>
          (case create_workers create level (Suc i) n of
             Inl e \<Rightarrow> Inl e
           | Inr ws \<Rightarrow> Inr (w # ws)))"

definition u16_try_from :: "nat \<Rightarrow> u16 option" where
  "u16_try_from i = (if i < 2 ^ 16 then Some (of_nat i) else None)"

definition add_u16 :: "bool \<Rightarrow> u16 \<Rightarrow> u16 \<Rightarrow> u16 panics" where
  "add_u16 overflow_checks a b =
     (if overflow_checks \<and> 2 ^ 16 \<le> unat a + unat b then Panicked else Returned (a + b))"

definition listen_info_on :: "ip_addr \<Rightarrow> string option \<Rightarrow> u16 \<Rightarrow> listen_info" where
  "listen_info_on listen_ip announced_ip port =
     \<lparr>li_protocol = Udp, li_ip = listen_ip, li_port = Some port,
      li_announced_address = announced_ip, li_expose_internal_ip = False,
      li_port_range = None, li_flags = None,
      li_send_buffer_size = None, li_recv_buffer_size = None\<rparr>"

text \<open>The second loop, over the enumerated workers.\<close>

fun create_servers ::
  "bool \<Rightarrow> (worker \<Rightarrow> listen_info \<Rightarrow> string + webrtc_server) \<Rightarrow>
   ip_addr \<Rightarrow> string option \<Rightarrow> nat \<Rightarrow> worker list \<Rightarrow>
   (worker_manager_error + webrtc_server list) panics" where
  "create_servers chk create ip ann i [] = Returned (Inr [])"
| "create_servers chk create ip ann i (w # ws) =
     (case ok_or (TooManyWorkers (''Worker index '' @ nat_text i @ '' exceeds u16 range''))
             (u16_try_from i) of
        Inl e \<Rightarrow> Returned (Inl e)
      | Inr port_offset \<Rightarrow>
          (case add_u16 chk 10000 port_offset of
             Panicked \<Rightarrow> Panicked
           | Returned port \<Rightarrow>
               (case map_err WebRtcServerCreation (create w (listen_info_on ip ann port)) of
                  Inl e \<Rightarrow> Returned (Inl e)
                | Inr server \<Rightarrow>
                    (case create_servers chk create ip ann (Suc i) ws of
                       Panicked \<Rightarrow> Panicked
                     | Returned (Inl e) \<Rightarrow> Returned (Inl e)
                     | Returned (Inr servers) \<Rightarrow> Returned (Inr (server # servers))))))"

text \<open>
  \<open>Vec::with_capacity(n)\<close> for pointers (\<open>Arc\<close>) on a 64-bit target panics when its \<open>8 * n\<close> bytes are
  more than \<open>isize::MAX\<close>, as the standard library documents.
\<close>

definition capacity_overflow :: "nat \<Rightarrow> bool" where
  "capacity_overflow n \<longleftrightarrow> 2 ^ 63 - 1 < 8 * n"

definition worker_manager_new ::
  "bool \<Rightarrow> (nat \<Rightarrow> worker_settings \<Rightarrow> string + worker) \<Rightarrow>
   (worker \<Rightarrow> listen_info \<Rightarrow> string + webrtc_server) \<Rightarrow>
   nat \<Rightarrow> string \<Rightarrow> string option \<Rightarrow> ip_addr \<Rightarrow>
   (worker_manager_error + worker_manager) panics" where
  "worker_manager_new chk create_worker create_server worker_count log_level_name
     announced_ip listen_ip =
     (if capacity_overflow worker_count then Panicked
      else
      case create_workers create_worker (parse_log_level log_level_name) 0 worker_count of
        Inl e \<Rightarrow> Returned (Inl e)
      | Inr ws \<Rightarrow>
          (case create_servers chk create_server listen_ip announced_ip 0 ws of
             Panicked \<Rightarrow> Panicked
           | Returned (Inl e) \<Rightarrow> Returned (Inl e)
           | Returned (Inr servers) \<Rightarrow>
               Returned (Inr \<lparr>wm_workers = ws, wm_webrtc_servers = servers\<rparr>)))"

text \<open>The accessors the start uses.\<close>

definition workers_of :: "worker_manager \<Rightarrow> worker list" where
  "workers_of wm = wm_workers wm"

definition webrtc_servers_of :: "worker_manager \<Rightarrow> webrtc_server list" where
  "webrtc_servers_of wm = wm_webrtc_servers wm"

definition port_limit :: "bool \<Rightarrow> nat" where
  "port_limit chk = (if chk then 55536 else 65536)"

section \<open>Lemmas\<close>

lemma create_workers_Inr:
  "create_workers create level i n = Inr ws \<Longrightarrow>
   length ws = n \<and> (\<forall>j < n. create (i + j) (settings_for level) = Inr (ws ! j))"
proof (induction n arbitrary: i ws)
  case 0
  then show ?case by simp
next
  case (Suc n)
  then obtain w rest where w: "create i (settings_for level) = Inr w"
    and rest: "create_workers create level (Suc i) n = Inr rest" and ws: "ws = w # rest"
    by (auto split: sum.splits)
  from Suc.IH [OF rest] w ws show ?case
    by (auto simp: nth_Cons split: nat.splits)
qed

lemma create_workers_total:
  "create_workers (\<lambda>i s. Inr (cw i s)) level i n
   = Inr (map (\<lambda>j. cw j (settings_for level)) [i..<i + n])"
  by (induction n arbitrary: i) (simp_all add: upt_conv_Cons del: upt_Suc)

lemma u16_try_from_Some: "u16_try_from i = Some p \<longleftrightarrow> i < 2 ^ 16 \<and> p = of_nat i"
  by (auto simp: u16_try_from_def)

lemma unat_of_nat_u16: "i < 2 ^ 16 \<Longrightarrow> unat (of_nat i :: u16) = i"
  by (simp add: unat_of_nat)

lemma add_u16_port:
  "i < 2 ^ 16 \<Longrightarrow> add_u16 chk 10000 (of_nat i)
   = (if chk \<and> 55536 \<le> i then Panicked else Returned (10000 + of_nat i))"
  by (simp add: add_u16_def unat_of_nat_u16)

text \<open>One iteration of the second loop, with the width arithmetic done.\<close>

lemma create_servers_step:
  "create_servers chk create ip ann i (w # ws) =
     (if 2 ^ 16 \<le> i
      then Returned (Inl (TooManyWorkers (''Worker index '' @ nat_text i @ '' exceeds u16 range'')))
      else if chk \<and> 55536 \<le> i then Panicked
      else (case create w (listen_info_on ip ann (10000 + of_nat i)) of
              Inl e \<Rightarrow> Returned (Inl (WebRtcServerCreation e))
            | Inr server \<Rightarrow>
                (case create_servers chk create ip ann (Suc i) ws of
                   Panicked \<Rightarrow> Panicked
                 | Returned (Inl e) \<Rightarrow> Returned (Inl e)
                 | Returned (Inr servers) \<Rightarrow> Returned (Inr (server # servers)))))"
proof (cases "i < 2 ^ 16")
  case True
  then have "u16_try_from i = Some (of_nat i)" by (simp add: u16_try_from_Some)
  with True show ?thesis
    by (simp add: add_u16_port del: One_nat_def split: sum.split)
next
  case False
  then show ?thesis by (simp add: u16_try_from_def)
qed

declare create_servers.simps(2) [simp del]

lemma create_servers_Inr:
  "create_servers chk create ip ann i ws = Returned (Inr servers) \<Longrightarrow>
   length servers = length ws \<and>
   (\<forall>j < length ws. i + j < 2 ^ 16 \<and>
      create (ws ! j) (listen_info_on ip ann (10000 + of_nat (i + j))) = Inr (servers ! j))"
proof (induction ws arbitrary: i servers)
  case Nil
  then show ?case by simp
next
  case (Cons w ws)
  then obtain server rest where i: "i < 2 ^ 16"
    and w: "create w (listen_info_on ip ann (10000 + of_nat i)) = Inr server"
    and rest: "create_servers chk create ip ann (Suc i) ws = Returned (Inr rest)"
    and servers: "servers = server # rest"
    by (auto simp: create_servers_step split: if_splits sum.splits panics.splits)
  from Cons.IH [OF rest] i w servers show ?case
    by (auto simp: nth_Cons split: nat.splits)
qed

text \<open>
  When every library call succeeds, the loop ends in one of three ways; \<open>port_limit\<close> is the
  number of workers that get a port without an overflow being noticed.
\<close>

lemma create_servers_total:
  assumes "i \<le> port_limit chk"
  shows "create_servers chk (\<lambda>w l. Inr (cs w l)) ip ann i ws =
     (if port_limit chk < i + length ws
      then (if chk then Panicked
            else Returned (Inl (TooManyWorkers
                   (''Worker index '' @ nat_text 65536 @ '' exceeds u16 range''))))
      else Returned (Inr (map (\<lambda>(j, w). cs w (listen_info_on ip ann (10000 + of_nat j)))
                           (List.enumerate i ws))))"
  using assms
proof (induction ws arbitrary: i)
  case Nil
  then show ?case by simp
next
  case (Cons w ws)
  show ?case
  proof (cases "i = port_limit chk")
    case True
    then show ?thesis
      by (cases chk) (simp_all add: create_servers_step port_limit_def)
  next
    case False
    with Cons.prems have "Suc i \<le> port_limit chk" by simp
    from Cons.IH [OF this] False Cons.prems show ?thesis
      by (auto simp: create_servers_step port_limit_def split: if_splits)
  qed
qed

lemma worker_port_inj:
  "i < 2 ^ 16 \<Longrightarrow> j < 2 ^ 16 \<Longrightarrow> (10000 + of_nat i :: u16) = 10000 + of_nat j \<Longrightarrow> i = j"
  by (metis add_left_cancel unat_of_nat_u16)

lemma worker_manager_new_Inr:
  assumes "worker_manager_new chk cw cs n level ann ip = Returned (Inr wm)"
  shows "length (wm_workers wm) = n" and "length (wm_webrtc_servers wm) = n"
    and "i < n \<Longrightarrow> i < 2 ^ 16 \<and>
           cs (wm_workers wm ! i) (listen_info_on ip ann (10000 + of_nat i))
             = Inr (wm_webrtc_servers wm ! i)"
proof -
  from assms obtain ws servers where
    ws: "create_workers cw (parse_log_level level) 0 n = Inr ws"
    and servers: "create_servers chk cs ip ann 0 ws = Returned (Inr servers)"
    and wm: "wm = \<lparr>wm_workers = ws, wm_webrtc_servers = servers\<rparr>"
    by (auto simp: worker_manager_new_def split: if_splits sum.splits panics.splits)
  from create_workers_Inr [OF ws] create_servers_Inr [OF servers] wm
  show "length (wm_workers wm) = n" and "length (wm_webrtc_servers wm) = n"
    and "i < n \<Longrightarrow> i < 2 ^ 16 \<and>
           cs (wm_workers wm ! i) (listen_info_on ip ann (10000 + of_nat i))
             = Inr (wm_webrtc_servers wm ! i)"
    by auto
qed

text \<open>When the start of the pool panics.\<close>

lemma create_servers_panics:
  "create_servers chk create ip ann i ws = Panicked \<Longrightarrow> chk \<and> 55536 < i + length ws"
proof (induction ws arbitrary: i)
  case Nil
  then show ?case by simp
next
  case (Cons w ws)
  from Cons.prems have "chk \<and> 55536 \<le> i \<or> create_servers chk create ip ann (Suc i) ws = Panicked"
    by (auto simp: create_servers_step split: if_splits sum.splits panics.splits)
  with Cons.IH [of "Suc i"] show ?case by auto
qed

lemma worker_manager_new_panics:
  assumes "worker_manager_new chk cw cs n level ann ip = Panicked"
  shows "capacity_overflow n \<or> chk \<and> 55536 < n"
proof (cases "capacity_overflow n")
  case False
  with assms obtain ws where ws: "create_workers cw (parse_log_level level) 0 n = Inr ws"
    and panic: "create_servers chk cs ip ann 0 ws = Panicked"
    by (auto simp: worker_manager_new_def split: sum.splits panics.splits)
  from create_servers_panics [OF panic] create_workers_Inr [OF ws] show ?thesis by auto
qed simp

lemma capacity_overflow_iff: "capacity_overflow n \<longleftrightarrow> 2 ^ 60 \<le> n"
  by (simp add: capacity_overflow_def) linarith

section \<open>Properties\<close>

text \<open>C35. When mediasoup accepts every worker and server and there is memory for the lists, the start of
  the pool ends in exactly one of four ways, by the number of workers: up to the port limit each worker gets its own server on the
  next port; beyond it a build with overflow checks panics, and a build without them reports too
  many workers, but only from the 65537th worker on; and from \<open>2 ^ 60\<close> workers on every build
  panics before it creates any, because the vector for them cannot be that long.\<close>

theorem worker_pool_outcome:
  "worker_manager_new chk (\<lambda>i s. Inr (cw i s)) (\<lambda>w l. Inr (cs w l)) n level ann ip =
     (let ws = map (\<lambda>i. cw i (settings_for (parse_log_level level))) [0..<n]
      in if 2 ^ 60 \<le> n then Panicked
         else if n \<le> port_limit chk
         then Returned (Inr \<lparr>wm_workers = ws,
                wm_webrtc_servers =
                  map (\<lambda>i. cs (ws ! i) (listen_info_on ip ann (10000 + of_nat i))) [0..<n]\<rparr>)
         else if chk then Panicked
         else Returned (Inl (TooManyWorkers
                (''Worker index '' @ nat_text 65536 @ '' exceeds u16 range''))))"
proof -
  let ?ws = "map (\<lambda>i. cw i (settings_for (parse_log_level level))) [0..<n]"
  have "map (\<lambda>(j, w). cs w (listen_info_on ip ann (10000 + of_nat j))) (List.enumerate 0 ?ws)
      = map (\<lambda>i. cs (?ws ! i) (listen_info_on ip ann (10000 + of_nat i))) [0..<n]"
    by (rule nth_equalityI) (simp_all add: nth_enumerate_eq)
  then show ?thesis
    by (simp add: worker_manager_new_def capacity_overflow_iff create_workers_total
        create_servers_total Let_def)
qed

text \<open>C36. The ports of a pool that came up are pairwise distinct, and every worker's server listens on
  UDP on the configured address with the port 10000 plus the worker's index, taken modulo
  \<open>2 ^ 16\<close>: the port of a worker with an index of 55536 or more has wrapped around below 10000.\<close>

theorem worker_ports:
  assumes "worker_manager_new chk cw cs n level ann ip = Returned (Inr wm)" and "i < n"
  shows "\<exists>port. cs (wm_workers wm ! i) (listen_info_on ip ann port) = Inr (wm_webrtc_servers wm ! i) \<and>
           unat port = (if i < 55536 then 10000 + i else i - 55536) \<and>
           (\<forall>j < n. j \<noteq> i \<longrightarrow> port \<noteq> 10000 + of_nat j)"
proof (intro exI conjI)
  note pool = worker_manager_new_Inr [OF assms(1)]
  have i: "i < 2 ^ 16" using pool(3) [OF assms(2)] by blast
  show "cs (wm_workers wm ! i) (listen_info_on ip ann (10000 + of_nat i))
      = Inr (wm_webrtc_servers wm ! i)"
    using pool(3) [OF assms(2)] by blast
  show "unat (10000 + of_nat i :: u16) = (if i < 55536 then 10000 + i else i - 55536)"
  proof -
    have "unat (10000 + of_nat i :: u16) = (10000 + i) mod 65536"
      using i by (simp add: unat_word_ariths unat_of_nat_u16)
    also have "\<dots> = (if i < 55536 then 10000 + i else i - 55536)"
    proof (cases "i < 55536")
      case False
      then have "(10000 + i) mod 65536 = ((i - 55536) + 65536) mod 65536" by simp
      also have "\<dots> = i - 55536" using False i by (simp only: mod_add_self2) simp
      finally show ?thesis using False by simp
    qed simp
    finally show ?thesis .
  qed
  show "\<forall>j < n. j \<noteq> i \<longrightarrow> (10000 + of_nat i :: u16) \<noteq> 10000 + of_nat j"
  proof (intro allI impI)
    fix j
    assume "j < n" and "j \<noteq> i"
    moreover have "j < 2 ^ 16" using pool(3) [OF \<open>j < n\<close>] by blast
    ultimately show "(10000 + of_nat i :: u16) \<noteq> 10000 + of_nat j"
      using worker_port_inj [OF i] by blast
  qed
qed

theorem worker_ports_witness:
  "\<exists>port. unat port = 10001 \<and> (port :: u16) \<noteq> 10000 + of_nat 0"
proof -
  let ?cw = "\<lambda>i s. Inr (Worker i)" and ?cs = "\<lambda>w l. Inr (WebRtcServer 0)"
  have new: "worker_manager_new True ?cw ?cs 2 ''warn'' None (IpAddr 0)
      = Returned (Inr \<lparr>wm_workers = [Worker 0, Worker 1],
                       wm_webrtc_servers = [WebRtcServer 0, WebRtcServer 0]\<rparr>)"
    by (simp add: worker_manager_new_def capacity_overflow_iff create_workers_total
        create_servers_total port_limit_def upt_rec)
  show ?thesis using worker_ports [OF new, of 1] by fastforce
qed

text \<open>The log level is read without regard to the case of ASCII letters; only \<open>debug\<close> turns on the
  debug tags, and every name but \<open>debug\<close> and \<open>error\<close> means the level of warnings, the documented
  name \<open>info\<close> among them.\<close>

lemma log_level_reading:
  "parse_log_level (to_lowercase v) = parse_log_level v \<and>
   (log_tags (settings_for (parse_log_level v)) \<noteq> None \<longleftrightarrow> to_lowercase v = ''debug'') \<and>
   (parse_log_level v = LogError \<longleftrightarrow> to_lowercase v = ''error'') \<and>
   parse_log_level ''info'' = LogWarn"
proof -
  have "ascii_lower (ascii_lower c) = ascii_lower c" for c
    by (auto simp: ascii_lower_def)
  then have "to_lowercase (to_lowercase v) = to_lowercase v"
    by (simp add: to_lowercase_def)
  moreover have "to_lowercase ''info'' = ''info''"
    by (simp add: to_lowercase_def ascii_lower_def)
  ultimately show ?thesis
    by (auto simp: parse_log_level_def settings_for_def Let_def)
qed

end
