(* ===== verification/Codecs.thy ===== *)
theory Codecs
  imports Sfu_Error
begin

text \<open>
  \<open>src/sfu/codecs.rs\<close>: the RTP codecs the routers are created with. \<open>NonZeroU32::new\<close> and
  \<open>NonZeroU8::new\<close> give \<^const>\<open>None\<close> for zero, which the source turns into an error.
\<close>

section \<open>Data\<close>

datatype mime_type_audio = Opus
datatype mime_type_video = Vp8 | H264
datatype rtcp_feedback = TransportCc | Nack | NackPli | CcmFir

datatype parameter_value = NumberParam u32 | StringParam string

datatype rtp_codec_capability =
    AudioCodec (audio_mime: mime_type_audio) (preferred_payload_type: "u8 option")
      (clock_rate: u32) (channels: u8)
      (parameters: "(string \<times> parameter_value) list") (rtcp_feedbacks: "rtcp_feedback list")
  | VideoCodec (video_mime: mime_type_video) (preferred_payload_type: "u8 option")
      (clock_rate: u32)
      (parameters: "(string \<times> parameter_value) list") (rtcp_feedbacks: "rtcp_feedback list")

section \<open>Operations\<close>

definition non_zero :: "'a::len word \<Rightarrow> 'a word option" where
  "non_zero n = (if n = 0 then None else Some n)"

definition get_codecs :: "codec_error + rtp_codec_capability list" where
  "get_codecs =
     (case ok_or InvalidClockRate (non_zero 48000) of Inl e \<Rightarrow> Inl e | Inr opus_rate \<Rightarrow>
      case ok_or InvalidChannels (non_zero 2) of Inl e \<Rightarrow> Inl e | Inr opus_channels \<Rightarrow>
      case ok_or InvalidClockRate (non_zero 90000) of Inl e \<Rightarrow> Inl e | Inr vp8_rate \<Rightarrow>
      case ok_or InvalidClockRate (non_zero 90000) of Inl e \<Rightarrow> Inl e | Inr h264_rate \<Rightarrow>
      Inr
       [AudioCodec Opus None opus_rate opus_channels
          [(''useinbandfec'', NumberParam 1)] [TransportCc],
        VideoCodec Vp8 None vp8_rate [] [Nack, NackPli, CcmFir, TransportCc],
        VideoCodec H264 None h264_rate
          [(''level-asymmetry-allowed'', NumberParam 1),
           (''packetization-mode'', NumberParam 1),
           (''profile-level-id'', StringParam ''42e01f'')]
          [Nack, NackPli, CcmFir, TransportCc]])"

section \<open>Lemmas\<close>

lemma get_codecs_value:
  "get_codecs = Inr
     [AudioCodec Opus None 48000 2 [(''useinbandfec'', NumberParam 1)] [TransportCc],
      VideoCodec Vp8 None 90000 [] [Nack, NackPli, CcmFir, TransportCc],
      VideoCodec H264 None 90000
        [(''level-asymmetry-allowed'', NumberParam 1), (''packetization-mode'', NumberParam 1),
         (''profile-level-id'', StringParam ''42e01f'')]
        [Nack, NackPli, CcmFir, TransportCc]]"
  by (simp add: get_codecs_def non_zero_def)

end
