(* ===== verification/Router_Manager.thy ===== *)
theory Router_Manager
  imports Media_Types Codecs
begin

text \<open>
  \<open>src/sfu/router_manager.rs\<close>: one mediasoup router per worker, the WebRTC server of each router,
  and the round-robin choice of a router with room for another session. The counters the choice
  reads belong to the session core; a read of an index out of range would be a panic of the
  source and is one here.
\<close>

section \<open>Data\<close>

record router_manager =
  routers :: "router list"
  router_to_webrtc_server :: "(router_id, webrtc_server) hmap"
  next_index :: nat

section \<open>Operations\<close>

text \<open>The loop of \<open>RouterManager::new\<close> over the zipped workers and servers.\<close>

fun build_routers ::
  "(worker \<Rightarrow> rtp_codec_capability list \<Rightarrow> string + router) \<Rightarrow> (worker \<times> webrtc_server) list \<Rightarrow>
   router list \<Rightarrow> (router_id, webrtc_server) hmap \<Rightarrow>
   router_manager_error + router list \<times> (router_id, webrtc_server) hmap" where
  "build_routers create [] rs servers = Inr (rs, servers)"
| "build_routers create ((w, server) # pairs) rs servers =
     (case map_err Codec get_codecs of
        Inl e \<Rightarrow> Inl e
      | Inr codecs \<Rightarrow>
          (case map_err Mediasoup (create w codecs) of
             Inl e \<Rightarrow> Inl e
           | Inr r \<Rightarrow>
               build_routers create pairs (rs @ [r]) (hm_insert (router_ident r) server servers)))"

definition router_manager_new ::
  "(worker \<Rightarrow> rtp_codec_capability list \<Rightarrow> string + router) \<Rightarrow> worker list \<Rightarrow>
   webrtc_server list \<Rightarrow> router_manager_error + router_manager" where
  "router_manager_new create workers servers =
     (case build_routers create (zip workers servers) [] [] of
        Inl e \<Rightarrow> Inl e
      | Inr (rs, m) \<Rightarrow> Inr \<lparr>routers = rs, router_to_webrtc_server = m, next_index = 0\<rparr>)"

definition get_webrtc_server :: "router_manager \<Rightarrow> router_id \<Rightarrow> webrtc_server option" where
  "get_webrtc_server rm rid = hm_get (router_to_webrtc_server rm) rid"

definition get_next_router ::
  "router_manager \<Rightarrow> (router_manager_error + router) panics \<times> router_manager" where
  "get_next_router rm =
     (if routers rm = [] then (Returned (Inl EmptyPool), rm)
      else
        let idx = next_index rm;
            rm' = rm\<lparr>next_index := (idx + 1) mod length (routers rm)\<rparr>
        in if idx < length (routers rm) then (Returned (Inr (routers rm ! idx)), rm')
           else (Panicked, rm'))"

fun try_routers ::
  "nat \<Rightarrow> router_manager \<Rightarrow> (router_id, usize) hmap \<Rightarrow> usize \<Rightarrow>
   router option panics \<times> router_manager" where
  "try_routers 0 rm counts max_sessions = (Returned None, rm)"
| "try_routers (Suc n) rm counts max_sessions =
     (case get_next_router rm of
        (Panicked, rm') \<Rightarrow> (Panicked, rm')
      | (Returned (Inl _), rm') \<Rightarrow> (Returned None, rm')
      | (Returned (Inr r), rm') \<Rightarrow>
          (case hm_get counts (router_ident r) of
             Some c \<Rightarrow>
               if c < max_sessions then (Returned (Some r), rm')
               else try_routers n rm' counts max_sessions
           | None \<Rightarrow> try_routers n rm' counts max_sessions))"

definition get_available_router ::
  "router_manager \<Rightarrow> (router_id, usize) hmap \<Rightarrow> usize \<Rightarrow>
   router option panics \<times> router_manager" where
  "get_available_router rm counts max_sessions =
     (let total = length (routers rm) in
      if total = 0 then (Returned None, rm)
      else try_routers total rm counts max_sessions)"

section \<open>Specification\<close>

text \<open>
  A router has room when its counter exists and is below the limit. The pool is well formed when
  the index is in range (or the pool is empty), every router has a WebRTC server, and the map of
  the servers has distinct keys. The
  reference for the search is a plain \<^const>\<open>find\<close> over the routers in the order that starts at
  the index.
\<close>

definition has_room :: "(router_id, usize) hmap \<Rightarrow> usize \<Rightarrow> router \<Rightarrow> bool" where
  "has_room counts max_sessions r =
     (case hm_get counts (router_ident r) of Some c \<Rightarrow> c < max_sessions | None \<Rightarrow> False)"

definition pool_ok :: "router_manager \<Rightarrow> bool" where
  "pool_ok rm \<longleftrightarrow>
     (routers rm = [] \<or> next_index rm < length (routers rm)) \<and>
     (\<forall>r \<in> set (routers rm). get_webrtc_server rm (router_ident r) \<noteq> None) \<and>
     hm_ok (router_to_webrtc_server rm)"

definition round_robin_order :: "router_manager \<Rightarrow> router list" where
  "round_robin_order rm = rotate (next_index rm) (routers rm)"

text \<open>How many routers the search looks at: up to and including the first with room.\<close>

fun tries :: "('a \<Rightarrow> bool) \<Rightarrow> 'a list \<Rightarrow> nat" where
  "tries P [] = 0"
| "tries P (x # xs) = (if P x then 1 else Suc (tries P xs))"

definition find_router ::
  "router_manager \<Rightarrow> (router_id, usize) hmap \<Rightarrow> usize \<Rightarrow> router option" where
  "find_router rm counts max_sessions =
     find (has_room counts max_sessions) (round_robin_order rm)"

definition index_after ::
  "router_manager \<Rightarrow> (router_id, usize) hmap \<Rightarrow> usize \<Rightarrow> nat" where
  "index_after rm counts max_sessions =
     (next_index rm + tries (has_room counts max_sessions) (round_robin_order rm))
       mod length (routers rm)"

text \<open>A sequence of searches, each with the counters of its time.\<close>

fun pick_sequence ::
  "router_manager \<Rightarrow> (router_id, usize) hmap list \<Rightarrow> usize \<Rightarrow> router option panics list" where
  "pick_sequence rm [] max_sessions = []"
| "pick_sequence rm (counts # cs) max_sessions =
     (case get_available_router rm counts max_sessions of
        (res, rm') \<Rightarrow> res # pick_sequence rm' cs max_sessions)"

text \<open>A small pool for the witnesses.\<close>

definition rr_pool :: router_manager where
  "rr_pool = \<lparr>routers = [\<lparr>router_ident = RouterId 1, router_caps = RtpCapabilitiesFinalized 1\<rparr>,
                         \<lparr>router_ident = RouterId 2, router_caps = RtpCapabilitiesFinalized 2\<rparr>],
              router_to_webrtc_server = [(RouterId 1, WebRtcServer 1), (RouterId 2, WebRtcServer 2)],
              next_index = 1\<rparr>"

section \<open>Lemmas\<close>

lemma get_next_router_ok:
  assumes "next_index rm < length (routers rm)"
  shows "get_next_router rm =
    (Returned (Inr (routers rm ! next_index rm)),
     rm\<lparr>next_index := (next_index rm + 1) mod length (routers rm)\<rparr>)"
  using assms by (auto simp: get_next_router_def Let_def)

lemma rotate_Suc_mod: "xs \<noteq> [] \<Longrightarrow> rotate (Suc i mod length xs) xs = rotate (Suc i) xs"
  by (metis rotate_conv_mod)

lemma round_robin_take:
  assumes "next_index rm < length (routers rm)" and "Suc n \<le> length (routers rm)"
  shows "take (Suc n) (round_robin_order rm) =
    routers rm ! next_index rm #
    take n (round_robin_order (rm\<lparr>next_index := (next_index rm + 1) mod length (routers rm)\<rparr>))"
proof -
  let ?rs = "routers rm" and ?i = "next_index rm"
  let ?xs = "rotate ?i ?rs"
  have ne: "?rs \<noteq> []" using assms by auto
  then have xs: "?xs \<noteq> []" by simp
  have hd: "hd ?xs = ?rs ! ?i"
    using assms ne by (simp add: hd_rotate_conv_nth)
  have "take (Suc n) ?xs = hd ?xs # take n (tl ?xs)"
    using xs by (cases ?xs) simp_all
  moreover have "take n (tl ?xs) = take n (rotate (Suc ?i) ?rs)"
    using xs assms(2) length_rotate [of ?i ?rs] by (cases ?xs) (simp_all add: rotate_def)
  ultimately show ?thesis
    using ne hd by (simp add: round_robin_order_def rotate_Suc_mod)
qed

text \<open>The loop, seen from any number \<open>n\<close> of remaining tries.\<close>

lemma try_routers_find:
  assumes "next_index rm < length (routers rm)" and "n \<le> length (routers rm)"
  shows "try_routers n rm counts mx =
    (Returned (find (has_room counts mx) (take n (round_robin_order rm))),
     rm\<lparr>next_index := (next_index rm + tries (has_room counts mx) (take n (round_robin_order rm)))
          mod length (routers rm)\<rparr>)"
  using assms
proof (induction n arbitrary: rm)
  case 0
  then show ?case by simp
next
  case (Suc n)
  let ?len = "length (routers rm)"
  let ?r = "routers rm ! next_index rm"
  let ?rm = "rm\<lparr>next_index := (next_index rm + 1) mod ?len\<rparr>"
  have len: "0 < ?len" using Suc.prems by linarith
  have order: "take (Suc n) (round_robin_order rm) = ?r # take n (round_robin_order ?rm)"
    using Suc.prems by (rule round_robin_take)
  show ?case
  proof (cases "has_room counts mx ?r")
    case True
    then show ?thesis
      unfolding order using Suc.prems(1)
      by (auto simp: get_next_router_ok has_room_def split: option.splits)
  next
    case False
    have "try_routers (Suc n) rm counts mx = try_routers n ?rm counts mx"
      using False Suc.prems(1)
      by (auto simp: get_next_router_ok has_room_def split: option.splits)
    moreover have "next_index ?rm < length (routers ?rm)" and "n \<le> length (routers ?rm)"
      using len Suc.prems by simp_all
    ultimately show ?thesis
      unfolding order using False Suc.IH [of ?rm] by (simp add: mod_simps)
  qed
qed

lemma round_robin_order_simps [simp]:
  "set (round_robin_order rm) = set (routers rm)"
  "length (round_robin_order rm) = length (routers rm)"
  by (simp_all add: round_robin_order_def)

text \<open>However many tries the search makes, it moves the index only.\<close>

lemma try_routers_pool:
  assumes "pool_ok rm"
  shows "pool_ok (snd (try_routers n rm counts mx)) \<and>
         routers (snd (try_routers n rm counts mx)) = routers rm"
  using assms
proof (induction n arbitrary: rm)
  case (Suc n)
  let ?rm = "rm\<lparr>next_index := (next_index rm + 1) mod length (routers rm)\<rparr>"
  show ?case
  proof (cases "routers rm = []")
    case True
    with Suc.prems show ?thesis by (simp add: get_next_router_def)
  next
    case False
    with Suc.prems have step: "get_next_router rm = (Returned (Inr (routers rm ! next_index rm)), ?rm)"
      by (simp add: get_next_router_def pool_ok_def Let_def)
    have "pool_ok ?rm" using Suc.prems False by (simp add: pool_ok_def get_webrtc_server_def)
    with Suc.IH [OF this] show ?thesis by (simp add: step split: option.split)
  qed
qed simp

text \<open>The search is the reference search: no panic, no error, and the index just behind the find.\<close>

lemma get_available_router_find:
  assumes "pool_ok rm"
  shows "get_available_router rm counts mx =
    (Returned (find_router rm counts mx),
     if routers rm = [] then rm else rm\<lparr>next_index := index_after rm counts mx\<rparr>)"
proof (cases "routers rm = []")
  case True
  then show ?thesis
    by (simp add: get_available_router_def find_router_def round_robin_order_def)
next
  case False
  with assms have "next_index rm < length (routers rm)" by (simp add: pool_ok_def)
  from try_routers_find [OF this order_refl, of counts mx] False show ?thesis
    by (simp add: get_available_router_def find_router_def index_after_def)
qed

lemma get_available_router_pool_ok:
  assumes "pool_ok rm" and "get_available_router rm counts mx = (res, rm')"
  shows "pool_ok rm'" and "routers rm' = routers rm"
    and "router_to_webrtc_server rm' = router_to_webrtc_server rm"
  using assms
  by (auto simp: get_available_router_find pool_ok_def index_after_def get_webrtc_server_def
      split: if_splits)

lemma find_router_Some:
  "find_router rm counts mx = Some r \<Longrightarrow> r \<in> set (routers rm) \<and> has_room counts mx r"
  unfolding find_router_def find_Some_iff
  by (metis nth_mem round_robin_order_simps)

lemma find_router_None:
  "find_router rm counts mx = None \<longleftrightarrow> (\<forall>r \<in> set (routers rm). \<not> has_room counts mx r)"
  by (auto simp: find_router_def find_None_iff)

lemma has_room_iff: "has_room counts mx r \<longleftrightarrow> (\<exists>c. hm_get counts (router_ident r) = Some c \<and> c < mx)"
  by (auto simp: has_room_def split: option.splits)

text \<open>Creation: one router for each pair, each with its server.\<close>

lemma build_routers_Inr:
  assumes "build_routers create pairs rs m = Inr (rs', m')"
    and "\<forall>r \<in> set rs. hm_get m (router_ident r) \<noteq> None" and "hm_ok m"
  shows "length rs' = length rs + length pairs \<and>
         (\<forall>r \<in> set rs'. hm_get m' (router_ident r) \<noteq> None) \<and> hm_ok m'"
  using assms
proof (induction pairs arbitrary: rs m)
  case Nil
  then show ?case by simp
next
  case (Cons pair pairs)
  obtain w server where pair: "pair = (w, server)" by (cases pair)
  from Cons.prems(1) pair obtain codecs r where
    rest: "build_routers create pairs (rs @ [r]) (hm_insert (router_ident r) server m) = Inr (rs', m')"
    by (auto split: sum.splits)
  have "\<forall>r' \<in> set (rs @ [r]). hm_get (hm_insert (router_ident r) server m) (router_ident r') \<noteq> None"
    using Cons.prems(2) by auto
  from Cons.IH [OF rest this] Cons.prems(3) show ?case by simp
qed

lemma router_manager_new_ok:
  assumes "router_manager_new create workers servers = Inr rm"
  shows "pool_ok rm" and "length (routers rm) = min (length workers) (length servers)"
proof -
  from assms obtain rs m where
    built: "build_routers create (zip workers servers) [] [] = Inr (rs, m)"
    and rm: "rm = \<lparr>routers = rs, router_to_webrtc_server = m, next_index = 0\<rparr>"
    by (auto simp: router_manager_new_def split: sum.splits)
  from build_routers_Inr [OF built] rm
  show "pool_ok rm" and "length (routers rm) = min (length workers) (length servers)"
    by (auto simp: pool_ok_def get_webrtc_server_def)
qed

lemma build_routers_pairs:
  assumes "build_routers create pairs rs m = Inr (rs', m')"
  shows "\<exists>new codecs. get_codecs = Inr codecs \<and> rs' = rs @ new \<and> length new = length pairs \<and>
           (\<forall>i < length pairs. create (fst (pairs ! i)) codecs = Inr (new ! i)) \<and>
           (\<forall>rid. rid \<notin> router_ident ` set new \<longrightarrow> hm_get m' rid = hm_get m rid) \<and>
           (distinct (map router_ident new) \<longrightarrow>
              (\<forall>i < length pairs. hm_get m' (router_ident (new ! i)) = Some (snd (pairs ! i))))"
  using assms
proof (induction pairs arbitrary: rs m)
  case Nil
  then show ?case by (simp add: get_codecs_value)
next
  case (Cons pair pairs)
  obtain w server where pair: "pair = (w, server)" by (cases pair)
  from Cons.prems pair obtain codecs r where codecs: "get_codecs = Inr codecs"
    and r: "create w codecs = Inr r"
    and rest: "build_routers create pairs (rs @ [r]) (hm_insert (router_ident r) server m)
                 = Inr (rs', m')"
    by (auto split: sum.splits)
  from Cons.IH [OF rest] obtain new codecs' where new: "get_codecs = Inr codecs'"
    "rs' = (rs @ [r]) @ new" "length new = length pairs" "\<forall>i < length pairs. create (fst (pairs ! i)) codecs' = Inr (new ! i)"
    "\<forall>rid. rid \<notin> router_ident ` set new \<longrightarrow>
       hm_get m' rid = hm_get (hm_insert (router_ident r) server m) rid"
    "distinct (map router_ident new) \<longrightarrow>
       (\<forall>i < length pairs. hm_get m' (router_ident (new ! i)) = Some (snd (pairs ! i)))"
    by blast
  from new(1) codecs have same: "codecs' = codecs" by (metis sum.inject(2))
  show ?case
  proof (intro exI conjI)
    show "rs' = rs @ (r # new)" by (simp add: new)
    show "length (r # new) = length (pair # pairs)" by (simp add: new)
    show "\<forall>i < length (pair # pairs). create (fst ((pair # pairs) ! i)) codecs = Inr ((r # new) ! i)"
      using new(3,4) r by (auto simp: same nth_Cons pair split: nat.split)
    show "\<forall>rid. rid \<notin> router_ident ` set (r # new) \<longrightarrow> hm_get m' rid = hm_get m rid"
      using new(5) by auto
    show "distinct (map router_ident (r # new)) \<longrightarrow>
        (\<forall>i < length (pair # pairs).
           hm_get m' (router_ident ((r # new) ! i)) = Some (snd ((pair # pairs) ! i)))"
      using new(3,5,6) by (auto simp: nth_Cons pair split: nat.split)
  qed (fact codecs)
qed

text \<open>Positions in the search order.\<close>

lemma find_first:
  "find P xs = Some x \<Longrightarrow>
   \<exists>k < length xs. xs ! k = x \<and> P x \<and> (\<forall>j < k. \<not> P (xs ! j)) \<and> tries P xs = Suc k"
proof (induction xs)
  case Nil
  then show ?case by simp
next
  case (Cons y xs)
  show ?case
  proof (cases "P y")
    case True
    with Cons.prems show ?thesis by (intro exI [of _ 0]) simp
  next
    case False
    with Cons obtain k where "k < length xs" "xs ! k = x" "P x" "\<forall>j < k. \<not> P (xs ! j)"
      "tries P xs = Suc k" by auto
    with False show ?thesis
      by (intro exI [of _ "Suc k"]) (auto simp: nth_Cons split: nat.split)
  qed
qed

lemma tries_all: "\<forall>x \<in> set xs. \<not> P x \<Longrightarrow> tries P xs = length xs"
  by (induction xs) simp_all

lemma round_robin_nth:
  "j < length (routers rm) \<Longrightarrow>
   round_robin_order rm ! j = routers rm ! ((next_index rm + j) mod length (routers rm))"
  by (simp add: round_robin_order_def nth_rotate)

lemma rr_pool_ok: "pool_ok rr_pool"
  by (simp add: pool_ok_def rr_pool_def get_webrtc_server_def hm_ok_def)

section \<open>The interface to the session core\<close>

text \<open>
  What the session core relies on when it asks for a router: the pool stays well formed and
  keeps its routers, the call does not panic, a router it returns is in the pool and has room,
  and it returns none only when no router has room.
\<close>

locale router_source =
  fixes pick :: "'p \<Rightarrow> (router_id, usize) hmap \<Rightarrow> usize \<Rightarrow> router option panics \<times> 'p"
    and ok :: "'p \<Rightarrow> bool"
    and pool :: "'p \<Rightarrow> router list"
  assumes pick_ok: "ok p \<Longrightarrow> ok (snd (pick p counts mx))"
    and pick_pool: "ok p \<Longrightarrow> pool (snd (pick p counts mx)) = pool p"
    and pick_returns: "ok p \<Longrightarrow> fst (pick p counts mx) \<noteq> Panicked"
    and pick_Some: "ok p \<Longrightarrow> fst (pick p counts mx) = Returned (Some r) \<Longrightarrow>
                      r \<in> set (pool p) \<and> has_room counts mx r"
    and pick_None: "ok p \<Longrightarrow> fst (pick p counts mx) = Returned None \<longleftrightarrow>
                      (\<forall>r \<in> set (pool p). \<not> has_room counts mx r)"
begin

lemma pick_cases:
  assumes "ok p"
  obtains (none) "fst (pick p counts mx) = Returned None"
    | (some) r where "fst (pick p counts mx) = Returned (Some r)"
  using pick_returns [OF assms] by (metis not_None_eq panics.exhaust)

text \<open>The counter of the router exists, and counting one more session cannot overflow.\<close>

lemma pick_counter:
  assumes "ok p" and "fst (pick p counts mx) = Returned (Some r)"
  obtains n where "hm_get counts (router_ident r) = Some n" and "n < mx" and "n + 1 \<le> mx"
    and "unat (n + 1) = Suc (unat n)"
proof -
  from pick_Some [OF assms] obtain n where "hm_get counts (router_ident r) = Some n" "n < mx"
    by (auto simp: has_room_iff)
  with that show thesis using unat_Suc_below by blast
qed

end

interpretation rs: router_source get_available_router pool_ok routers
proof unfold_locales
  fix p counts mx r
  assume ok: "pool_ok p"
  show "pool_ok (snd (get_available_router p counts mx))"
    and "routers (snd (get_available_router p counts mx)) = routers p"
    using get_available_router_pool_ok [OF ok] by (metis prod.collapse)+
  show "fst (get_available_router p counts mx) \<noteq> Panicked"
    by (simp add: get_available_router_find ok)
  show "fst (get_available_router p counts mx) = Returned (Some r) \<Longrightarrow>
        r \<in> set (routers p) \<and> has_room counts mx r"
    by (simp add: get_available_router_find ok find_router_Some)
  show "fst (get_available_router p counts mx) = Returned None \<longleftrightarrow>
        (\<forall>r \<in> set (routers p). \<not> has_room counts mx r)"
    by (simp add: get_available_router_find ok find_router_None)
qed

section \<open>Properties\<close>

text \<open>C26. The search for a router examines the pool in circular order from the index. It ends with
  the first router that has room, and leaves the index just behind it; if no router has room it
  ends without one after a full round, with the index where it was. It never panics.\<close>

theorem available_router_search:
  assumes pool: "pool_ok rm" and pick: "get_available_router rm counts mx = (res, rm')"
  defines "n \<equiv> length (routers rm)"
  shows "(res = Returned None \<and> (\<forall>r \<in> set (routers rm). \<not> has_room counts mx r) \<and> rm' = rm) \<or>
         (\<exists>k < n. res = Returned (Some (routers rm ! ((next_index rm + k) mod n))) \<and>
            has_room counts mx (routers rm ! ((next_index rm + k) mod n)) \<and>
            (\<forall>j < k. \<not> has_room counts mx (routers rm ! ((next_index rm + j) mod n))) \<and>
            rm' = rm\<lparr>next_index := (next_index rm + k + 1) mod n\<rparr>)"
proof (cases "find_router rm counts mx")
  case None
  then have full: "\<forall>r \<in> set (routers rm). \<not> has_room counts mx r" by (simp add: find_router_None)
  then have "tries (has_room counts mx) (round_robin_order rm) = n"
    by (simp add: tries_all n_def)
  then have "rm' = rm"
    using pool pick
    by (auto simp: get_available_router_find index_after_def pool_ok_def n_def split: if_splits)
  with None full pool pick show ?thesis by (simp add: get_available_router_find)
next
  case (Some r)
  then have find: "find (has_room counts mx) (round_robin_order rm) = Some r"
    by (simp add: find_router_def)
  then have ne: "routers rm \<noteq> []" by (auto simp: round_robin_order_def)
  from find_first [OF find] obtain k where k: "k < n" "round_robin_order rm ! k = r"
    "has_room counts mx r" "\<forall>j < k. \<not> has_room counts mx (round_robin_order rm ! j)"
    "tries (has_room counts mx) (round_robin_order rm) = Suc k"
    by (auto simp: n_def)
  have "res = Returned (Some r)" and "rm' = rm\<lparr>next_index := (next_index rm + k + 1) mod n\<rparr>"
    using pool pick ne Some k(5) by (auto simp: get_available_router_find index_after_def n_def)
  moreover have "r = routers rm ! ((next_index rm + k) mod n)"
    using k(1,2) by (simp add: round_robin_nth n_def)
  moreover have "\<forall>j < k. \<not> has_room counts mx (routers rm ! ((next_index rm + j) mod n))"
    using k(1,4) by (simp add: round_robin_nth n_def)
  ultimately show ?thesis using k(1,3) by blast
qed

theorem available_router_search_witness:
  "\<exists>r. fst (get_available_router rr_pool [(RouterId 1, 0), (RouterId 2, 5)] 5) = Returned (Some r) \<and>
       has_room [(RouterId 1, 0), (RouterId 2, 5)] 5 r"
proof -
  obtain res rm' where pick: "get_available_router rr_pool [(RouterId 1, 0), (RouterId 2, 5)] 5 = (res, rm')"
    by fastforce
  have "has_room [(RouterId 1, 0), (RouterId 2, 5)] 5 (routers rr_pool ! 0)"
    by (simp add: has_room_def rr_pool_def)
  moreover have "routers rr_pool ! 0 \<in> set (routers rr_pool)" by (simp add: rr_pool_def)
  ultimately show ?thesis
    using available_router_search [OF rr_pool_ok pick] by (auto simp: pick)
qed

text \<open>C27. Round robin is fair: while every router has room, whatever the counters are otherwise, the
  \<open>i\<close>th of a sequence of searches returns the router \<open>i\<close> places behind the index, so \<open>n\<close>
  consecutive searches on \<open>n\<close> routers use each of them exactly once.\<close>

theorem round_robin_fair:
  assumes "pool_ok rm" and "routers rm \<noteq> []"
    and "\<forall>counts \<in> set cs. \<forall>r \<in> set (routers rm). has_room counts mx r"
  shows "pick_sequence rm cs mx
           = map (\<lambda>i. Returned (Some (routers rm ! ((next_index rm + i) mod length (routers rm)))))
               [0..<length cs]"
  using assms
proof (induction cs arbitrary: rm)
  case Nil
  then show ?case by simp
next
  case (Cons counts cs)
  let ?n = "length (routers rm)"
  let ?rm = "rm\<lparr>next_index := (next_index rm + 1) mod ?n\<rparr>"
  have idx: "next_index rm < ?n" and n: "0 < ?n"
    using Cons.prems by (auto simp: pool_ok_def)
  have room: "has_room counts mx (routers rm ! next_index rm)" using Cons.prems(3) idx by simp
  have order: "round_robin_order rm = routers rm ! next_index rm # tl (round_robin_order rm)"
    using idx n by (simp add: round_robin_order_def hd_rotate_conv_nth flip: hd_Cons_tl)
      (metis hd_Cons_tl hd_rotate_conv_nth length_greater_0_conv mod_less rotate_is_Nil_conv)
  have "find_router rm counts mx = Some (routers rm ! next_index rm)"
    and "index_after rm counts mx = (next_index rm + 1) mod ?n"
    by (simp_all add: find_router_def index_after_def, (subst order, simp add: room)+)
  then have pick: "get_available_router rm counts mx = (Returned (Some (routers rm ! next_index rm)), ?rm)"
    using Cons.prems by (simp add: get_available_router_find)
  have "pool_ok ?rm" using Cons.prems(1) n by (simp add: pool_ok_def get_webrtc_server_def)
  with Cons.IH [of ?rm] Cons.prems(2,3)
  have "pick_sequence ?rm cs mx
      = map (\<lambda>i. Returned (Some (routers rm ! ((next_index rm + 1 + i) mod ?n)))) [0..<length cs]"
    by (simp add: mod_simps)
  also have "\<dots> = map (\<lambda>i. Returned (Some (routers rm ! ((next_index rm + i) mod ?n))))
      [Suc 0..<Suc (length cs)]"
    by (simp add: map_Suc_upt [symmetric] del: upt_Suc)
  finally show ?case
    using idx by (simp add: pick upt_conv_Cons del: upt_Suc)
qed

theorem round_robin_fair_witness:
  "pick_sequence rr_pool [[(RouterId 1, 0), (RouterId 2, 4)], [(RouterId 1, 0), (RouterId 2, 4)]] 5
     = [Returned (Some (routers rr_pool ! 1)), Returned (Some (routers rr_pool ! 0))]"
proof -
  let ?cs = "[[(RouterId 1, 0), (RouterId 2, 4)], [(RouterId 1, 0), (RouterId 2, 4)]]"
  have ne: "routers rr_pool \<noteq> []" by (simp add: rr_pool_def)
  have room: "\<forall>counts \<in> set ?cs. \<forall>r \<in> set (routers rr_pool). has_room counts 5 r"
    by (simp add: has_room_def rr_pool_def)
  have "next_index rr_pool = 1" and "length (routers rr_pool) = 2" by (simp_all add: rr_pool_def)
  then show ?thesis
    unfolding round_robin_fair [OF rr_pool_ok ne room] by (simp add: upt_conv_Cons)
qed

text \<open>C37. A pool that was created has one router for each worker and server, in their order, each
  created with the codecs of the program; and if mediasoup gives the routers distinct ids, the
  server looked up for the router of a worker is the server of that worker.\<close>

theorem router_pool_pairing:
  assumes "router_manager_new create workers servers = Inr rm"
  shows "length (routers rm) = min (length workers) (length servers) \<and> next_index rm = 0 \<and>
         (\<exists>codecs. get_codecs = Inr codecs \<and>
            (\<forall>i < length (routers rm). create (workers ! i) codecs = Inr (routers rm ! i))) \<and>
         (distinct (map router_ident (routers rm)) \<longrightarrow>
            (\<forall>i < length (routers rm).
               get_webrtc_server rm (router_ident (routers rm ! i)) = Some (servers ! i)))"
proof -
  from assms obtain rs m where
    built: "build_routers create (zip workers servers) [] [] = Inr (rs, m)"
    and rm: "rm = \<lparr>routers = rs, router_to_webrtc_server = m, next_index = 0\<rparr>"
    by (auto simp: router_manager_new_def split: sum.splits)
  from build_routers_pairs [OF built] rm show ?thesis
    by (auto simp: get_webrtc_server_def)
qed

theorem router_pool_pairing_witness:
  "get_webrtc_server
     \<lparr>routers = [\<lparr>router_ident = RouterId 1, router_caps = RtpCapabilitiesFinalized 0\<rparr>],
      router_to_webrtc_server = [(RouterId 1, WebRtcServer 9)], next_index = 0\<rparr> (RouterId 1)
     = Some (WebRtcServer 9)"
proof -
  let ?r = "\<lparr>router_ident = RouterId 1, router_caps = RtpCapabilitiesFinalized 0\<rparr>"
  have new: "router_manager_new (\<lambda>w cs. Inr ?r) [Worker 1] [WebRtcServer 9]
      = Inr \<lparr>routers = [?r], router_to_webrtc_server = [(RouterId 1, WebRtcServer 9)], next_index = 0\<rparr>"
    by (simp add: router_manager_new_def get_codecs_value hm_insert_empty)
  from router_pool_pairing [OF new] show ?thesis by simp
qed

end
