(* ===== verification/Event_Handler.thy ===== *)
theory Event_Handler
  imports Media_Types
begin

text \<open>
  \<open>src/sfu/event_handler.rs\<close>: the events sent to subscribers, the pending set-ups a core
  operation hands back, and the close callbacks. The two or three callbacks registered for one
  object share an \<open>AtomicBool\<close>; whichever runs first wins the compare-exchange and reports the
  close. A registration returns a handler id, which the source drops at once (\<open>let _ = ...\<close>);
  whether a callback stays attached after that is up to the library, the parameter \<open>stays\<close>.
\<close>

section \<open>Data\<close>

datatype sfu_event =
    SubscriptionConfirmed string
  | NewProducer string i32
  | TransportClosed string
  | ProducerClosed string
  | ConsumerClosed string

datatype pending_event_setup =
    PendingTransport webrtc_transport uuid string
  | PendingProducer producer uuid string media_kind
  | PendingConsumer consumer uuid string

datatype hook = OnClose | OnRouterClose | OnTransportClose | OnProducerClose

text \<open>
  The state the callbacks of one object share: the callbacks still attached, the flag
  \<open>is_closed\<close>, and the session and event they report.
\<close>

record close_watch =
  watch_hooks :: "hook list"
  is_closed :: bool
  watch_session :: uuid
  watch_event :: sfu_event

section \<open>Operations\<close>

definition create_transport_closed_event :: "texts \<Rightarrow> transport_id \<Rightarrow> sfu_event" where
  "create_transport_closed_event tx tid = TransportClosed (transport_id_proto tx tid)"

definition create_new_producer_event :: "texts \<Rightarrow> producer_id \<Rightarrow> media_kind \<Rightarrow> sfu_event" where
  "create_new_producer_event tx prid kind =
     NewProducer (producer_id_proto tx prid) (media_kind_proto tx kind)"

definition create_producer_closed_event :: "texts \<Rightarrow> producer_id \<Rightarrow> sfu_event" where
  "create_producer_closed_event tx prid = ProducerClosed (producer_id_proto tx prid)"

definition create_consumer_closed_event :: "texts \<Rightarrow> consumer_id \<Rightarrow> sfu_event" where
  "create_consumer_closed_event tx cid = ConsumerClosed (consumer_id_proto tx cid)"

text \<open>\<open>let _ = object.on_...(callback)\<close>: register, then drop the handler id.\<close>

definition register_and_drop :: "(hook \<Rightarrow> bool) \<Rightarrow> hook \<Rightarrow> hook list \<Rightarrow> hook list" where
  "register_and_drop stays h hooks = (if stays h then hooks @ [h] else hooks)"

definition setup_transport_events ::
  "texts \<Rightarrow> (hook \<Rightarrow> bool) \<Rightarrow> webrtc_transport \<Rightarrow> uuid \<Rightarrow> close_watch" where
  "setup_transport_events tx stays t session_id =
     \<lparr>watch_hooks = register_and_drop stays OnRouterClose (register_and_drop stays OnClose []),
      is_closed = False, watch_session = session_id,
      watch_event = create_transport_closed_event tx (transport_ident t)\<rparr>"

definition setup_producer_events ::
  "texts \<Rightarrow> (hook \<Rightarrow> bool) \<Rightarrow> producer \<Rightarrow> uuid \<Rightarrow> close_watch" where
  "setup_producer_events tx stays p session_id =
     \<lparr>watch_hooks = register_and_drop stays OnTransportClose (register_and_drop stays OnClose []),
      is_closed = False, watch_session = session_id,
      watch_event = create_producer_closed_event tx (producer_ident p)\<rparr>"

definition setup_consumer_events ::
  "texts \<Rightarrow> (hook \<Rightarrow> bool) \<Rightarrow> consumer \<Rightarrow> uuid \<Rightarrow> close_watch" where
  "setup_consumer_events tx stays c session_id =
     \<lparr>watch_hooks = register_and_drop stays OnProducerClose
        (register_and_drop stays OnTransportClose (register_and_drop stays OnClose [])),
      is_closed = False, watch_session = session_id,
      watch_event = create_consumer_closed_event tx (consumer_ident c)\<rparr>"

text \<open>The body of every callback: \<open>compare_exchange(false, true)\<close>, then the report.\<close>

definition run_callback :: "close_watch \<Rightarrow> close_watch \<times> (uuid \<times> sfu_event) option" where
  "run_callback w =
     (if is_closed w then (w, None)
      else (w\<lparr>is_closed := True\<rparr>, Some (watch_session w, watch_event w)))"

text \<open>The library reports a hook: the attached callback for it runs, if there is one.\<close>

definition fire :: "hook \<Rightarrow> close_watch \<Rightarrow> close_watch \<times> (uuid \<times> sfu_event) option" where
  "fire h w = (if h \<in> set (watch_hooks w) then run_callback w else (w, None))"

text \<open>A sequence of hooks, and the events it reports, in order.\<close>

fun fire_all :: "hook list \<Rightarrow> close_watch \<Rightarrow> close_watch \<times> (uuid \<times> sfu_event) list" where
  "fire_all [] w = (w, [])"
| "fire_all (h # hs) w =
     (case fire h w of
        (w', None) \<Rightarrow> fire_all hs w'
      | (w', Some e) \<Rightarrow> (case fire_all hs w' of (w'', es) \<Rightarrow> (w'', e # es)))"

section \<open>Lemmas\<close>

lemma fire_all_closed: "is_closed w \<Longrightarrow> fire_all hs w = (w, [])"
  by (induction hs) (simp_all add: fire_def run_callback_def)

lemma fire_all_open:
  "\<not> is_closed w \<Longrightarrow>
   snd (fire_all hs w) =
     (if \<exists>h \<in> set hs. h \<in> set (watch_hooks w) then [(watch_session w, watch_event w)] else [])"
  by (induction hs) (auto simp: fire_def run_callback_def fire_all_closed split: prod.splits)

lemma set_register_and_drop [simp]:
  "set (register_and_drop stays h hooks) = set hooks \<union> (if stays h then {h} else {})"
  by (simp add: register_and_drop_def)

lemmas setup_events_defs =
  setup_transport_events_def setup_producer_events_def setup_consumer_events_def

section \<open>Properties\<close>

text \<open>C34. However often and in whatever order the library reports the ends of an object, its close is
  reported at most once, with the event of that object, to its session; it is reported exactly if
  one of the reported hooks is one the source registers for this kind of object and whose callback
  is still attached. With callbacks that are detached when the returned id is dropped, nothing is
  ever reported.\<close>

theorem close_reported_once:
  "snd (fire_all hs (setup_transport_events tx stays t sid)) =
     (if \<exists>h. h \<in> set hs \<and> h \<in> {OnClose, OnRouterClose} \<and> stays h
      then [(sid, TransportClosed (transport_id_proto tx (transport_ident t)))] else []) \<and>
   snd (fire_all hs (setup_producer_events tx stays p sid)) =
     (if \<exists>h. h \<in> set hs \<and> h \<in> {OnClose, OnTransportClose} \<and> stays h
      then [(sid, ProducerClosed (producer_id_proto tx (producer_ident p)))] else []) \<and>
   snd (fire_all hs (setup_consumer_events tx stays co sid)) =
     (if \<exists>h. h \<in> set hs \<and> h \<in> {OnClose, OnTransportClose, OnProducerClose} \<and> stays h
      then [(sid, ConsumerClosed (consumer_id_proto tx (consumer_ident co)))] else [])"
proof (intro conjI)
  have open_watch: "\<not> is_closed (setup_transport_events tx stays t sid)"
    "\<not> is_closed (setup_producer_events tx stays p sid)"
    "\<not> is_closed (setup_consumer_events tx stays co sid)"
    by (simp_all add: setup_events_defs)
  show "snd (fire_all hs (setup_transport_events tx stays t sid)) =
     (if \<exists>h. h \<in> set hs \<and> h \<in> {OnClose, OnRouterClose} \<and> stays h
      then [(sid, TransportClosed (transport_id_proto tx (transport_ident t)))] else [])"
    unfolding fire_all_open [OF open_watch(1)]
    by (auto simp: setup_transport_events_def create_transport_closed_event_def split: if_splits)
  show "snd (fire_all hs (setup_producer_events tx stays p sid)) =
     (if \<exists>h. h \<in> set hs \<and> h \<in> {OnClose, OnTransportClose} \<and> stays h
      then [(sid, ProducerClosed (producer_id_proto tx (producer_ident p)))] else [])"
    unfolding fire_all_open [OF open_watch(2)]
    by (auto simp: setup_producer_events_def create_producer_closed_event_def split: if_splits)
  show "snd (fire_all hs (setup_consumer_events tx stays co sid)) =
     (if \<exists>h. h \<in> set hs \<and> h \<in> {OnClose, OnTransportClose, OnProducerClose} \<and> stays h
      then [(sid, ConsumerClosed (consumer_id_proto tx (consumer_ident co)))] else [])"
    unfolding fire_all_open [OF open_watch(3)]
    by (auto simp: setup_consumer_events_def create_consumer_closed_event_def split: if_splits)
qed

end
