(* ===== verification/Sfu_Core.thy ===== *)
theory Sfu_Core
  imports Router_Manager Event_Handler
begin

text \<open>
  \<open>src/sfu/core.rs\<close> and \<open>src/sfu/transport.rs\<close>: the registry of sessions and every operation on
  it, translated one by one, and the facts about each that the later theories rest on. An
  operation returns its \<open>Result\<close> and the core it leaves; the lock held by the caller around each
  call makes it one step. Logging has no effect on the result and is left out.
\<close>

section \<open>State\<close>

record transports =
  send_transport :: "webrtc_transport option"
  recv_transport :: "webrtc_transport option"

record participant_state =
  participant_type_of :: participant_type
  rtp_caps :: "rtp_capabilities option"
  transports_of :: transports
  producers :: "(producer_id, producer) hmap"
  consumers :: "(consumer_id, consumer) hmap"

record session_state =
  session_router :: router
  participants :: "(string, participant_state) hmap"
  max_participants :: nat

record sfu_core =
  router_pool :: router_manager
  sessions :: "(uuid, session_state) hmap"
  active_sessions_per_router :: "(router_id, usize) hmap"
  max_sessions_per_router :: usize
  event_senders :: "(uuid, (string, sender) hmap) hmap"

record register_session_data =
  reg_session_id :: uuid
  reg_participant_id :: string

record create_transport_data =
  ct_transport_id :: transport_id
  ct_ice_candidates :: "ice_candidate list"
  ct_dtls_parameters :: dtls_parameters
  ct_ice_parameters :: ice_parameters

section \<open>Operations\<close>

definition transports_new :: transports where
  "transports_new = \<lparr>send_transport = None, recv_transport = None\<rparr>"

definition new_participant :: "participant_type \<Rightarrow> participant_state" where
  "new_participant ptype =
     \<lparr>participant_type_of = ptype, rtp_caps = None, transports_of = transports_new,
      producers = [], consumers = []\<rparr>"

fun init_counters :: "router list \<Rightarrow> (router_id, usize) hmap \<Rightarrow> (router_id, usize) hmap" where
  "init_counters [] m = m"
| "init_counters (r # rs) m = init_counters rs (hm_insert (router_ident r) 0 m)"

definition sfu_core_new :: "router_manager \<Rightarrow> usize \<Rightarrow> sfu_core" where
  "sfu_core_new rm max_sessions =
     \<lparr>router_pool = rm, sessions = [], active_sessions_per_router = init_counters (routers rm) [],
      max_sessions_per_router = max_sessions, event_senders = []\<rparr>"

text \<open>\<open>new_id\<close> is the result of \<open>Uuid::new_v4()\<close>.\<close>

definition register_session ::
  "uuid \<Rightarrow> sfu_core \<Rightarrow> string \<Rightarrow> participant_type \<Rightarrow>
   (session_error + register_session_data) panics \<times> sfu_core" where
  "register_session new_id c pid ptype =
     (case get_available_router (router_pool c) (active_sessions_per_router c)
             (max_sessions_per_router c) of
        (Panicked, rm) \<Rightarrow> (Panicked, c\<lparr>router_pool := rm\<rparr>)
      | (Returned None, rm) \<Rightarrow> (Returned (Inl AllRoutersFull), c\<lparr>router_pool := rm\<rparr>)
      | (Returned (Some r), rm) \<Rightarrow>
          (case hm_get (active_sessions_per_router c) (router_ident r) of
             None \<Rightarrow> (Returned (Inl MissingRouterCounter), c\<lparr>router_pool := rm\<rparr>)
           | Some counter \<Rightarrow>
               (Returned (Inr \<lparr>reg_session_id = new_id, reg_participant_id = pid\<rparr>),
                c\<lparr>router_pool := rm,
                  active_sessions_per_router :=
                    hm_insert (router_ident r) (counter + 1) (active_sessions_per_router c),
                  sessions := hm_insert new_id
                    \<lparr>session_router = r,
                     participants = hm_insert pid (new_participant ptype) [],
                     max_participants = 2\<rparr> (sessions c)\<rparr>)))"

text \<open>
  A registration whose client goes away while its search waits for the lock of the index: it has
  looked at \<open>j\<close> routers in vain, and only the index has moved.
\<close>

definition abandon_register :: "nat \<Rightarrow> sfu_core \<Rightarrow> sfu_core" where
  "abandon_register j c =
     (case try_routers j (router_pool c) (active_sessions_per_router c) (max_sessions_per_router c) of
        (Returned None, rm) \<Rightarrow> c\<lparr>router_pool := rm\<rparr>
      | _ \<Rightarrow> c)"

text \<open>The two look-ups most operations start with.\<close>

definition find_session :: "texts \<Rightarrow> sfu_core \<Rightarrow> uuid \<Rightarrow> session_error + session_state" where
  "find_session tx c sid = ok_or (SessionNotFound (uuid_text tx sid)) (hm_get (sessions c) sid)"

definition find_participant ::
  "texts \<Rightarrow> sfu_core \<Rightarrow> uuid \<Rightarrow> string \<Rightarrow>
   session_error + session_state \<times> participant_state" where
  "find_participant tx c sid pid =
     (case find_session tx c sid of
        Inl e \<Rightarrow> Inl e
      | Inr st \<Rightarrow>
          (case ok_or (ParticipantNotFound pid) (hm_get (participants st) pid) of
             Inl e \<Rightarrow> Inl e
           | Inr p \<Rightarrow> Inr (st, p)))"

text \<open>Writing through \<open>get_mut\<close>: the changed participant goes back where it was found.\<close>

definition put_session :: "uuid \<Rightarrow> session_state \<Rightarrow> sfu_core \<Rightarrow> sfu_core" where
  "put_session sid st c = c\<lparr>sessions := hm_insert sid st (sessions c)\<rparr>"

definition put_participant ::
  "uuid \<Rightarrow> session_state \<Rightarrow> string \<Rightarrow> participant_state \<Rightarrow> sfu_core \<Rightarrow> sfu_core" where
  "put_participant sid st pid p c =
     put_session sid (st\<lparr>participants := hm_insert pid p (participants st)\<rparr>) c"

definition join_session ::
  "texts \<Rightarrow> sfu_core \<Rightarrow> uuid \<Rightarrow> string \<Rightarrow> participant_type \<Rightarrow>
   (session_error + unit) \<times> sfu_core" where
  "join_session tx c sid pid ptype =
     (case find_session tx c sid of
        Inl e \<Rightarrow> (Inl e, c)
      | Inr st \<Rightarrow>
          if max_participants st \<le> hm_len (participants st)
          then (Inl (SessionFull (uuid_text tx sid)), c)
          else if hm_contains (participants st) pid
          then (Inl (ParticipantAlreadyExists pid), c)
          else (Inr (), put_participant sid st pid (new_participant ptype) c))"

definition get_router_rtp_capabilities ::
  "texts \<Rightarrow> sfu_core \<Rightarrow> uuid \<Rightarrow> session_error + rtp_capabilities_finalized" where
  "get_router_rtp_capabilities tx c sid =
     (case find_session tx c sid of
        Inl e \<Rightarrow> Inl e
      | Inr st \<Rightarrow> Inr (router_caps (session_router st)))"

definition set_rtp_capabilities ::
  "texts \<Rightarrow> sfu_core \<Rightarrow> uuid \<Rightarrow> string \<Rightarrow> rtp_capabilities \<Rightarrow>
   (session_error + unit) \<times> sfu_core" where
  "set_rtp_capabilities tx c sid pid caps =
     (case find_participant tx c sid pid of
        Inl e \<Rightarrow> (Inl e, c)
      | Inr (st, p) \<Rightarrow> (Inr (), put_participant sid st pid (p\<lparr>rtp_caps := Some caps\<rparr>) c))"

definition create_transport ::
  "mediasoup \<Rightarrow> texts \<Rightarrow> sfu_core \<Rightarrow> uuid \<Rightarrow> string \<Rightarrow> string \<Rightarrow>
   (session_error + create_transport_data \<times> pending_event_setup option) \<times> sfu_core" where
  "create_transport ms tx c sid pid direction =
     (case find_participant tx c sid pid of
        Inl e \<Rightarrow> (Inl e, c)
      | Inr (st, p) \<Rightarrow>
          (case ok_or MissingWebRtcServer
                  (get_webrtc_server (router_pool c) (router_ident (session_router st))) of
             Inl e \<Rightarrow> (Inl e, c)
           | Inr server \<Rightarrow>
               (case map_err TransportCreationFailed
                       (ms_create_webrtc_transport ms (session_router st) server) of
                  Inl e \<Rightarrow> (Inl e, c)
                | Inr t \<Rightarrow>
                    let data = \<lparr>ct_transport_id = transport_ident t,
                                ct_ice_candidates = transport_ice_candidates t,
                                ct_dtls_parameters = transport_dtls_parameters t,
                                ct_ice_parameters = transport_ice_parameters t\<rparr>;
                        setup = PendingTransport t sid pid;
                        ts = transports_of p
                    in if direction = ''send''
                       then (Inr (data, Some setup),
                             put_participant sid st pid
                               (p\<lparr>transports_of := ts\<lparr>send_transport := Some t\<rparr>\<rparr>) c)
                       else if direction = ''recv''
                       then (Inr (data, Some setup),
                             put_participant sid st pid
                               (p\<lparr>transports_of := ts\<lparr>recv_transport := Some t\<rparr>\<rparr>) c)
                       else (Inl (InvalidTransportDirection direction), c))))"

text \<open>The \<open>match\<close> on the pair of optional transports: the send side first.\<close>

definition pick_transport :: "transports \<Rightarrow> transport_id \<Rightarrow> webrtc_transport option" where
  "pick_transport ts tid =
     (case (send_transport ts, recv_transport ts) of
        (Some s, r) \<Rightarrow>
          if transport_ident s = tid then Some s
          else (case r of
                  Some r' \<Rightarrow> if transport_ident r' = tid then Some r' else None
                | None \<Rightarrow> None)
      | (None, Some r) \<Rightarrow> if transport_ident r = tid then Some r else None
      | (None, None) \<Rightarrow> None)"

definition connect_transport ::
  "mediasoup \<Rightarrow> texts \<Rightarrow> sfu_core \<Rightarrow> uuid \<Rightarrow> string \<Rightarrow> transport_id \<Rightarrow> dtls_parameters \<Rightarrow>
   (session_error + unit) \<times> sfu_core" where
  "connect_transport ms tx c sid pid tid dtls =
     (case find_participant tx c sid pid of
        Inl e \<Rightarrow> (Inl e, c)
      | Inr (st, p) \<Rightarrow>
          (case ok_or (InvalidTransportId (transport_id_text tx tid))
                  (pick_transport (transports_of p) tid) of
             Inl e \<Rightarrow> (Inl e, c)
           | Inr t \<Rightarrow> (map_err TransportConnectFailed (ms_connect ms t dtls), c)))"

definition create_producer ::
  "mediasoup \<Rightarrow> texts \<Rightarrow> sfu_core \<Rightarrow> uuid \<Rightarrow> string \<Rightarrow> transport_id \<Rightarrow> media_kind \<Rightarrow>
   rtp_parameters \<Rightarrow>
   (session_error + producer_id \<times> pending_event_setup option) \<times> sfu_core" where
  "create_producer ms tx c sid pid tid kind params =
     (case find_participant tx c sid pid of
        Inl e \<Rightarrow> (Inl e, c)
      | Inr (st, p) \<Rightarrow>
          (case ok_or (InvalidTransport ''Send transport not created'')
                  (send_transport (transports_of p)) of
             Inl e \<Rightarrow> (Inl e, c)
           | Inr t \<Rightarrow>
               if tid \<noteq> transport_ident t
               then (Inl (InvalidTransport
                       (''Cannot create producer on non-producer transport id: ''
                        @ transport_id_text tx tid)), c)
               else
                 (case map_err ProducerCreationFailed (ms_produce ms t kind params) of
                    Inl e \<Rightarrow> (Inl e, c)
                  | Inr pr \<Rightarrow>
                      (Inr (producer_ident pr, Some (PendingProducer pr sid pid kind)),
                       put_participant sid st pid
                         (p\<lparr>producers := hm_insert (producer_ident pr) pr (producers p)\<rparr>) c))))"

text \<open>\<open>ConsumerOptions::new\<close> leaves \<open>paused\<close> unset; the next line sets it.\<close>

definition consumer_options_new :: "producer_id \<Rightarrow> rtp_capabilities \<Rightarrow> consumer_options" where
  "consumer_options_new prid caps =
     \<lparr>opt_producer_id = prid, opt_rtp_capabilities = caps, opt_paused = False\<rparr>"

definition create_consumer ::
  "mediasoup \<Rightarrow> texts \<Rightarrow> sfu_core \<Rightarrow> uuid \<Rightarrow> string \<Rightarrow> transport_id \<Rightarrow> producer_id \<Rightarrow>
   rtp_capabilities \<Rightarrow>
   (session_error + consumer \<times> pending_event_setup option) \<times> sfu_core" where
  "create_consumer ms tx c sid pid tid prid caps =
     (case find_participant tx c sid pid of
        Inl e \<Rightarrow> (Inl e, c)
      | Inr (st, p) \<Rightarrow>
          (case ok_or (InvalidTransport ''Recv transport not created'')
                  (recv_transport (transports_of p)) of
             Inl e \<Rightarrow> (Inl e, c)
           | Inr t \<Rightarrow>
               if tid \<noteq> transport_ident t
               then (Inl (InvalidTransport
                       (''Cannot create consumer on non-consumer transport: ''
                        @ transport_id_text tx tid)), c)
               else if \<not> ms_can_consume ms (session_router st) prid caps
               then (Inl (RtpCapabilitiesMismatch
                       ''Router cannot consume this producer with provided RTP capabilities''), c)
               else
                 (case map_err ConsumerCreationFailed
                         (ms_consume ms t ((consumer_options_new prid caps)\<lparr>opt_paused := True\<rparr>)) of
                    Inl e \<Rightarrow> (Inl e, c)
                  | Inr co \<Rightarrow>
                      (Inr (co, Some (PendingConsumer co sid pid)),
                       put_participant sid st pid
                         (p\<lparr>consumers := hm_insert (consumer_ident co) co (consumers p)\<rparr>) c))))"

definition resume_consumer ::
  "mediasoup \<Rightarrow> texts \<Rightarrow> sfu_core \<Rightarrow> uuid \<Rightarrow> string \<Rightarrow> consumer_id \<Rightarrow>
   (session_error + unit) \<times> sfu_core" where
  "resume_consumer ms tx c sid pid cid =
     (case find_participant tx c sid pid of
        Inl e \<Rightarrow> (Inl e, c)
      | Inr (st, p) \<Rightarrow>
          (case ok_or (ConsumerNotFound (consumer_id_text tx cid)) (hm_get (consumers p) cid) of
             Inl e \<Rightarrow> (Inl e, c)
           | Inr co \<Rightarrow> (map_err ConsumerResumeFailed (ms_resume ms co), c)))"

definition close_session :: "uuid \<Rightarrow> sfu_core \<Rightarrow> sfu_core" where
  "close_session sid c =
     (case hm_get (sessions c) sid of
        None \<Rightarrow> c
      | Some st \<Rightarrow>
          c\<lparr>sessions := hm_remove sid (sessions c),
            active_sessions_per_router :=
              (case hm_get (active_sessions_per_router c) (router_ident (session_router st)) of
                 Some counter \<Rightarrow>
                   hm_insert (router_ident (session_router st)) (counter - 1)
                     (active_sessions_per_router c)
               | None \<Rightarrow> active_sessions_per_router c),
            event_senders := hm_remove sid (event_senders c)\<rparr>)"

text \<open>
  Both loops run over hash maps: \<open>\<pi>\<close> ranks the participants, \<open>\<rho> pid\<close> the producers of one.
\<close>

definition get_existing_producers_for_session ::
  "texts \<Rightarrow> hash_seed \<Rightarrow> (string \<Rightarrow> hash_seed) \<Rightarrow> sfu_core \<Rightarrow> uuid \<Rightarrow>
   session_error + (producer_id \<times> media_kind \<times> string) list" where
  "get_existing_producers_for_session tx \<pi> \<rho> c sid =
     (case find_session tx c sid of
        Inl e \<Rightarrow> Inl e
      | Inr st \<Rightarrow>
          Inr (concat (map (\<lambda>(pid, p).
                  map (\<lambda>(prid, pr). (prid, producer_kind pr, pid)) (hm_iter (\<rho> pid) (producers p)))
                (hm_iter \<pi> (participants st)))))"

text \<open>
  The loop of \<open>subscribe_to_events\<close>: the events of the other participants' producers are sent one
  after the other, numbered from \<open>i\<close>; an error is logged and the loop goes on, a send that never
  completes stops it. The result says whether the loop ended, and what the channel accepted.
\<close>

fun send_existing ::
  "texts \<Rightarrow> (nat \<Rightarrow> send_outcome) \<Rightarrow> nat \<Rightarrow> string \<Rightarrow>
   (producer_id \<times> media_kind \<times> string) list \<Rightarrow> unit awaited \<times> sfu_event list" where
  "send_existing tx snd_out i pid [] = (Done (), [])"
| "send_existing tx snd_out i pid ((prid, kind, owner) # rest) =
     (if owner \<noteq> pid then
        (case snd_out i of
           SendPending \<Rightarrow> (Blocked, [])
         | SendClosed \<Rightarrow> send_existing tx snd_out (Suc i) pid rest
         | SendOk \<Rightarrow>
             (case send_existing tx snd_out (Suc i) pid rest of
                (r, evs) \<Rightarrow> (r, create_new_producer_event tx prid kind # evs)))
      else send_existing tx snd_out i pid rest)"

definition subscribe_to_events ::
  "texts \<Rightarrow> hash_seed \<Rightarrow> (string \<Rightarrow> hash_seed) \<Rightarrow> (nat \<Rightarrow> send_outcome) \<Rightarrow> sfu_core \<Rightarrow> uuid \<Rightarrow>
   string \<Rightarrow> sender \<Rightarrow>
   (session_error + unit) awaited \<times> sfu_core \<times> sfu_event list" where
  "subscribe_to_events tx \<pi> \<rho> snd_out c sid pid s =
     (if \<not> hm_contains (sessions c) sid
      then (Done (Inl (SessionNotFound (uuid_text tx sid))), c, [])
      else
        let senders = (case hm_get (event_senders c) sid of None \<Rightarrow> [] | Some m \<Rightarrow> m);
            c' = c\<lparr>event_senders := hm_insert sid (hm_insert pid s senders) (event_senders c)\<rparr>;
            confirmed = SubscriptionConfirmed (uuid_text tx sid)
        in (case snd_out 0 of
              SendPending \<Rightarrow> (Blocked, c', [])
            | SendClosed \<Rightarrow> (Done (Inl EventChannelClosed), c', [])
            | SendOk \<Rightarrow>
                (case get_existing_producers_for_session tx \<pi> \<rho> c' sid of
                   Inl _ \<Rightarrow> (Done (Inr ()), c', [confirmed])
                 | Inr existing \<Rightarrow>
                     (case send_existing tx snd_out 1 pid existing of
                        (Blocked, evs) \<Rightarrow> (Blocked, c', confirmed # evs)
                      | (Done _, evs) \<Rightarrow> (Done (Inr ()), c', confirmed # evs)))))"

text \<open>
  The loop of \<open>broadcast_event\<close>: the \<open>try_send\<close> calls it makes and what each returned.
\<close>

fun broadcast_loop ::
  "(string \<Rightarrow> sender \<Rightarrow> sfu_event \<Rightarrow> try_send_result) \<Rightarrow> sfu_event \<Rightarrow> string option \<Rightarrow>
   (string \<times> sender) list \<Rightarrow> (string \<times> sender \<times> try_send_result) list" where
  "broadcast_loop try_out event exclude [] = []"
| "broadcast_loop try_out event exclude ((pid, s) # rest) =
     (if exclude = Some pid then broadcast_loop try_out event exclude rest
      else (pid, s, try_out pid s event) # broadcast_loop try_out event exclude rest)"

definition broadcast_event ::
  "hash_seed \<Rightarrow> (string \<Rightarrow> sender \<Rightarrow> sfu_event \<Rightarrow> try_send_result) \<Rightarrow> sfu_core \<Rightarrow> uuid \<Rightarrow>
   sfu_event \<Rightarrow> string option \<Rightarrow> (string \<times> sender \<times> try_send_result) list" where
  "broadcast_event \<pi> try_out c sid event exclude =
     (case hm_get (event_senders c) sid of
        Some senders \<Rightarrow> broadcast_loop try_out event exclude (hm_iter \<pi> senders)
      | None \<Rightarrow> [])"

fun close_sessions :: "uuid list \<Rightarrow> sfu_core \<Rightarrow> sfu_core" where
  "close_sessions [] c = c"
| "close_sessions (sid # rest) c = close_sessions rest (close_session sid c)"

definition shutdown :: "hash_seed \<Rightarrow> sfu_core \<Rightarrow> sfu_core" where
  "shutdown \<pi> c = close_sessions (map fst (hm_iter \<pi> (sessions c))) c"

section \<open>Look-ups and write-backs\<close>

lemma find_session_Inr [simp]: "find_session tx c sid = Inr st \<longleftrightarrow> hm_get (sessions c) sid = Some st"
  by (simp add: find_session_def)

lemma find_session_Inl [simp]:
  "find_session tx c sid = Inl e \<longleftrightarrow>
   hm_get (sessions c) sid = None \<and> e = SessionNotFound (uuid_text tx sid)"
  by (simp add: find_session_def)

lemma find_participant_Inr [simp]:
  "find_participant tx c sid pid = Inr (st, p) \<longleftrightarrow>
   hm_get (sessions c) sid = Some st \<and> hm_get (participants st) pid = Some p"
  by (auto simp: find_participant_def split: sum.splits)

lemma find_participant_Inl:
  "find_participant tx c sid pid = Inl e \<longleftrightarrow>
   (case hm_get (sessions c) sid of
      None \<Rightarrow> e = SessionNotFound (uuid_text tx sid)
    | Some st \<Rightarrow> hm_get (participants st) pid = None \<and> e = ParticipantNotFound pid)"
  by (auto simp: find_participant_def split: sum.splits option.splits)

lemma find_participant_cases:
  obtains (err) e where "find_participant tx c sid pid = Inl e"
    | (ok) st p where "find_participant tx c sid pid = Inr (st, p)"
        and "hm_get (sessions c) sid = Some st" and "hm_get (participants st) pid = Some p"
  by (metis find_participant_Inr old.prod.exhaust sum.exhaust)

lemma put_session_simps [simp]:
  "sessions (put_session sid st c) = hm_insert sid st (sessions c)"
  "router_pool (put_session sid st c) = router_pool c"
  "active_sessions_per_router (put_session sid st c) = active_sessions_per_router c"
  "max_sessions_per_router (put_session sid st c) = max_sessions_per_router c"
  "event_senders (put_session sid st c) = event_senders c"
  by (simp_all add: put_session_def)

lemma put_participant_simps [simp]:
  "sessions (put_participant sid st pid p c) =
     hm_insert sid (st\<lparr>participants := hm_insert pid p (participants st)\<rparr>) (sessions c)"
  "router_pool (put_participant sid st pid p c) = router_pool c"
  "active_sessions_per_router (put_participant sid st pid p c) = active_sessions_per_router c"
  "max_sessions_per_router (put_participant sid st pid p c) = max_sessions_per_router c"
  "event_senders (put_participant sid st pid p c) = event_senders c"
  by (simp_all add: put_participant_def)

section \<open>What each operation does to the core\<close>

text \<open>
  \<open>changes c sid pid c'\<close>: nothing but the state of participant \<open>pid\<close> of session \<open>sid\<close> differs;
  \<open>Q\<close> says how its old state relates to the new one. Every operation on a participant either
  leaves the core alone or is such a change.
\<close>

definition changes ::
  "sfu_core \<Rightarrow> uuid \<Rightarrow> string \<Rightarrow> (participant_state \<Rightarrow> participant_state \<Rightarrow> bool) \<Rightarrow> sfu_core \<Rightarrow>
   bool" where
  "changes c sid pid Q c' \<longleftrightarrow>
     (\<exists>st p p'. hm_get (sessions c) sid = Some st \<and> hm_get (participants st) pid = Some p \<and>
        Q p p' \<and> c' = put_participant sid st pid p' c)"

lemma join_session_cases:
  "join_session tx c sid pid ptype = (res, c') \<Longrightarrow>
   (\<exists>e. res = Inl e \<and> c' = c) \<or>
   (\<exists>st. res = Inr () \<and> hm_get (sessions c) sid = Some st \<and>
      hm_len (participants st) < max_participants st \<and> \<not> hm_contains (participants st) pid \<and>
      c' = put_participant sid st pid (new_participant ptype) c)"
  by (auto simp: join_session_def not_le split: sum.splits if_splits)

lemma set_rtp_capabilities_cases:
  "set_rtp_capabilities tx c sid pid caps = (res, c') \<Longrightarrow>
   (\<exists>e. res = Inl e \<and> c' = c) \<or>
   (res = Inr () \<and> changes c sid pid (\<lambda>p p'. p' = p\<lparr>rtp_caps := Some caps\<rparr>) c')"
  by (cases rule: find_participant_cases [of tx c sid pid])
    (auto simp: set_rtp_capabilities_def changes_def)

lemma create_transport_cases:
  "create_transport ms tx c sid pid direction = (res, c') \<Longrightarrow>
   (\<exists>e. res = Inl e \<and> c' = c) \<or>
   (\<exists>t data. res = Inr (data, Some (PendingTransport t sid pid)) \<and>
      ct_transport_id data = transport_ident t \<and>
      changes c sid pid
        (\<lambda>p p'. direction = ''send'' \<and>
                 p' = p\<lparr>transports_of := (transports_of p)\<lparr>send_transport := Some t\<rparr>\<rparr> \<or>
                 direction = ''recv'' \<and>
                 p' = p\<lparr>transports_of := (transports_of p)\<lparr>recv_transport := Some t\<rparr>\<rparr>) c')"
  by (cases rule: find_participant_cases [of tx c sid pid])
    (auto simp: create_transport_def changes_def Let_def split: sum.splits if_splits)

lemma connect_transport_core [core_unchanged]: "snd (connect_transport ms tx c sid pid tid dtls) = c"
  by (auto simp: connect_transport_def split: sum.splits)

lemma create_producer_cases:
  "create_producer ms tx c sid pid tid kind params = (res, c') \<Longrightarrow>
   (\<exists>e. res = Inl e \<and> c' = c) \<or>
   (\<exists>pr. res = Inr (producer_ident pr, Some (PendingProducer pr sid pid kind)) \<and>
      changes c sid pid
        (\<lambda>p p'. (\<exists>t. send_transport (transports_of p) = Some t \<and> transport_ident t = tid \<and>
                     ms_produce ms t kind params = Inr pr) \<and>
                 p' = p\<lparr>producers := hm_insert (producer_ident pr) pr (producers p)\<rparr>) c')"
  by (cases rule: find_participant_cases [of tx c sid pid])
    (auto simp: create_producer_def changes_def split: sum.splits if_splits)

lemma create_consumer_cases:
  "create_consumer ms tx c sid pid tid prid caps = (res, c') \<Longrightarrow>
   (\<exists>e. res = Inl e \<and> c' = c) \<or>
   (\<exists>co. res = Inr (co, Some (PendingConsumer co sid pid)) \<and>
      changes c sid pid
        (\<lambda>p p'. p' = p\<lparr>consumers := hm_insert (consumer_ident co) co (consumers p)\<rparr>) c')"
  by (cases rule: find_participant_cases [of tx c sid pid])
    (auto simp: create_consumer_def changes_def split: sum.splits if_splits)

lemma resume_consumer_core [core_unchanged]: "snd (resume_consumer ms tx c sid pid cid) = c"
  by (auto simp: resume_consumer_def split: sum.splits)

text \<open>A failed operation leaves the core as it was.\<close>

lemma join_session_err:
  "fst (join_session tx c s p t) = Inl e \<Longrightarrow> snd (join_session tx c s p t) = c"
  by (cases "join_session tx c s p t") (auto dest: join_session_cases)

lemma set_rtp_capabilities_err:
  "fst (set_rtp_capabilities tx c s p caps) = Inl e \<Longrightarrow> snd (set_rtp_capabilities tx c s p caps) = c"
  by (cases "set_rtp_capabilities tx c s p caps") (auto dest: set_rtp_capabilities_cases)

lemma create_transport_err:
  "fst (create_transport ms tx c s p d) = Inl e \<Longrightarrow> snd (create_transport ms tx c s p d) = c"
  by (cases "create_transport ms tx c s p d") (auto dest: create_transport_cases)

lemma create_producer_err:
  "fst (create_producer ms tx c s p t k ps) = Inl e \<Longrightarrow> snd (create_producer ms tx c s p t k ps) = c"
  by (cases "create_producer ms tx c s p t k ps") (auto dest: create_producer_cases)

lemma create_consumer_err:
  "fst (create_consumer ms tx c s p t i cs) = Inl e \<Longrightarrow> snd (create_consumer ms tx c s p t i cs) = c"
  by (cases "create_consumer ms tx c s p t i cs") (auto dest: create_consumer_cases)

end
