(* ===== verification/Sfu_Examples.thy ===== *)
theory Sfu_Examples
  imports Sfu_Core
begin

text \<open>
  A small concrete run of the core, on which the witnesses of the properties are evaluated: two
  routers with room for two sessions each, one session with the participants \<open>a\<close> and \<open>b\<close>, a send
  and a receive transport, one producer and one consumer.
\<close>

definition ex_router :: "uuid \<Rightarrow> router" where
  "ex_router i = \<lparr>router_ident = RouterId i, router_caps = RtpCapabilitiesFinalized (unat i)\<rparr>"

definition ex_pool :: router_manager where
  "ex_pool = \<lparr>routers = [ex_router 1, ex_router 2],
              router_to_webrtc_server = [(RouterId 1, WebRtcServer 1), (RouterId 2, WebRtcServer 2)],
              next_index = 0\<rparr>"

definition ex_texts :: texts where
  "ex_texts = \<lparr>uuid_text = (\<lambda>u. nat_text (unat u)),
     transport_id_text = (\<lambda>i. case i of TransportId u \<Rightarrow> nat_text (unat u)),
     producer_id_text = (\<lambda>i. case i of ProducerId u \<Rightarrow> nat_text (unat u)),
     consumer_id_text = (\<lambda>i. case i of ConsumerId u \<Rightarrow> nat_text (unat u)),
     transport_id_proto = (\<lambda>i. case i of TransportId u \<Rightarrow> nat_text (unat u)),
     producer_id_proto = (\<lambda>i. case i of ProducerId u \<Rightarrow> nat_text (unat u)),
     consumer_id_proto = (\<lambda>i. case i of ConsumerId u \<Rightarrow> nat_text (unat u)),
     media_kind_proto = (\<lambda>k. case k of Audio \<Rightarrow> 1 | Video \<Rightarrow> 2)\<rparr>"

definition ex_transport :: "uuid \<Rightarrow> webrtc_transport" where
  "ex_transport i = \<lparr>transport_ident = TransportId i, transport_ice_candidates = [IceCandidate 1],
     transport_dtls_parameters = DtlsParameters 1, transport_ice_parameters = IceParameters 1\<rparr>"

definition ex_producer :: "uuid \<Rightarrow> producer" where
  "ex_producer i = \<lparr>producer_ident = ProducerId i, producer_kind = Audio\<rparr>"

definition ex_consumer :: "uuid \<Rightarrow> producer_id \<Rightarrow> consumer" where
  "ex_consumer i prid = \<lparr>consumer_ident = ConsumerId i, consumer_producer = prid,
     consumer_kind = Audio, consumer_rtp_parameters = RtpParameters 1\<rparr>"

text \<open>Library calls that succeed and hand out the identifier \<open>i\<close>.\<close>

definition ex_ms :: "uuid \<Rightarrow> mediasoup" where
  "ex_ms i = \<lparr>ms_create_webrtc_transport = (\<lambda>r s. Inr (ex_transport i)),
     ms_connect = (\<lambda>t d. Inr ()),
     ms_produce = (\<lambda>t k ps. Inr (ex_producer i)),
     ms_can_consume = (\<lambda>r p cs. True),
     ms_consume = (\<lambda>t opts. Inr (ex_consumer i (opt_producer_id opts))),
     ms_resume = (\<lambda>co. Inr ())\<rparr>"

definition ex_core0 :: sfu_core where
  "ex_core0 = sfu_core_new ex_pool 2"

definition ex_core1 :: sfu_core where
  "ex_core1 = snd (register_session 7 ex_core0 ''a'' User)"

definition ex_core2 :: sfu_core where
  "ex_core2 = snd (join_session ex_texts ex_core1 7 ''b'' User)"

definition ex_core3 :: sfu_core where
  "ex_core3 = snd (create_transport (ex_ms 1) ex_texts ex_core2 7 ''a'' ''send'')"

definition ex_core4 :: sfu_core where
  "ex_core4 = snd (create_transport (ex_ms 2) ex_texts ex_core3 7 ''b'' ''recv'')"

definition ex_core5 :: sfu_core where
  "ex_core5 = snd (create_producer (ex_ms 3) ex_texts ex_core4 7 ''a'' (TransportId 1) Audio
                     (RtpParameters 1))"

definition ex_core6 :: sfu_core where
  "ex_core6 = fst (snd (subscribe_to_events ex_texts (\<lambda>i. i) (\<lambda>_ i. i) (\<lambda>_. SendOk) ex_core5 7
                          ''b'' (Sender 1)))"

definition ex_participant :: "participant_state" where
  "ex_participant = new_participant User"

lemmas ex_values = ex_router_def ex_pool_def ex_texts_def ex_transport_def ex_producer_def
  ex_consumer_def ex_ms_def ex_participant_def

lemma ex_pool_ok: "pool_ok ex_pool"
  by (simp add: pool_ok_def get_webrtc_server_def hm_ok_def ex_values)

lemma ex_core0_eq:
  "ex_core0 = \<lparr>router_pool = ex_pool, sessions = [],
     active_sessions_per_router = [(RouterId 1, 0), (RouterId 2, 0)],
     max_sessions_per_router = 2, event_senders = []\<rparr>"
  by (simp add: ex_core0_def sfu_core_new_def ex_values hm_insert_def)

lemma ex_core1_eq:
  "ex_core1 = ex_core0\<lparr>router_pool := ex_pool\<lparr>next_index := 1\<rparr>,
     sessions := [(7, \<lparr>session_router = ex_router 1, participants = [(''a'', ex_participant)],
                       max_participants = 2\<rparr>)],
     active_sessions_per_router := [(RouterId 1, 1), (RouterId 2, 0)]\<rparr>"
  by (simp add: ex_core1_def ex_core0_eq register_session_def get_available_router_def
      get_next_router_def numeral_2_eq_2 hm_insert_def ex_values)

lemma ex_core2_eq:
  "ex_core2 = ex_core1\<lparr>sessions :=
     [(7, \<lparr>session_router = ex_router 1,
           participants = [(''a'', ex_participant), (''b'', ex_participant)],
           max_participants = 2\<rparr>)]\<rparr>"
  by (simp add: ex_core2_def ex_core1_eq join_session_def find_session_def hm_len_def
      hm_contains_def put_participant_def put_session_def hm_insert_def ex_participant_def)

definition ex_sender_side :: participant_state where
  "ex_sender_side = ex_participant\<lparr>transports_of :=
     \<lparr>send_transport = Some (ex_transport 1), recv_transport = None\<rparr>\<rparr>"

definition ex_receiver_side :: participant_state where
  "ex_receiver_side = ex_participant\<lparr>transports_of :=
     \<lparr>send_transport = None, recv_transport = Some (ex_transport 2)\<rparr>\<rparr>"

definition ex_session :: "participant_state \<Rightarrow> participant_state \<Rightarrow> session_state" where
  "ex_session p q = \<lparr>session_router = ex_router 1, participants = [(''a'', p), (''b'', q)],
                     max_participants = 2\<rparr>"

lemmas ex_op_defs = find_participant_def find_session_def put_participant_def put_session_def
  hm_insert_def get_webrtc_server_def new_participant_def transports_new_def

lemma ex_core3_eq:
  "ex_core3 = ex_core1\<lparr>sessions := [(7, ex_session ex_sender_side ex_participant)]\<rparr>"
  by (simp add: ex_core3_def ex_core2_eq ex_core1_eq ex_core0_eq create_transport_def ex_op_defs
      ex_session_def ex_sender_side_def ex_values)

lemma ex_core4_eq:
  "ex_core4 = ex_core1\<lparr>sessions := [(7, ex_session ex_sender_side ex_receiver_side)]\<rparr>"
  by (simp add: ex_core4_def ex_core3_eq ex_core1_eq ex_core0_eq create_transport_def ex_op_defs
      ex_session_def ex_receiver_side_def ex_values)

lemma ex_core5_eq:
  "ex_core5 = ex_core1\<lparr>sessions :=
     [(7, ex_session (ex_sender_side\<lparr>producers := [(ProducerId 3, ex_producer 3)]\<rparr>)
            ex_receiver_side)]\<rparr>"
  by (simp add: ex_core5_def ex_core4_eq create_producer_def ex_op_defs
      ex_session_def ex_sender_side_def ex_values)

lemma ex_core6_eq:
  "ex_core6 = ex_core5\<lparr>event_senders := [(7, [(''b'', Sender 1)])]\<rparr>"
proof -
  have "event_senders ex_core5 = []" and "hm_contains (sessions ex_core5) 7"
    by (simp_all add: ex_core5_eq ex_core1_eq ex_core0_eq hm_contains_def)
  then show ?thesis
    by (simp add: ex_core6_def subscribe_to_events_def hm_insert_def Let_def
        split: sum.split prod.split awaited.split)
qed

text \<open>What the operations of the example answer.\<close>

lemma ex_create_transport_send:
  "create_transport (ex_ms 1) ex_texts ex_core2 7 ''a'' ''send'' =
   (Inr (\<lparr>ct_transport_id = TransportId 1, ct_ice_candidates = [IceCandidate 1],
          ct_dtls_parameters = DtlsParameters 1, ct_ice_parameters = IceParameters 1\<rparr>,
         Some (PendingTransport (ex_transport 1) 7 ''a'')), ex_core3)"
  unfolding ex_core3_eq
  by (simp add: ex_core2_eq ex_core1_eq ex_core0_eq create_transport_def ex_op_defs ex_session_def
      ex_sender_side_def ex_values)

lemma ex_create_transport_recv:
  "create_transport (ex_ms 2) ex_texts ex_core3 7 ''b'' ''recv'' =
   (Inr (\<lparr>ct_transport_id = TransportId 2, ct_ice_candidates = [IceCandidate 1],
          ct_dtls_parameters = DtlsParameters 1, ct_ice_parameters = IceParameters 1\<rparr>,
         Some (PendingTransport (ex_transport 2) 7 ''b'')), ex_core4)"
  unfolding ex_core4_eq
  by (simp add: ex_core3_eq ex_core1_eq ex_core0_eq create_transport_def ex_op_defs ex_session_def
      ex_receiver_side_def ex_values)

lemma ex_create_producer:
  "create_producer (ex_ms 3) ex_texts ex_core4 7 ''a'' (TransportId 1) Audio (RtpParameters 1) =
   (Inr (ProducerId 3, Some (PendingProducer (ex_producer 3) 7 ''a'' Audio)), ex_core5)"
  unfolding ex_core5_eq
  by (simp add: ex_core4_eq create_producer_def ex_op_defs ex_session_def ex_sender_side_def
      ex_values)

lemma ex_producer_ident: "producer_ident (ex_producer 3) = ProducerId 3"
  by (simp add: ex_producer_def)

lemmas ex_answers_of = ex_create_transport_send ex_create_transport_recv ex_create_producer
  ex_producer_ident

end
