(* ===== verification/Sfu_Invariant.thy ===== *)
theory Sfu_Invariant
  imports Sfu_Examples
begin

text \<open>
  The invariant of the session core and that every operation keeps it: session and capacity
  accounting (the counter of a router is the number of its sessions and within the limit), the
  shape of a session (at most two participants, at least one), and the subscribers (only of live
  sessions). The steps of the core are an inductive relation, so the invariant holds in every
  state reachable from a freshly created core.
\<close>

section \<open>The invariant\<close>

definition sessions_on :: "sfu_core \<Rightarrow> router_id \<Rightarrow> nat" where
  "sessions_on c rid = hm_count (\<lambda>st. router_ident (session_router st) = rid) (sessions c)"

definition participant_ok :: "participant_state \<Rightarrow> bool" where
  "participant_ok p \<longleftrightarrow>
     hm_ok (producers p) \<and> hm_ok (consumers p) \<and>
     (\<forall>prid pr. hm_get (producers p) prid = Some pr \<longrightarrow> producer_ident pr = prid) \<and>
     (\<forall>cid co. hm_get (consumers p) cid = Some co \<longrightarrow> consumer_ident co = cid)"

definition session_ok :: "session_state \<Rightarrow> bool" where
  "session_ok st \<longleftrightarrow>
     hm_ok (participants st) \<and> max_participants st = 2 \<and>
     0 < hm_len (participants st) \<and> hm_len (participants st) \<le> max_participants st \<and>
     (\<forall>pid p. hm_get (participants st) pid = Some p \<longrightarrow> participant_ok p)"

definition counters_ok :: "sfu_core \<Rightarrow> bool" where
  "counters_ok c \<longleftrightarrow>
     hm_ok (active_sessions_per_router c) \<and>
     hm_keys (active_sessions_per_router c) = router_ident ` set (routers (router_pool c)) \<and>
     (\<forall>rid n. hm_get (active_sessions_per_router c) rid = Some n \<longrightarrow>
        unat n = sessions_on c rid \<and> n \<le> max_sessions_per_router c)"

definition sessions_ok :: "sfu_core \<Rightarrow> bool" where
  "sessions_ok c \<longleftrightarrow>
     hm_ok (sessions c) \<and>
     (\<forall>sid st. hm_get (sessions c) sid = Some st \<longrightarrow>
        session_ok st \<and> session_router st \<in> set (routers (router_pool c)))"

definition senders_ok :: "sfu_core \<Rightarrow> bool" where
  "senders_ok c \<longleftrightarrow>
     hm_ok (event_senders c) \<and>
     (\<forall>sid m. hm_get (event_senders c) sid = Some m \<longrightarrow>
        hm_contains (sessions c) sid \<and> hm_ok m)"

definition core_inv :: "sfu_core \<Rightarrow> bool" where
  "core_inv c \<longleftrightarrow>
     pool_ok (router_pool c) \<and> counters_ok c \<and> sessions_ok c \<and> senders_ok c"

section \<open>The steps\<close>

text \<open>
  One rule per operation, whatever the arguments and whatever the libraries answer, and one for a
  registration that is dropped midway. A session id from \<open>Uuid::new_v4\<close> is assumed not to be in
  use.
\<close>

inductive core_step :: "sfu_core \<Rightarrow> sfu_core \<Rightarrow> bool" where
  register: "hm_get (sessions c) new_id = None \<Longrightarrow>
    core_step c (snd (register_session new_id c pid ptype))"
| join: "core_step c (snd (join_session tx c sid pid ptype))"
| set_capabilities: "core_step c (snd (set_rtp_capabilities tx c sid pid caps))"
| new_transport: "core_step c (snd (create_transport ms tx c sid pid direction))"
| connect: "core_step c (snd (connect_transport ms tx c sid pid tid dtls))"
| new_producer: "core_step c (snd (create_producer ms tx c sid pid tid kind params))"
| new_consumer: "core_step c (snd (create_consumer ms tx c sid pid tid prid caps))"
| resume: "core_step c (snd (resume_consumer ms tx c sid pid cid))"
| close: "core_step c (close_session sid c)"
| subscribe: "core_step c (fst (snd (subscribe_to_events tx \<pi> \<rho> snd_out c sid pid s)))"
| stop: "core_step c (shutdown \<pi> c)"
| stop_search: "core_step c (abandon_register j c)"

definition core_start :: "sfu_core \<Rightarrow> bool" where
  "core_start c \<longleftrightarrow> (\<exists>rm max_sessions. pool_ok rm \<and> c = sfu_core_new rm max_sessions)"

definition reachable_core :: "sfu_core \<Rightarrow> bool" where
  "reachable_core c \<longleftrightarrow> (\<exists>c0. core_start c0 \<and> core_step\<^sup>*\<^sup>* c0 c)"

section \<open>A new core\<close>

lemma init_counters_get:
  "hm_get (init_counters rs m) rid =
   (if rid \<in> router_ident ` set rs then Some 0 else hm_get m rid)"
  by (induction rs arbitrary: m) auto

lemma init_counters_ok: "hm_ok m \<Longrightarrow> hm_ok (init_counters rs m)"
  by (induction rs arbitrary: m) auto

lemma core_inv_new: "pool_ok rm \<Longrightarrow> core_inv (sfu_core_new rm max_sessions)"
  unfolding core_inv_def counters_ok_def sessions_ok_def senders_ok_def sfu_core_new_def
  by (auto simp: init_counters_get init_counters_ok hm_keys_get sessions_on_def hm_count_def
      split: if_splits)

section \<open>Changes to one participant\<close>

lemma participant_ok_new [simp]: "participant_ok (new_participant ptype)"
  by (simp add: participant_ok_def new_participant_def)

lemma session_ok_put:
  assumes "session_ok st" and "participant_ok p"
    and "hm_contains (participants st) pid \<or> hm_len (participants st) < max_participants st"
  shows "session_ok (st\<lparr>participants := hm_insert pid p (participants st)\<rparr>)"
  using assms by (auto simp: session_ok_def hm_len_insert)

lemma sessions_on_put:
  assumes "hm_ok (sessions c)" and "hm_get (sessions c) sid = Some st"
  shows "sessions_on (put_participant sid st pid p c) rid = sessions_on c rid"
  using assms by (simp add: sessions_on_def hm_count_insert_same)

lemma core_inv_put_participant:
  assumes inv: "core_inv c" and st: "hm_get (sessions c) sid = Some st"
    and p: "participant_ok p"
    and room: "hm_contains (participants st) pid \<or> hm_len (participants st) < max_participants st"
  shows "core_inv (put_participant sid st pid p c)"
proof -
  from inv have "hm_ok (sessions c)" by (simp add: core_inv_def sessions_ok_def)
  with inv st have "counters_ok (put_participant sid st pid p c)"
    by (simp add: core_inv_def counters_ok_def sessions_on_put)
  moreover have "sessions_ok (put_participant sid st pid p c)"
    using inv st session_ok_put [OF _ p room] by (auto simp: core_inv_def sessions_ok_def)
  moreover have "senders_ok (put_participant sid st pid p c)"
    using inv by (auto simp: core_inv_def senders_ok_def)
  ultimately show ?thesis using inv by (simp add: core_inv_def)
qed

lemma core_inv_participant:
  assumes "core_inv c" and "hm_get (sessions c) sid = Some st"
    and "hm_get (participants st) pid = Some p"
  shows "participant_ok p"
  using assms by (auto simp: core_inv_def sessions_ok_def session_ok_def)

lemma core_inv_changes:
  assumes inv: "core_inv c" and ch: "changes c sid pid Q c'"
    and Q: "\<And>p p'. participant_ok p \<Longrightarrow> Q p p' \<Longrightarrow> participant_ok p'"
  shows "core_inv c'"
proof -
  from ch obtain st p p' where st: "hm_get (sessions c) sid = Some st"
    and p: "hm_get (participants st) pid = Some p" and q: "Q p p'"
    and c': "c' = put_participant sid st pid p' c"
    unfolding changes_def by blast
  have "participant_ok p'" using Q core_inv_participant [OF inv st p] q by blast
  moreover have "hm_contains (participants st) pid" using p by (simp add: hm_contains_def)
  ultimately show ?thesis unfolding c' using inv st by (blast intro: core_inv_put_participant)
qed

section \<open>Every operation keeps the invariant\<close>

lemma core_inv_join:
  assumes "core_inv c"
  shows "core_inv (snd (join_session tx c sid pid ptype))"
proof -
  obtain res c' where j: "join_session tx c sid pid ptype = (res, c')" by fastforce
  from join_session_cases [OF j] assms show ?thesis
    unfolding j by (auto intro!: core_inv_put_participant)
qed

lemma core_inv_set_capabilities:
  assumes "core_inv c"
  shows "core_inv (snd (set_rtp_capabilities tx c sid pid caps))"
proof -
  obtain res c' where j: "set_rtp_capabilities tx c sid pid caps = (res, c')" by fastforce
  from set_rtp_capabilities_cases [OF j] assms show ?thesis
    unfolding j by (auto elim!: core_inv_changes [rotated] simp: participant_ok_def)
qed

lemma core_inv_transport:
  assumes "core_inv c"
  shows "core_inv (snd (create_transport ms tx c sid pid direction))"
proof -
  obtain res c' where j: "create_transport ms tx c sid pid direction = (res, c')" by fastforce
  from create_transport_cases [OF j] assms show ?thesis
    unfolding j by (auto elim!: core_inv_changes [rotated] simp: participant_ok_def)
qed

lemma core_inv_producer:
  assumes "core_inv c"
  shows "core_inv (snd (create_producer ms tx c sid pid tid kind params))"
proof -
  obtain res c' where j: "create_producer ms tx c sid pid tid kind params = (res, c')" by fastforce
  from create_producer_cases [OF j] assms show ?thesis
    unfolding j by (auto elim!: core_inv_changes [rotated] simp: participant_ok_def)
qed

lemma core_inv_consumer:
  assumes "core_inv c"
  shows "core_inv (snd (create_consumer ms tx c sid pid tid prid caps))"
proof -
  obtain res c' where j: "create_consumer ms tx c sid pid tid prid caps = (res, c')" by fastforce
  from create_consumer_cases [OF j] assms show ?thesis
    unfolding j by (auto elim!: core_inv_changes [rotated] simp: participant_ok_def)
qed

text \<open>Registration: one more session on the chosen router, whose counter had room.\<close>

lemma register_session_cases:
  assumes pool: "pool_ok (router_pool c)"
    and reg: "register_session new_id c pid ptype = (res, c')"
  obtains (full) rm where "res = Returned (Inl AllRoutersFull)"
      and "\<forall>r \<in> set (routers (router_pool c)).
             \<not> has_room (active_sessions_per_router c) (max_sessions_per_router c) r"
      and "c' = c\<lparr>router_pool := rm\<rparr>" and "pool_ok rm"
      and "routers rm = routers (router_pool c)"
    | (ok) r n rm where "res = Returned (Inr \<lparr>reg_session_id = new_id, reg_participant_id = pid\<rparr>)"
      and "r \<in> set (routers (router_pool c))"
      and "hm_get (active_sessions_per_router c) (router_ident r) = Some n"
      and "n < max_sessions_per_router c" and "n + 1 \<le> max_sessions_per_router c"
      and "unat (n + 1) = Suc (unat n)"
      and "c' = c\<lparr>router_pool := rm,
               active_sessions_per_router :=
                 hm_insert (router_ident r) (n + 1) (active_sessions_per_router c),
               sessions := hm_insert new_id
                 \<lparr>session_router = r,
                  participants = hm_insert pid (new_participant ptype) [],
                  max_participants = 2\<rparr> (sessions c)\<rparr>"
      and "pool_ok rm" and "routers rm = routers (router_pool c)"
proof -
  let ?counts = "active_sessions_per_router c" and ?mx = "max_sessions_per_router c"
  obtain found rm where pick: "get_available_router (router_pool c) ?counts ?mx = (found, rm)"
    by fastforce
  from rs.pick_ok [OF pool, of ?counts ?mx] rs.pick_pool [OF pool, of ?counts ?mx] pick
  have rm: "pool_ok rm" "routers rm = routers (router_pool c)" by simp_all
  from pool show thesis
  proof (cases rule: rs.pick_cases [where counts = ?counts and mx = ?mx])
    case none
    with rs.pick_None [OF pool, of ?counts ?mx] pick reg rm show thesis
      by (intro full [of rm]) (auto simp: register_session_def)
  next
    case (some r)
    then obtain n where n: "hm_get ?counts (router_ident r) = Some n" "n < ?mx" "n + 1 \<le> ?mx"
        "unat (n + 1) = Suc (unat n)"
      using rs.pick_counter [OF pool] by blast
    from rs.pick_Some [OF pool some] have "r \<in> set (routers (router_pool c))" by simp
    with n some pick reg rm show thesis
      by (intro ok [of r n rm]) (auto simp: register_session_def)
  qed
qed

lemma core_inv_register:
  assumes inv: "core_inv c" and fresh: "hm_get (sessions c) new_id = None"
  shows "core_inv (snd (register_session new_id c pid ptype))"
proof -
  obtain res c' where reg: "register_session new_id c pid ptype = (res, c')" by fastforce
  from inv have pool: "pool_ok (router_pool c)" by (simp add: core_inv_def)
  from pool reg have "core_inv c'"
  proof (cases rule: register_session_cases)
    case (full rm)
    with inv show ?thesis
      by (simp add: core_inv_def counters_ok_def sessions_ok_def senders_ok_def sessions_on_def)
  next
    case (ok r n rm)
    let ?st = "\<lparr>session_router = r, participants = hm_insert pid (new_participant ptype) [],
                max_participants = 2\<rparr>"
    have fields: "sessions c' = hm_insert new_id ?st (sessions c)"
      "event_senders c' = event_senders c"
      "active_sessions_per_router c' =
         hm_insert (router_ident r) (n + 1) (active_sessions_per_router c)"
      "max_sessions_per_router c' = max_sessions_per_router c" "router_pool c' = rm"
      by (simp_all add: ok(7))
    from inv have ses: "hm_ok (sessions c)" by (simp add: core_inv_def sessions_ok_def)
    have count: "sessions_on c' rid = sessions_on c rid + (if router_ident r = rid then 1 else 0)"
      for rid
      by (simp add: sessions_on_def fields hm_count_insert_new [OF ses fresh])
    have "session_ok ?st"
      by (auto simp: session_ok_def hm_len_insert hm_contains_def)
    then have "sessions_ok c'"
      using inv ok(2,9) by (auto simp: core_inv_def sessions_ok_def fields)
    moreover have "counters_ok c'"
      using inv ok(2,3,5,6,9) by (auto simp: core_inv_def counters_ok_def fields count)
    moreover have "senders_ok c'"
      using inv by (auto simp: core_inv_def senders_ok_def fields)
    ultimately show ?thesis using ok(8) by (simp add: core_inv_def fields)
  qed
  with reg show ?thesis by simp
qed

text \<open>A registration that is dropped midway has moved the index at most.\<close>

lemma abandon_register_eq:
  assumes "pool_ok (router_pool c)"
  obtains rm where "abandon_register j c = c\<lparr>router_pool := rm\<rparr>" and "pool_ok rm"
    and "routers rm = routers (router_pool c)"
proof -
  let ?counts = "active_sessions_per_router c" and ?mx = "max_sessions_per_router c"
  obtain res rm where tried: "try_routers j (router_pool c) ?counts ?mx = (res, rm)" by fastforce
  with try_routers_pool [OF assms, of j ?counts ?mx]
  have rm: "pool_ok rm" "routers rm = routers (router_pool c)" by simp_all
  show thesis
  proof (cases "res = Returned None")
    case True
    with rm tried show thesis by (intro that [of rm]) (simp_all add: abandon_register_def)
  next
    case False
    with assms tried show thesis
      by (intro that [of "router_pool c"]) (auto simp: abandon_register_def split: panics.split option.split)
  qed
qed

lemma core_inv_abandon_register:
  assumes "core_inv c"
  shows "core_inv (abandon_register j c)"
proof -
  have "pool_ok (router_pool c)" using assms by (simp add: core_inv_def)
  then obtain rm where "abandon_register j c = c\<lparr>router_pool := rm\<rparr>" "pool_ok rm"
    "routers rm = routers (router_pool c)" by (rule abandon_register_eq)
  with assms show ?thesis
    by (simp add: core_inv_def counters_ok_def sessions_ok_def senders_ok_def sessions_on_def)
qed

lemma abandon_register_fields [simp]:
  "sessions (abandon_register j c) = sessions c"
  "event_senders (abandon_register j c) = event_senders c"
  "active_sessions_per_router (abandon_register j c) = active_sessions_per_router c"
  "max_sessions_per_router (abandon_register j c) = max_sessions_per_router c"
  by (auto simp: abandon_register_def split: prod.split panics.split option.split)

text \<open>Closing: one session fewer on its router; the counter cannot underflow.\<close>

lemma core_inv_close:
  assumes inv: "core_inv c"
  shows "core_inv (close_session sid c)"
proof (cases "hm_get (sessions c) sid")
  case None
  with inv show ?thesis by (simp add: close_session_def)
next
  case (Some st)
  let ?rid = "router_ident (session_router st)"
  from inv have ses: "hm_ok (sessions c)" and "session_router st \<in> set (routers (router_pool c))"
    using Some by (auto simp: core_inv_def sessions_ok_def)
  then have key: "?rid \<in> hm_keys (active_sessions_per_router c)"
    using inv by (simp add: core_inv_def counters_ok_def)
  then obtain n where n: "hm_get (active_sessions_per_router c) ?rid = Some n"
    by (auto simp: hm_keys_get)
  have on: "sessions_on c rid = sessions_on (close_session sid c) rid + (if ?rid = rid then 1 else 0)"
    for rid
    using hm_count_remove [OF ses Some] Some by (simp add: sessions_on_def close_session_def)
  have "unat n = sessions_on c ?rid" and le: "n \<le> max_sessions_per_router c"
    using inv n by (auto simp: core_inv_def counters_ok_def)
  with on [of ?rid] have pred: "unat (n - 1) = sessions_on (close_session sid c) ?rid"
    and pos: "0 < unat n"
    by (simp_all add: unat_pred_pos)
  have "n - 1 \<le> max_sessions_per_router c"
    using le pos by (simp add: word_le_nat_alt unat_pred_pos)
  with key pred inv n Some on have "counters_ok (close_session sid c)"
    by (auto simp: core_inv_def counters_ok_def close_session_def)
  moreover have "sessions_ok (close_session sid c)"
    using inv Some by (auto simp: core_inv_def sessions_ok_def close_session_def)
  moreover have "senders_ok (close_session sid c)"
    using inv Some by (auto simp: core_inv_def senders_ok_def close_session_def hm_contains_def)
  ultimately show ?thesis using inv Some by (simp add: core_inv_def close_session_def)
qed

lemma core_inv_close_sessions: "core_inv c \<Longrightarrow> core_inv (close_sessions sids c)"
  by (induction sids arbitrary: c) (simp_all add: core_inv_close)

text \<open>Subscribing only touches the senders of a live session, however the sends go.\<close>

definition senders_of :: "sfu_core \<Rightarrow> uuid \<Rightarrow> (string, sender) hmap" where
  "senders_of c sid = (case hm_get (event_senders c) sid of None \<Rightarrow> [] | Some m \<Rightarrow> m)"

definition subscribed :: "sfu_core \<Rightarrow> uuid \<Rightarrow> string \<Rightarrow> sender \<Rightarrow> sfu_core" where
  "subscribed c sid pid s =
     c\<lparr>event_senders := hm_insert sid (hm_insert pid s (senders_of c sid)) (event_senders c)\<rparr>"

lemma subscribe_to_events_core:
  "fst (snd (subscribe_to_events tx \<pi> \<rho> snd_out c sid pid s)) =
   (if hm_contains (sessions c) sid then subscribed c sid pid s else c)"
  by (simp add: subscribe_to_events_def subscribed_def senders_of_def Let_def
      split: send_outcome.split sum.split prod.split awaited.split)

lemma core_inv_subscribe:
  assumes "core_inv c"
  shows "core_inv (fst (snd (subscribe_to_events tx \<pi> \<rho> snd_out c sid pid s)))"
proof (cases "hm_contains (sessions c) sid")
  case True
  have "hm_ok (senders_of c sid)"
    using assms by (auto simp: core_inv_def senders_ok_def senders_of_def split: option.split)
  with assms True have "senders_ok (subscribed c sid pid s)"
    by (simp add: core_inv_def senders_ok_def subscribed_def)
  with assms True show ?thesis
    by (simp add: subscribe_to_events_core core_inv_def counters_ok_def sessions_ok_def
        sessions_on_def subscribed_def)
next
  case False
  with assms show ?thesis by (simp add: subscribe_to_events_core)
qed

lemma core_step_inv: "core_step c c' \<Longrightarrow> core_inv c \<Longrightarrow> core_inv c'"
  by (induction rule: core_step.induct)
    (simp_all add: core_inv_register core_inv_join core_inv_set_capabilities core_inv_transport
      connect_transport_core core_inv_producer core_inv_consumer resume_consumer_core
      core_inv_close core_inv_subscribe core_inv_close_sessions core_inv_abandon_register shutdown_def)

interpretation core: invariant_system core_start core_step core_inv
  by unfold_locales (auto simp: core_start_def intro: core_inv_new core_step_inv)

lemma reachable_core_inv: "reachable_core c \<Longrightarrow> core_inv c"
  unfolding reachable_core_def by (blast intro: core.reachable_inv)

section \<open>What the invariant gives\<close>

lemma core_inv_capacity:
  assumes "core_inv c" and "hm_get (active_sessions_per_router c) rid = Some n"
  shows "unat n = sessions_on c rid" and "sessions_on c rid \<le> unat (max_sessions_per_router c)"
proof -
  from assms show eq: "unat n = sessions_on c rid"
    by (simp add: core_inv_def counters_ok_def)
  from assms have "n \<le> max_sessions_per_router c"
    by (simp add: core_inv_def counters_ok_def)
  then show "sessions_on c rid \<le> unat (max_sessions_per_router c)"
    by (simp add: word_le_nat_alt flip: eq)
qed

lemma core_inv_counter:
  assumes "core_inv c" and "hm_get (sessions c) sid = Some st"
  obtains n where
    "hm_get (active_sessions_per_router c) (router_ident (session_router st)) = Some n"
  using assms unfolding core_inv_def counters_ok_def sessions_ok_def
  by (metis hm_keys_get image_eqI)

lemma core_inv_webrtc_server:
  assumes "core_inv c" and "hm_get (sessions c) sid = Some st"
  shows "get_webrtc_server (router_pool c) (router_ident (session_router st)) \<noteq> None"
  using assms by (auto simp: core_inv_def sessions_ok_def pool_ok_def)

lemma core_inv_senders_live:
  assumes "core_inv c" and "hm_get (event_senders c) sid = Some m"
  shows "hm_contains (sessions c) sid" and "hm_ok m"
  using assms by (simp_all add: core_inv_def senders_ok_def)

lemma core_inv_no_senders:
  "core_inv c \<Longrightarrow> hm_get (sessions c) sid = None \<Longrightarrow> hm_get (event_senders c) sid = None"
  by (cases "hm_get (event_senders c) sid") (auto dest: core_inv_senders_live simp: hm_contains_def)

lemma core_inv_senders_of: "core_inv c \<Longrightarrow> hm_ok (senders_of c sid)"
  by (auto simp: senders_of_def dest: core_inv_senders_live split: option.split)

text \<open>Closing a list of sessions leaves those that are not on it.\<close>

lemma close_session_sessions:
  "hm_get (sessions (close_session sid c)) sid' = (if sid' = sid then None else hm_get (sessions c) sid')"
  by (auto simp: close_session_def split: option.split)

lemma close_sessions_sessions:
  "hm_get (sessions (close_sessions sids c)) sid =
   (if sid \<in> set sids then None else hm_get (sessions c) sid)"
  by (induction sids arbitrary: c) (auto simp: close_session_sessions)

lemma shutdown_sessions: "sessions (shutdown \<pi> c) = []"
proof (rule hm_all_None)
  fix sid
  have "sid \<in> fst ` set (sessions c) \<or> hm_get (sessions c) sid = None"
    by (metis hm_keys_def hm_keys_get option.exhaust)
  then show "hm_get (sessions (shutdown \<pi> c)) sid = None"
    by (auto simp: shutdown_def close_sessions_sessions)
qed

section \<open>The example run is reachable\<close>

lemma ex_core0_start: "core_start ex_core0"
  unfolding core_start_def ex_core0_def using ex_pool_ok by blast

lemma ex_reachable:
  "reachable_core ex_core0" "reachable_core ex_core1" "reachable_core ex_core2"
  "reachable_core ex_core3" "reachable_core ex_core4" "reachable_core ex_core5"
  "reachable_core ex_core6"
proof -
  have step: "reachable_core c \<Longrightarrow> core_step c c' \<Longrightarrow> reachable_core c'" for c c'
    unfolding reachable_core_def by (meson rtranclp.rtrancl_into_rtrancl)
  show 0: "reachable_core ex_core0"
    unfolding reachable_core_def using ex_core0_start by blast
  have "hm_get (sessions ex_core0) 7 = None" by (simp add: ex_core0_eq)
  from step [OF 0 core_step.register [OF this]] show 1: "reachable_core ex_core1"
    unfolding ex_core1_def .
  from step [OF 1 core_step.join] show 2: "reachable_core ex_core2" unfolding ex_core2_def .
  from step [OF 2 core_step.new_transport] show 3: "reachable_core ex_core3" unfolding ex_core3_def .
  from step [OF 3 core_step.new_transport] show 4: "reachable_core ex_core4" unfolding ex_core4_def .
  from step [OF 4 core_step.new_producer] show 5: "reachable_core ex_core5" unfolding ex_core5_def .
  from step [OF 5 core_step.subscribe] show 6: "reachable_core ex_core6" unfolding ex_core6_def .
qed

section \<open>Properties\<close>

text \<open>C1. In every state reachable from a fresh core, by any sequence of operations and any answers
  of the libraries, the counter of a router is exactly the number of live sessions on it (no
  wrap-around, no leak) and never exceeds the configured maximum.\<close>

theorem capacity_accounting:
  assumes "reachable_core c" and "hm_get (active_sessions_per_router c) rid = Some n"
  shows "unat n = sessions_on c rid \<and> sessions_on c rid \<le> unat (max_sessions_per_router c)"
  using core_inv_capacity [OF reachable_core_inv [OF assms(1)] assms(2)] by blast

theorem capacity_accounting_witness:
  "unat (1 :: usize) = sessions_on ex_core1 (RouterId 1) \<and>
   sessions_on ex_core1 (RouterId 1) \<le> unat (max_sessions_per_router ex_core1)"
  by (rule capacity_accounting [OF ex_reachable(2)]) (simp add: ex_core1_eq)

text \<open>C10. Registering a session in a reachable state never panics and never reports a missing
  counter. It succeeds exactly when some router of the pool has room, and then the new session is
  on a pool router that had room and holds exactly the registering participant; otherwise it
  reports that all routers are full and changes neither sessions nor counters.\<close>

theorem register_session_outcome:
  assumes "reachable_core c" and "hm_get (sessions c) new_id = None"
    and reg: "register_session new_id c pid ptype = (res, c')"
  shows "if \<exists>r \<in> set (routers (router_pool c)).
              has_room (active_sessions_per_router c) (max_sessions_per_router c) r
         then res = Returned (Inr \<lparr>reg_session_id = new_id, reg_participant_id = pid\<rparr>) \<and>
              (\<exists>st. hm_get (sessions c') new_id = Some st \<and>
                 session_router st \<in> set (routers (router_pool c)) \<and>
                 has_room (active_sessions_per_router c) (max_sessions_per_router c)
                   (session_router st) \<and>
                 participants st = [(pid, new_participant ptype)] \<and> max_participants st = 2)
         else res = Returned (Inl AllRoutersFull) \<and> sessions c' = sessions c \<and>
              active_sessions_per_router c' = active_sessions_per_router c"
proof -
  have pool: "pool_ok (router_pool c)"
    using reachable_core_inv [OF assms(1)] by (simp add: core_inv_def)
  from pool reg show ?thesis
  proof (cases rule: register_session_cases)
    case (full rm)
    then show ?thesis by auto
  next
    case (ok r n rm)
    have "has_room (active_sessions_per_router c) (max_sessions_per_router c) r"
      using ok(3,4) by (simp add: has_room_iff)
    with ok(1,2,7) show ?thesis by (auto simp: hm_insert_empty)
  qed
qed

theorem register_session_outcome_witness:
  "\<exists>st. hm_get (sessions ex_core1) 7 = Some st \<and> max_participants st = 2"
proof -
  have fresh: "hm_get (sessions ex_core0) 7 = None" by (simp add: ex_core0_eq)
  have room: "\<exists>r \<in> set (routers (router_pool ex_core0)).
      has_room (active_sessions_per_router ex_core0) (max_sessions_per_router ex_core0) r"
    by (simp add: ex_core0_eq has_room_def ex_values)
  obtain res where reg: "register_session 7 ex_core0 ''a'' User = (res, ex_core1)"
    unfolding ex_core1_def by (metis prod.collapse)
  from register_session_outcome [OF ex_reachable(1) fresh reg] room show ?thesis by auto
qed

text \<open>C17. The maps are well typed: in every reachable core every map has distinct keys (the sessions, their
  participants, each participant's producers and consumers, the counters, the event channels and
  those of each session, and the WebRTC servers of the pool), every producer
  and consumer is filed under its own id, each session has one or two participants and a router of
  the pool for which a WebRTC server is known (so the error of a missing server cannot occur), there
  is a counter for exactly the routers of the pool, and only live sessions have subscribers.\<close>

theorem core_well_typed:
  assumes "reachable_core c"
  shows "hm_ok (sessions c) \<and> hm_ok (event_senders c) \<and> hm_ok (active_sessions_per_router c) \<and>
         hm_keys (active_sessions_per_router c) = router_ident ` set (routers (router_pool c)) \<and>
         hm_keys (event_senders c) \<subseteq> hm_keys (sessions c) \<and>
         (\<forall>sid senders. hm_get (event_senders c) sid = Some senders \<longrightarrow> hm_ok senders) \<and>
         hm_ok (router_to_webrtc_server (router_pool c)) \<and>
         (\<forall>sid st. hm_get (sessions c) sid = Some st \<longrightarrow>
            hm_ok (participants st) \<and> 1 \<le> hm_len (participants st) \<and> hm_len (participants st) \<le> 2 \<and>
            session_router st \<in> set (routers (router_pool c)) \<and>
            get_webrtc_server (router_pool c) (router_ident (session_router st)) \<noteq> None \<and>
            (\<forall>pid p. hm_get (participants st) pid = Some p \<longrightarrow>
               hm_ok (producers p) \<and> hm_ok (consumers p) \<and>
               (\<forall>prid pr. hm_get (producers p) prid = Some pr \<longrightarrow> producer_ident pr = prid) \<and>
               (\<forall>cid co. hm_get (consumers p) cid = Some co \<longrightarrow> consumer_ident co = cid)))"
proof -
  have inv: "core_inv c" by (rule reachable_core_inv [OF assms])
  then have "hm_ok (sessions c) \<and> hm_ok (event_senders c) \<and> hm_ok (active_sessions_per_router c) \<and>
      hm_keys (active_sessions_per_router c) = router_ident ` set (routers (router_pool c)) \<and>
      hm_keys (event_senders c) \<subseteq> hm_keys (sessions c) \<and>
      (\<forall>sid senders. hm_get (event_senders c) sid = Some senders \<longrightarrow> hm_ok senders) \<and>
      hm_ok (router_to_webrtc_server (router_pool c))"
    by (auto simp: core_inv_def counters_ok_def sessions_ok_def senders_ok_def pool_ok_def
        hm_keys_get hm_contains_def)
  moreover have "hm_ok (participants st) \<and> 1 \<le> hm_len (participants st) \<and> hm_len (participants st) \<le> 2 \<and>
      session_router st \<in> set (routers (router_pool c)) \<and>
      get_webrtc_server (router_pool c) (router_ident (session_router st)) \<noteq> None"
    if "hm_get (sessions c) sid = Some st" for sid st
  proof -
    from inv that have "session_ok st" "session_router st \<in> set (routers (router_pool c))"
      by (simp_all add: core_inv_def sessions_ok_def)
    with core_inv_webrtc_server [OF inv that] show ?thesis
      by (simp add: session_ok_def Suc_le_eq)
  qed
  moreover have "participant_ok p"
    if "hm_get (sessions c) sid = Some st" "hm_get (participants st) pid = Some p" for sid st pid p
    using core_inv_participant [OF inv that] .
  ultimately show ?thesis unfolding participant_ok_def by blast
qed

theorem core_well_typed_witness:
  "producer_ident (ex_producer 3) = ProducerId 3"
proof -
  have "hm_get (sessions ex_core5) 7 =
      Some (ex_session (ex_sender_side\<lparr>producers := [(ProducerId 3, ex_producer 3)]\<rparr>) ex_receiver_side)"
    by (simp add: ex_core5_eq)
  moreover have "hm_get (participants (ex_session
      (ex_sender_side\<lparr>producers := [(ProducerId 3, ex_producer 3)]\<rparr>) ex_receiver_side)) ''a''
      = Some (ex_sender_side\<lparr>producers := [(ProducerId 3, ex_producer 3)]\<rparr>)"
    by (simp add: ex_session_def)
  ultimately show ?thesis
    using core_well_typed [OF ex_reachable(6)] by fastforce
qed

end
