(* ===== verification/Sfu_Operations.thy ===== *)
theory Sfu_Operations
  imports Sfu_Invariant
begin

text \<open>
  The functional behaviour of the operations of \<open>src/sfu/core.rs\<close>: when each succeeds, what it
  leaves, what a later operation finds, and what it does not touch.
\<close>

section \<open>Definitions\<close>

text \<open>What an operation on one session leaves alone: the state and the subscribers of all others.\<close>

definition same_elsewhere :: "uuid \<Rightarrow> sfu_core \<Rightarrow> sfu_core \<Rightarrow> bool" where
  "same_elsewhere sid c c' \<longleftrightarrow>
     (\<forall>other. other \<noteq> sid \<longrightarrow>
        hm_get (sessions c') other = hm_get (sessions c) other \<and>
        hm_get (event_senders c') other = hm_get (event_senders c) other)"

section \<open>Lemmas\<close>

text \<open>A change of one participant, seen through the look-ups.\<close>

lemma join_session_other:
  assumes "sid' \<noteq> sid"
  shows "hm_get (sessions (snd (join_session tx c sid pid ptype))) sid' = hm_get (sessions c) sid'"
    and "hm_get (event_senders (snd (join_session tx c sid pid ptype))) sid'
         = hm_get (event_senders c) sid'"
  using assms
  by (cases "join_session tx c sid pid ptype"; auto dest: join_session_cases)+

lemma close_session_other:
  assumes "sid' \<noteq> sid"
  shows "hm_get (sessions (close_session sid c)) sid' = hm_get (sessions c) sid'"
    and "hm_get (event_senders (close_session sid c)) sid' = hm_get (event_senders c) sid'"
  using assms by (auto simp: close_session_def split: option.split)

lemma session_len_keys:
  assumes "reachable_core c" and "hm_get (sessions c) sid = Some st"
  shows "hm_len (participants st) = card (hm_keys (participants st))"
    and "max_participants st = 2" and "0 < hm_len (participants st)"
    and "hm_len (participants st) \<le> 2"
proof -
  have ok: "session_ok st"
    using reachable_core_inv [OF assms(1)] assms(2) by (simp add: core_inv_def sessions_ok_def)
  then show "hm_len (participants st) = card (hm_keys (participants st))"
    by (intro hm_len_card) (simp add: session_ok_def)
  from ok show "max_participants st = 2" and "0 < hm_len (participants st)"
    and "hm_len (participants st) \<le> 2"
    by (simp_all add: session_ok_def)
qed

text \<open>A session has room for a name exactly if it has one participant, of another name.\<close>

lemma join_room:
  assumes "reachable_core c" and "hm_get (sessions c) sid = Some st"
  shows "hm_len (participants st) < 2 \<and> \<not> hm_contains (participants st) pid \<longleftrightarrow>
         (\<exists>q. hm_keys (participants st) = {q} \<and> q \<noteq> pid)"
proof -
  note len = session_len_keys [OF assms]
  have "hm_len (participants st) < 2 \<longleftrightarrow> (\<exists>q. hm_keys (participants st) = {q})"
    using len by (auto simp: card_1_singleton_iff less_2_cases_iff)
  moreover have "hm_contains (participants st) pid \<longleftrightarrow> pid \<in> hm_keys (participants st)"
    by (auto simp: hm_contains_def hm_keys_get)
  moreover have "(\<exists>q. K = {q}) \<and> pid \<notin> K \<longleftrightarrow> (\<exists>q. K = {q} \<and> q \<noteq> pid)" for K
    by auto
  ultimately show ?thesis by (simp only:)
qed

lemma join_again_full:
  assumes "reachable_core c" and "hm_get (sessions c) sid = Some st"
    and "hm_keys (participants st) = {q}" and "q \<noteq> pid"
  shows "fst (join_session tx (put_participant sid st pid p c) sid pid' ptype')
           = Inl (SessionFull (uuid_text tx sid))"
proof -
  note len = session_len_keys [OF assms(1,2)]
  have "\<not> hm_contains (participants st) pid"
    using join_room [OF assms(1,2)] assms(3,4) by blast
  then have "hm_len (hm_insert pid p (participants st)) = 2"
    using len(1) assms(3) by (simp add: hm_len_insert)
  then show ?thesis by (simp add: join_session_def find_session_def len(2))
qed

text \<open>When a create operation succeeds.\<close>

lemma create_producer_Inr:
  "(\<exists>ok. fst (create_producer ms tx c sid pid tid kind params) = Inr ok) \<longleftrightarrow>
   (\<exists>st p t pr. hm_get (sessions c) sid = Some st \<and> hm_get (participants st) pid = Some p \<and>
      send_transport (transports_of p) = Some t \<and> transport_ident t = tid \<and>
      ms_produce ms t kind params = Inr pr)"
proof (cases rule: find_participant_cases [of tx c sid pid])
  case (err e)
  then have "\<forall>st. hm_get (sessions c) sid = Some st \<longrightarrow> hm_get (participants st) pid = None"
    by (simp add: find_participant_Inl split: option.splits)
  then show ?thesis by (auto simp: create_producer_def err)
next
  case (ok st p)
  then show ?thesis
    by (cases "send_transport (transports_of p)")
      (auto simp: create_producer_def ok(1) split: sum.split)
qed

lemma create_consumer_Inr:
  "(\<exists>ok. fst (create_consumer ms tx c sid pid tid prid caps) = Inr ok) \<longleftrightarrow>
   (\<exists>st p t co. hm_get (sessions c) sid = Some st \<and> hm_get (participants st) pid = Some p \<and>
      recv_transport (transports_of p) = Some t \<and> transport_ident t = tid \<and>
      ms_can_consume ms (session_router st) prid caps \<and>
      ms_consume ms t \<lparr>opt_producer_id = prid, opt_rtp_capabilities = caps, opt_paused = True\<rparr>
        = Inr co)"
proof (cases rule: find_participant_cases [of tx c sid pid])
  case (err e)
  then have "\<forall>st. hm_get (sessions c) sid = Some st \<longrightarrow> hm_get (participants st) pid = None"
    by (simp add: find_participant_Inl split: option.splits)
  then show ?thesis by (auto simp: create_consumer_def err)
next
  case (ok st p)
  then show ?thesis
    by (cases "recv_transport (transports_of p)")
      (auto simp: create_consumer_def consumer_options_new_def ok(1) split: sum.split)
qed


text \<open>Other sessions.\<close>

lemma same_elsewhere_changes: "changes c sid pid Q c' \<Longrightarrow> same_elsewhere sid c c'"
  by (auto simp: same_elsewhere_def changes_def)

lemma same_elsewhere_refl: "same_elsewhere sid c c"
  by (simp add: same_elsewhere_def)

lemma same_elsewhere_join: "same_elsewhere sid c (snd (join_session tx c sid pid ptype))"
  by (simp add: same_elsewhere_def join_session_other)

lemma same_elsewhere_register:
  assumes "pool_ok (router_pool c)"
  shows "same_elsewhere new_id c (snd (register_session new_id c pid ptype))"
proof -
  obtain res c' where reg: "register_session new_id c pid ptype = (res, c')" by fastforce
  from assms reg show ?thesis
    by (cases rule: register_session_cases) (simp_all add: reg same_elsewhere_def)
qed

lemma same_elsewhere_set_capabilities:
  "same_elsewhere sid c (snd (set_rtp_capabilities tx c sid pid caps))"
  by (cases "set_rtp_capabilities tx c sid pid caps")
    (auto dest!: set_rtp_capabilities_cases same_elsewhere_changes simp: same_elsewhere_refl)

lemma same_elsewhere_transport:
  "same_elsewhere sid c (snd (create_transport ms tx c sid pid direction))"
  by (cases "create_transport ms tx c sid pid direction")
    (auto dest!: create_transport_cases same_elsewhere_changes simp: same_elsewhere_refl)

lemma same_elsewhere_producer:
  "same_elsewhere sid c (snd (create_producer ms tx c sid pid tid kind params))"
  by (cases "create_producer ms tx c sid pid tid kind params")
    (auto dest!: create_producer_cases same_elsewhere_changes simp: same_elsewhere_refl)

lemma same_elsewhere_consumer:
  "same_elsewhere sid c (snd (create_consumer ms tx c sid pid tid prid caps))"
  by (cases "create_consumer ms tx c sid pid tid prid caps")
    (auto dest!: create_consumer_cases same_elsewhere_changes simp: same_elsewhere_refl)

lemma same_elsewhere_subscribe:
  "same_elsewhere sid c (fst (snd (subscribe_to_events tx \<pi> \<rho> snd_out c sid pid s)))"
  by (simp add: subscribe_to_events_core same_elsewhere_def subscribed_def)

lemma same_elsewhere_close: "same_elsewhere sid c (close_session sid c)"
  by (simp add: same_elsewhere_def close_session_other)

lemma close_session_pool: "router_pool (close_session sid c) = router_pool c"
  by (simp add: close_session_def split: option.split)

lemma close_sessions_pool: "router_pool (close_sessions sids c) = router_pool c"
  by (induction sids arbitrary: c) (simp_all add: close_session_pool)

text \<open>The sessions of a core fit on its routers.\<close>

lemma sessions_at_most:
  assumes inv: "core_inv c"
  shows "hm_len (sessions c)
    \<le> card (router_ident ` set (routers (router_pool c))) * unat (max_sessions_per_router c)"
proof -
  let ?K = "hm_keys (active_sessions_per_router c)"
  have keys: "?K = router_ident ` set (routers (router_pool c))"
    using inv by (simp add: core_inv_def counters_ok_def)
  then have fin: "finite ?K" by simp
  from inv have "\<forall>(sid, st) \<in> set (sessions c). router_ident (session_router st) \<in> ?K"
    by (auto simp: core_inv_def sessions_ok_def keys hm.in_entries)
  with fin have "hm_len (sessions c) = (\<Sum>rid \<in> ?K. sessions_on c rid)"
    unfolding sessions_on_def by (rule hm_len_count)
  also have "\<dots> \<le> card ?K * unat (max_sessions_per_router c)"
    using core_inv_capacity [OF inv]
      sum_bounded_above [of ?K "sessions_on c" "unat (max_sessions_per_router c)"]
    by (auto simp: hm_keys_get)
  finally show ?thesis by (simp add: keys)
qed

section \<open>Properties\<close>

text \<open>C9. Joining succeeds exactly when the session is live and holds one participant, under another
  name. Then the session holds the two, and every further join of it is refused as full, also one
  under the name of a present participant.\<close>

theorem join_session_outcome:
  assumes reach: "reachable_core c" and join: "join_session tx c sid pid ptype = (res, c')"
  shows "(res = Inr () \<longleftrightarrow>
            (\<exists>st q. hm_get (sessions c) sid = Some st \<and> hm_keys (participants st) = {q} \<and> q \<noteq> pid)) \<and>
         (res = Inr () \<longrightarrow>
            (\<exists>st st' q. hm_get (sessions c) sid = Some st \<and> hm_keys (participants st) = {q} \<and>
               hm_get (sessions c') sid = Some st' \<and> hm_keys (participants st') = {q, pid}) \<and>
            (\<forall>pid' ptype'. fst (join_session tx c' sid pid' ptype')
                             = Inl (SessionFull (uuid_text tx sid))))"
proof (cases "\<exists>st. hm_get (sessions c) sid = Some st \<and> hm_len (participants st) < 2 \<and>
                      \<not> hm_contains (participants st) pid")
  case True
  then obtain st where st: "hm_get (sessions c) sid = Some st" "hm_len (participants st) < 2"
    "\<not> hm_contains (participants st) pid" by blast
  then obtain q where q: "hm_keys (participants st) = {q}" "q \<noteq> pid"
    using join_room [OF reach st(1)] by blast
  have res: "res = Inr ()" and c': "c' = put_participant sid st pid (new_participant ptype) c"
    using join st session_len_keys(2) [OF reach st(1)]
    by (simp_all add: join_session_def find_session_def)
  have one: "\<exists>st q. hm_get (sessions c) sid = Some st \<and> hm_keys (participants st) = {q} \<and> q \<noteq> pid"
    using st(1) q by (intro exI conjI)
  have two: "\<exists>st st' q. hm_get (sessions c) sid = Some st \<and> hm_keys (participants st) = {q} \<and>
      hm_get (sessions c') sid = Some st' \<and> hm_keys (participants st') = {q, pid}"
  proof (intro exI conjI)
    show "hm_get (sessions c') sid
        = Some (st\<lparr>participants := hm_insert pid (new_participant ptype) (participants st)\<rparr>)"
      by (simp add: c')
    show "hm_keys (participants
        (st\<lparr>participants := hm_insert pid (new_participant ptype) (participants st)\<rparr>)) = {q, pid}"
      by (simp add: q(1) insert_commute)
  qed (fact st(1) q(1))+
  have full: "fst (join_session tx c' sid pid' ptype') = Inl (SessionFull (uuid_text tx sid))"
    for pid' ptype'
    unfolding c' using join_again_full [OF reach st(1) q] .
  show ?thesis using one two full by (simp only: res simp_thms)
next
  case False
  then have "\<not> (\<exists>st q. hm_get (sessions c) sid = Some st \<and> hm_keys (participants st) = {q} \<and> q \<noteq> pid)"
    using join_room [OF reach] by blast
  moreover have "res \<noteq> Inr ()"
    using join_session_cases [OF join] False session_len_keys(2) [OF reach] by fastforce
  ultimately show ?thesis by simp
qed

theorem join_session_outcome_witness:
  "fst (join_session ex_texts ex_core2 7 ''a'' User) = Inl (SessionFull (uuid_text ex_texts 7))"
proof -
  obtain res where join: "join_session ex_texts ex_core1 7 ''b'' User = (res, ex_core2)"
    unfolding ex_core2_def by (metis prod.collapse)
  have "\<exists>st q. hm_get (sessions ex_core1) 7 = Some st \<and> hm_keys (participants st) = {q} \<and> q \<noteq> ''b''"
    by (simp add: ex_core1_eq hm_keys_def)
  with join_session_outcome [OF ex_reachable(2) join] have "res = Inr ()"
    by (simp only: simp_thms)
  with join_session_outcome [OF ex_reachable(2) join]
  have "\<forall>pid' ptype'. fst (join_session ex_texts ex_core2 7 pid' ptype')
          = Inl (SessionFull (uuid_text ex_texts 7))"
    by (simp only: simp_thms)
  then show ?thesis by (elim allE)
qed

text \<open>C24. A producer is created exactly when the participant has a send transport, that is the one
  named in the request, and the library accepts. It is then stored under its id with the
  participant, whose transports, consumers and other producers stay, as do all other participants
  of the session.\<close>

theorem create_producer_outcome:
  assumes create: "create_producer ms tx c sid pid tid kind params = (res, c')"
  shows "((\<exists>ok. res = Inr ok) \<longleftrightarrow>
            (\<exists>st p t pr. hm_get (sessions c) sid = Some st \<and> hm_get (participants st) pid = Some p \<and>
               send_transport (transports_of p) = Some t \<and> transport_ident t = tid \<and>
               ms_produce ms t kind params = Inr pr)) \<and>
         (\<forall>prid setup. res = Inr (prid, setup) \<longrightarrow>
            (\<exists>st p st' p' pr. hm_get (sessions c) sid = Some st \<and>
               hm_get (participants st) pid = Some p \<and>
               hm_get (sessions c') sid = Some st' \<and> hm_get (participants st') pid = Some p' \<and>
               setup = Some (PendingProducer pr sid pid kind) \<and> producer_ident pr = prid \<and>
               hm_get (producers p') = (hm_get (producers p))(prid \<mapsto> pr) \<and>
               transports_of p' = transports_of p \<and> consumers p' = consumers p \<and>
               (\<forall>q. q \<noteq> pid \<longrightarrow> hm_get (participants st') q = hm_get (participants st) q)))"
proof (rule conjI)
  show "(\<exists>ok. res = Inr ok) \<longleftrightarrow>
            (\<exists>st p t pr. hm_get (sessions c) sid = Some st \<and> hm_get (participants st) pid = Some p \<and>
               send_transport (transports_of p) = Some t \<and> transport_ident t = tid \<and>
               ms_produce ms t kind params = Inr pr)"
    using create_producer_Inr [of ms tx c sid pid tid kind params] by (simp add: create)
  show "\<forall>prid setup. res = Inr (prid, setup) \<longrightarrow>
            (\<exists>st p st' p' pr. hm_get (sessions c) sid = Some st \<and>
               hm_get (participants st) pid = Some p \<and>
               hm_get (sessions c') sid = Some st' \<and> hm_get (participants st') pid = Some p' \<and>
               setup = Some (PendingProducer pr sid pid kind) \<and> producer_ident pr = prid \<and>
               hm_get (producers p') = (hm_get (producers p))(prid \<mapsto> pr) \<and>
               transports_of p' = transports_of p \<and> consumers p' = consumers p \<and>
               (\<forall>q. q \<noteq> pid \<longrightarrow> hm_get (participants st') q = hm_get (participants st) q))"
    using create_producer_cases [OF create] by (auto simp: changes_def fun_eq_iff)
qed

theorem create_producer_outcome_witness:
  "\<exists>st' p'. hm_get (sessions ex_core5) 7 = Some st' \<and> hm_get (participants st') ''a'' = Some p' \<and>
     hm_get (producers p') (ProducerId 3) \<noteq> None"
proof -
  obtain res where create: "create_producer (ex_ms 3) ex_texts ex_core4 7 ''a'' (TransportId 1) Audio
      (RtpParameters 1) = (res, ex_core5)"
    unfolding ex_core5_def by (metis prod.collapse)
  have "fst (create_producer (ex_ms 3) ex_texts ex_core4 7 ''a'' (TransportId 1) Audio
      (RtpParameters 1)) = Inr (ProducerId 3, Some (PendingProducer (ex_producer 3) 7 ''a'' Audio))"
    by (simp add: ex_core4_eq create_producer_def ex_op_defs ex_session_def ex_sender_side_def
        ex_values)
  with create have "res = Inr (ProducerId 3, Some (PendingProducer (ex_producer 3) 7 ''a'' Audio))"
    by simp
  with create_producer_outcome [OF create] show ?thesis by fastforce
qed

text \<open>C25. A consumer is created exactly when the participant has a receive transport, that is the one
  named in the request, the router can consume the producer with the given capabilities, and the
  library accepts a consumer of that producer that starts paused. It is then stored under its id
  with the participant, and nothing else of the participant or of the other participants changes.\<close>

theorem create_consumer_outcome:
  assumes create: "create_consumer ms tx c sid pid tid prid caps = (res, c')"
  shows "((\<exists>ok. res = Inr ok) \<longleftrightarrow>
            (\<exists>st p t co. hm_get (sessions c) sid = Some st \<and> hm_get (participants st) pid = Some p \<and>
               recv_transport (transports_of p) = Some t \<and> transport_ident t = tid \<and>
               ms_can_consume ms (session_router st) prid caps \<and>
               ms_consume ms t \<lparr>opt_producer_id = prid, opt_rtp_capabilities = caps,
                                 opt_paused = True\<rparr> = Inr co)) \<and>
         (\<forall>co setup. res = Inr (co, setup) \<longrightarrow>
            (\<exists>st p st' p'. hm_get (sessions c) sid = Some st \<and>
               hm_get (participants st) pid = Some p \<and>
               hm_get (sessions c') sid = Some st' \<and> hm_get (participants st') pid = Some p' \<and>
               setup = Some (PendingConsumer co sid pid) \<and>
               hm_get (consumers p') = (hm_get (consumers p))(consumer_ident co \<mapsto> co) \<and>
               transports_of p' = transports_of p \<and> producers p' = producers p \<and>
               (\<forall>q. q \<noteq> pid \<longrightarrow> hm_get (participants st') q = hm_get (participants st) q)))"
proof (rule conjI)
  show "(\<exists>ok. res = Inr ok) \<longleftrightarrow>
            (\<exists>st p t co. hm_get (sessions c) sid = Some st \<and> hm_get (participants st) pid = Some p \<and>
               recv_transport (transports_of p) = Some t \<and> transport_ident t = tid \<and>
               ms_can_consume ms (session_router st) prid caps \<and>
               ms_consume ms t \<lparr>opt_producer_id = prid, opt_rtp_capabilities = caps,
                                 opt_paused = True\<rparr> = Inr co)"
    using create_consumer_Inr [of ms tx c sid pid tid prid caps] by (simp add: create)
  show "\<forall>co setup. res = Inr (co, setup) \<longrightarrow>
            (\<exists>st p st' p'. hm_get (sessions c) sid = Some st \<and>
               hm_get (participants st) pid = Some p \<and>
               hm_get (sessions c') sid = Some st' \<and> hm_get (participants st') pid = Some p' \<and>
               setup = Some (PendingConsumer co sid pid) \<and>
               hm_get (consumers p') = (hm_get (consumers p))(consumer_ident co \<mapsto> co) \<and>
               transports_of p' = transports_of p \<and> producers p' = producers p \<and>
               (\<forall>q. q \<noteq> pid \<longrightarrow> hm_get (participants st') q = hm_get (participants st) q))"
    using create_consumer_cases [OF create] by (auto simp: changes_def fun_eq_iff)
qed

theorem create_consumer_outcome_witness:
  "\<exists>ok. fst (create_consumer (ex_ms 4) ex_texts ex_core5 7 ''b'' (TransportId 2) (ProducerId 3)
              (RtpCapabilities 1)) = Inr ok"
proof -
  obtain res c' where create: "create_consumer (ex_ms 4) ex_texts ex_core5 7 ''b'' (TransportId 2)
      (ProducerId 3) (RtpCapabilities 1) = (res, c')" by fastforce
  have "\<exists>ok. res = Inr ok"
    unfolding create_consumer_outcome [OF create, THEN conjunct1]
    by (simp add: ex_core5_eq ex_session_def ex_receiver_side_def ex_values)
  then show ?thesis unfolding create fst_conv .
qed



text \<open>C31. A consumer that was created can be resumed by the participant that owns it: the resume
  reaches the library with that very consumer, and it is refused to every participant of the
  session that does not own a consumer of this id.\<close>

theorem create_then_resume:
  assumes create: "create_consumer ms tx c sid pid tid prid caps = (Inr (co, setup), c')"
  shows "resume_consumer ms' tx c' sid pid (consumer_ident co)
           = (map_err ConsumerResumeFailed (ms_resume ms' co), c') \<and>
         (\<forall>st q pq. hm_get (sessions c) sid = Some st \<and> hm_get (participants st) q = Some pq \<and>
            q \<noteq> pid \<and> hm_get (consumers pq) (consumer_ident co) = None \<longrightarrow>
            resume_consumer ms' tx c' sid q (consumer_ident co)
              = (Inl (ConsumerNotFound (consumer_id_text tx (consumer_ident co))), c'))"
proof -
  from create_consumer_cases [OF create] obtain st p where
    st: "hm_get (sessions c) sid = Some st" "hm_get (participants st) pid = Some p"
    and c': "c' = put_participant sid st pid
               (p\<lparr>consumers := hm_insert (consumer_ident co) co (consumers p)\<rparr>) c"
    unfolding changes_def by auto
  have find: "find_participant tx c' sid q =
      (if q = pid then Inr (st\<lparr>participants := hm_insert pid
           (p\<lparr>consumers := hm_insert (consumer_ident co) co (consumers p)\<rparr>) (participants st)\<rparr>,
           p\<lparr>consumers := hm_insert (consumer_ident co) co (consumers p)\<rparr>)
       else (case hm_get (participants st) q of
               None \<Rightarrow> Inl (ParticipantNotFound q)
             | Some pq \<Rightarrow> Inr (st\<lparr>participants := hm_insert pid
                 (p\<lparr>consumers := hm_insert (consumer_ident co) co (consumers p)\<rparr>)
                 (participants st)\<rparr>, pq)))" for q
    by (simp add: find_participant_def find_session_def c' split: option.split)
  show ?thesis
    using st(1) by (auto simp: resume_consumer_def find)
qed

theorem create_then_resume_witness:
  "\<exists>c'. hm_contains (sessions c') 7 \<and>
     resume_consumer (ex_ms 9) ex_texts c' 7 ''b'' (ConsumerId 4) = (Inr (), c')"
proof -
  let ?create = "create_consumer (ex_ms 4) ex_texts ex_core5 7 ''b'' (TransportId 2) (ProducerId 3)
      (RtpCapabilities 1)"
  have "fst ?create = Inr (ex_consumer 4 (ProducerId 3),
      Some (PendingConsumer (ex_consumer 4 (ProducerId 3)) 7 ''b''))"
    by (simp add: ex_core5_eq create_consumer_def consumer_options_new_def ex_op_defs ex_session_def
        ex_receiver_side_def ex_values)
  then have "?create = (Inr (ex_consumer 4 (ProducerId 3),
      Some (PendingConsumer (ex_consumer 4 (ProducerId 3)) 7 ''b'')), snd ?create)"
    by (metis prod.collapse)
  from create_then_resume [OF this, of "ex_ms 9", THEN conjunct1]
  have "resume_consumer (ex_ms 9) ex_texts (snd ?create) 7 ''b'' (ConsumerId 4)
      = (Inr (), snd ?create)"
    by (simp add: ex_values)
  moreover have "hm_contains (sessions (snd ?create)) 7"
    by (simp add: ex_core5_eq create_consumer_def consumer_options_new_def ex_op_defs ex_session_def
        ex_receiver_side_def ex_values hm_contains_def)
  ultimately show ?thesis by blast
qed

text \<open>An operation that reports an error has changed nothing, and connecting a transport or
  resuming a consumer never changes the core at all.\<close>

lemma failures_change_nothing:
  "(\<forall>e c'. join_session tx c sid pid ptype = (Inl e, c') \<longrightarrow> c' = c) \<and>
   (\<forall>e c'. set_rtp_capabilities tx c sid pid caps = (Inl e, c') \<longrightarrow> c' = c) \<and>
   (\<forall>e c'. create_transport ms tx c sid pid direction = (Inl e, c') \<longrightarrow> c' = c) \<and>
   (\<forall>e c'. create_producer ms tx c sid pid tid kind params = (Inl e, c') \<longrightarrow> c' = c) \<and>
   (\<forall>e c'. create_consumer ms tx c sid pid tid prid caps = (Inl e, c') \<longrightarrow> c' = c) \<and>
   snd (connect_transport ms tx c sid pid tid dtls) = c \<and>
   snd (resume_consumer ms tx c sid pid cid) = c"
proof (intro conjI allI impI)
  fix e c'
  show "join_session tx c sid pid ptype = (Inl e, c') \<Longrightarrow> c' = c"
    using join_session_err [of tx c sid pid ptype e] by simp
  show "set_rtp_capabilities tx c sid pid caps = (Inl e, c') \<Longrightarrow> c' = c"
    using set_rtp_capabilities_err [of tx c sid pid caps e] by simp
  show "create_transport ms tx c sid pid direction = (Inl e, c') \<Longrightarrow> c' = c"
    using create_transport_err [of ms tx c sid pid direction e] by simp
  show "create_producer ms tx c sid pid tid kind params = (Inl e, c') \<Longrightarrow> c' = c"
    using create_producer_err [of ms tx c sid pid tid kind params e] by simp
  show "create_consumer ms tx c sid pid tid prid caps = (Inl e, c') \<Longrightarrow> c' = c"
    using create_consumer_err [of ms tx c sid pid tid prid caps e] by simp
qed (simp_all add: core_unchanged)

lemma failures_change_nothing_witness:
  "snd (join_session ex_texts ex_core0 8 ''z'' User) = ex_core0"
proof -
  have "fst (join_session ex_texts ex_core0 8 ''z'' User) = Inl (SessionNotFound (uuid_text ex_texts 8))"
    by (simp add: join_session_def find_session_def ex_core0_eq)
  then have "join_session ex_texts ex_core0 8 ''z'' User
      = (Inl (SessionNotFound (uuid_text ex_texts 8)), snd (join_session ex_texts ex_core0 8 ''z'' User))"
    by (metis prod.collapse)
  with failures_change_nothing [of ex_texts ex_core0 8 "''z''" User, THEN conjunct1] show ?thesis
    by blast
qed

text \<open>C28. Sessions are isolated: an operation on one session, whether it succeeds or fails, leaves the
  state and the subscribers of every other session as they were.\<close>

theorem session_isolation:
  assumes "reachable_core c"
  shows "same_elsewhere sid c (snd (register_session sid c pid ptype)) \<and>
         same_elsewhere sid c (snd (join_session tx c sid pid ptype)) \<and>
         same_elsewhere sid c (snd (set_rtp_capabilities tx c sid pid caps)) \<and>
         same_elsewhere sid c (snd (create_transport ms tx c sid pid direction)) \<and>
         same_elsewhere sid c (snd (connect_transport ms tx c sid pid tid dtls)) \<and>
         same_elsewhere sid c (snd (create_producer ms tx c sid pid tid kind params)) \<and>
         same_elsewhere sid c (snd (create_consumer ms tx c sid pid tid prid caps)) \<and>
         same_elsewhere sid c (snd (resume_consumer ms tx c sid pid cid)) \<and>
         same_elsewhere sid c (close_session sid c) \<and>
         same_elsewhere sid c (fst (snd (subscribe_to_events tx \<pi> \<rho> snd_out c sid pid s)))"
proof -
  have "pool_ok (router_pool c)"
    using reachable_core_inv [OF assms] by (simp add: core_inv_def)
  then show ?thesis
    by (intro conjI same_elsewhere_register same_elsewhere_join same_elsewhere_set_capabilities
        same_elsewhere_transport same_elsewhere_producer same_elsewhere_consumer
        same_elsewhere_subscribe same_elsewhere_close)
      (simp_all add: core_unchanged same_elsewhere_refl)
qed

theorem session_isolation_witness:
  "hm_get (sessions (close_session 8 ex_core5)) 7 = hm_get (sessions ex_core5) 7"
proof -
  note session_isolation [OF ex_reachable(6), of 8]
  then have "same_elsewhere 8 ex_core5 (close_session 8 ex_core5)" by blast
  then show ?thesis by (simp add: same_elsewhere_def)
qed

text \<open>C11. Closing a live session frees exactly its place: its router's counter goes down by one, from
  a positive value, and the router has room again; the other counters and sessions stay; the
  session and its subscribers are gone, and closing it again changes nothing.\<close>

theorem close_session_outcome:
  assumes "reachable_core c" and "hm_get (sessions c) sid = Some st"
  defines "rid \<equiv> router_ident (session_router st)"
  shows "\<exists>n. hm_get (active_sessions_per_router c) rid = Some n \<and> 0 < unat n \<and>
           hm_get (active_sessions_per_router (close_session sid c))
             = (hm_get (active_sessions_per_router c))(rid \<mapsto> n - 1) \<and>
           unat (n - 1) = unat n - 1 \<and>
           has_room (active_sessions_per_router (close_session sid c)) (max_sessions_per_router c)
             (session_router st) \<and>
           hm_get (sessions (close_session sid c)) = (hm_get (sessions c))(sid := None) \<and>
           hm_get (event_senders (close_session sid c)) sid = None \<and>
           close_session sid (close_session sid c) = close_session sid c"
proof -
  have inv: "core_inv c" by (rule reachable_core_inv [OF assms(1)])
  obtain n where n: "hm_get (active_sessions_per_router c) rid = Some n"
    unfolding rid_def by (rule core_inv_counter [OF inv assms(2)])
  have on: "unat n = sessions_on c rid" "sessions_on c rid \<le> unat (max_sessions_per_router c)"
    using core_inv_capacity [OF inv n] by simp_all
  moreover have "0 < sessions_on c rid"
    unfolding sessions_on_def rid_def by (rule hm_count_pos [OF assms(2)]) simp
  ultimately have pos: "0 < unat n" by simp
  then have pred: "unat (n - 1) = unat n - 1" by (rule unat_pred_pos)
  have counters: "active_sessions_per_router (close_session sid c)
      = hm_insert rid (n - 1) (active_sessions_per_router c)"
    using assms(2) n by (simp add: close_session_def rid_def)
  have "n - 1 < max_sessions_per_router c"
    using on pos pred by (simp add: word_less_nat_alt)
  then have room: "has_room (active_sessions_per_router (close_session sid c))
      (max_sessions_per_router c) (session_router st)"
    by (simp add: has_room_def counters flip: rid_def)
  show ?thesis
  proof (intro exI conjI)
    show "hm_get (active_sessions_per_router (close_session sid c))
        = (hm_get (active_sessions_per_router c))(rid \<mapsto> n - 1)"
      by (simp add: counters fun_eq_iff)
    show "hm_get (sessions (close_session sid c)) = (hm_get (sessions c))(sid := None)"
      by (simp add: fun_eq_iff close_session_sessions)
    show "hm_get (event_senders (close_session sid c)) sid = None"
      using assms(2) by (simp add: close_session_def)
    show "close_session sid (close_session sid c) = close_session sid c"
      by (subst close_session_def) (simp add: close_session_sessions)
  qed (fact n pos pred room)+
qed

theorem close_session_outcome_witness:
  "hm_get (active_sessions_per_router (close_session 7 ex_core6)) (RouterId 1) = Some 0"
proof -
  have st: "hm_get (sessions ex_core6) 7 = Some
      (ex_session (ex_sender_side\<lparr>producers := [(ProducerId 3, ex_producer 3)]\<rparr>) ex_receiver_side)"
    by (simp add: ex_core6_eq ex_core5_eq)
  have "hm_get (active_sessions_per_router ex_core6) (RouterId 1) = Some 1"
    by (simp add: ex_core6_eq ex_core5_eq ex_core1_eq)
  with close_session_outcome [OF ex_reachable(7) st] show ?thesis
    by (auto simp: ex_session_def ex_router_def)
qed

text \<open>C12. After a session has been closed every operation that names it reports that the session is
  not found and leaves the core alone, and a broadcast to it reaches nobody, in particular the
  broadcasts of tasks that were spawned before.\<close>

theorem closed_session_is_gone:
  fixes sid :: uuid and tx :: texts
  assumes "reachable_core c"
  defines "d \<equiv> close_session sid c" and "gone \<equiv> SessionNotFound (uuid_text tx sid)"
  shows "join_session tx d sid pid ptype = (Inl gone, d) \<and>
         get_router_rtp_capabilities tx d sid = Inl gone \<and>
         set_rtp_capabilities tx d sid pid caps = (Inl gone, d) \<and>
         create_transport ms tx d sid pid direction = (Inl gone, d) \<and>
         connect_transport ms tx d sid pid tid dtls = (Inl gone, d) \<and>
         create_producer ms tx d sid pid tid kind params = (Inl gone, d) \<and>
         create_consumer ms tx d sid pid tid prid rcaps = (Inl gone, d) \<and>
         resume_consumer ms tx d sid pid cid = (Inl gone, d) \<and>
         subscribe_to_events tx \<pi> \<rho> snd_out d sid pid s = (Done (Inl gone), d, []) \<and>
         broadcast_event \<pi> try_out d sid event exclude = []"
proof -
  have none: "hm_get (sessions d) sid = None"
    by (simp add: d_def close_session_sessions)
  then have find: "find_participant tx d sid pid = Inl gone" for pid
    by (simp add: find_participant_Inl gone_def)
  have "core_inv d"
    unfolding d_def by (rule core_inv_close [OF reachable_core_inv [OF assms(1)]])
  then have "hm_get (event_senders d) sid = None"
    using none by (rule core_inv_no_senders)
  with none find show ?thesis
    by (simp add: join_session_def get_router_rtp_capabilities_def set_rtp_capabilities_def
        create_transport_def connect_transport_def create_producer_def create_consumer_def
        resume_consumer_def subscribe_to_events_def broadcast_event_def find_session_def
        hm_contains_def gone_def)
qed

theorem closed_session_is_gone_witness:
  "fst (join_session ex_texts (close_session 7 ex_core6) 7 ''c'' User)
     = Inl (SessionNotFound (uuid_text ex_texts 7))"
  using closed_session_is_gone [OF ex_reachable(7), of ex_texts 7 "''c''" User] by simp

text \<open>The number of live sessions of a reachable core is at most the number of its routers times
  the configured maximum per router.\<close>

lemma total_capacity:
  assumes "reachable_core c"
  shows "hm_len (sessions c) \<le> length (routers (router_pool c)) * unat (max_sessions_per_router c)"
proof -
  have "card (router_ident ` set (routers (router_pool c))) \<le> length (routers (router_pool c))"
    by (metis card_length length_map list.set_map)
  with sessions_at_most [OF reachable_core_inv [OF assms]] show ?thesis
    by (meson le_trans mult_le_mono1)
qed

lemma total_capacity_witness: "hm_len (sessions ex_core5) \<le> 4"
  using total_capacity [OF ex_reachable(6)]
  by (simp add: ex_core5_eq ex_core1_eq ex_core0_eq ex_pool_def)

text \<open>C29. Shutting down closes everything, in whatever order the sessions are visited: no session and no
  subscriber is left, the counters of exactly the routers of the pool are there and all zero.\<close>

theorem shutdown_outcome:
  assumes "reachable_core c"
  shows "sessions (shutdown \<pi> c) = [] \<and> event_senders (shutdown \<pi> c) = [] \<and>
         hm_get (active_sessions_per_router (shutdown \<pi> c)) =
           (\<lambda>rid. if rid \<in> router_ident ` set (routers (router_pool c)) then Some 0 else None)"
proof -
  let ?d = "shutdown \<pi> c"
  have inv: "core_inv ?d"
    unfolding shutdown_def by (rule core_inv_close_sessions [OF reachable_core_inv [OF assms]])
  have sessions: "sessions ?d = []" by (rule shutdown_sessions)
  have senders: "event_senders ?d = []"
    by (rule hm_all_None, rule core_inv_no_senders [OF inv]) (simp add: sessions)
  have "hm_keys (active_sessions_per_router ?d) = router_ident ` set (routers (router_pool c))"
    using inv by (simp add: core_inv_def counters_ok_def shutdown_def close_sessions_pool)
  moreover have "n = 0" if "hm_get (active_sessions_per_router ?d) rid = Some n" for rid n
    using core_inv_capacity(1) [OF inv that]
    by (simp add: sessions_on_def sessions hm_count_def unat_eq_zero)
  ultimately show ?thesis
    using sessions senders by (auto simp: fun_eq_iff hm_keys_get set_eq_iff)
qed

theorem shutdown_outcome_witness:
  "sessions (shutdown (\<lambda>i. i) ex_core6) = [] \<and> event_senders (shutdown (\<lambda>i. i) ex_core6) = []"
  using shutdown_outcome [OF ex_reachable(7), of "\<lambda>i. i"] by blast

text \<open>Capabilities can be set exactly for a participant of a live session; they replace the earlier
  ones and nothing else of the participant changes. They have no influence on consuming: what
  \<open>create_consumer\<close> then returns, for any participant, is what it would have returned before, so
  only the capabilities of the consume request itself count.\<close>

lemma set_rtp_capabilities_outcome:
  assumes set_caps: "set_rtp_capabilities tx c sid pid caps = (res, c')"
  shows "(res = Inr () \<longleftrightarrow>
            (\<exists>st. hm_get (sessions c) sid = Some st \<and> hm_contains (participants st) pid)) \<and>
         (res = Inr () \<longrightarrow>
            (\<exists>st p st'. hm_get (sessions c) sid = Some st \<and> hm_get (participants st) pid = Some p \<and>
               hm_get (sessions c') sid = Some st' \<and>
               hm_get (participants st') pid = Some (p\<lparr>rtp_caps := Some caps\<rparr>))) \<and>
         fst (create_consumer ms tx c' sid' q tid prid rcaps)
           = fst (create_consumer ms tx c sid' q tid prid rcaps)"
proof (cases rule: find_participant_cases [of tx c sid pid])
  case (err e)
  then have "\<forall>st. hm_get (sessions c) sid = Some st \<longrightarrow> hm_get (participants st) pid = None"
    by (simp add: find_participant_Inl split: option.splits)
  moreover have "res = Inl e" and "c' = c"
    using set_caps by (simp_all add: set_rtp_capabilities_def err)
  ultimately show ?thesis by (auto simp: hm_contains_def)
next
  case (ok st p)
  have res: "res = Inr ()" and c': "c' = put_participant sid st pid (p\<lparr>rtp_caps := Some caps\<rparr>) c"
    using set_caps by (simp_all add: set_rtp_capabilities_def ok(1))
  have "fst (create_consumer ms tx c' sid' q tid prid rcaps)
      = fst (create_consumer ms tx c sid' q tid prid rcaps)"
  proof (cases "sid' = sid")
    case False
    then have "find_participant tx c' sid' q = find_participant tx c sid' q"
      by (simp add: find_participant_def find_session_def c')
    then show ?thesis
      by (auto simp: create_consumer_def split: sum.split)
  next
    case True
    then show ?thesis
      using ok(2,3)
      by (auto simp: create_consumer_def find_participant_def find_session_def c'
          split: sum.split option.split)
  qed
  with res ok(2,3) show ?thesis by (auto simp: c' hm_contains_def)
qed

lemma set_rtp_capabilities_outcome_witness:
  "fst (create_consumer (ex_ms 4) ex_texts
          (snd (set_rtp_capabilities ex_texts ex_core5 7 ''b'' (RtpCapabilities 8)))
          7 ''b'' (TransportId 2) (ProducerId 3) (RtpCapabilities 1))
     = fst (create_consumer (ex_ms 4) ex_texts ex_core5 7 ''b'' (TransportId 2) (ProducerId 3)
             (RtpCapabilities 1))"
proof -
  obtain res c' where set_caps:
    "set_rtp_capabilities ex_texts ex_core5 7 ''b'' (RtpCapabilities 8) = (res, c')" by fastforce
  from set_rtp_capabilities_outcome [OF set_caps] show ?thesis unfolding set_caps snd_conv by blast
qed

end
