(* ===== verification/Sfu_Subscription.thy ===== *)
theory Sfu_Subscription
  imports Sfu_Operations
begin

text \<open>
  The event side of \<open>src/sfu/core.rs\<close>: what \<open>subscribe_to_events\<close> puts into a new channel, when
  it waits for ever, and whom \<open>broadcast_event\<close> reaches, independently of the order in which the
  hash maps are visited.
\<close>

section \<open>Specification\<close>

text \<open>The producers of a session with their owners, in storage order.\<close>

definition all_producers :: "session_state \<Rightarrow> (producer_id \<times> media_kind \<times> string) list" where
  "all_producers st =
     concat (map (\<lambda>(pid, p). map (\<lambda>(prid, pr). (prid, producer_kind pr, pid)) (producers p))
               (participants st))"

definition producers_of_others ::
  "string \<Rightarrow> (producer_id \<times> media_kind \<times> string) list \<Rightarrow> (producer_id \<times> media_kind \<times> string) list"
  where
  "producers_of_others pid l = filter (\<lambda>(prid, kind, owner). owner \<noteq> pid) l"

definition announce ::
  "texts \<Rightarrow> (producer_id \<times> media_kind \<times> string) list \<Rightarrow> sfu_event list" where
  "announce tx l = map (\<lambda>(prid, kind, owner). create_new_producer_event tx prid kind) l"

section \<open>The existing producers\<close>

lemma mset_concat_iter:
  assumes "\<And>e. mset (f e) = mset (g e)"
  shows "mset (concat (map f (hm_iter \<pi> m))) = mset (concat (map g m))"
proof -
  have "mset (concat (map f xs)) = (\<Sum>e\<in>#mset xs. mset (f e))"
    for f :: "'a \<times> 'b \<Rightarrow> 'c list" and xs
    by (induction xs) simp_all
  then show ?thesis by (simp add: assms)
qed

lemma existing_producers_mset:
  assumes "hm_get (sessions c) sid = Some st"
  obtains l where "get_existing_producers_for_session tx \<pi> \<rho> c sid = Inr l"
    and "mset l = mset (all_producers st)"
proof
  let ?f = "\<lambda>(pid, p). map (\<lambda>(prid, pr). (prid, producer_kind pr, pid)) (hm_iter (\<rho> pid) (producers p))"
  let ?g = "\<lambda>(pid, p). map (\<lambda>(prid, pr). (prid, producer_kind pr, pid)) (producers p)"
  show "get_existing_producers_for_session tx \<pi> \<rho> c sid
      = Inr (concat (map ?f (hm_iter \<pi> (participants st))))"
    using assms by (simp add: get_existing_producers_for_session_def find_session_def)
  show "mset (concat (map ?f (hm_iter \<pi> (participants st)))) = mset (all_producers st)"
    unfolding all_producers_def
    by (rule mset_concat_iter) (simp add: case_prod_beta)
qed

lemma in_all_producers:
  "(prid, kind, pid) \<in> set (all_producers st) \<longleftrightarrow>
   (\<exists>p pr. (pid, p) \<in> set (participants st) \<and> (prid, pr) \<in> set (producers p) \<and>
      kind = producer_kind pr)"
  by (force simp: all_producers_def)

section \<open>The sends of a subscription\<close>

lemma send_existing_all_ok:
  "(\<And>j. snd_out j = SendOk) \<Longrightarrow>
   send_existing tx snd_out i pid l = (Done (), announce tx (producers_of_others pid l))"
  by (induction tx snd_out i pid l rule: send_existing.induct)
    (simp_all add: announce_def producers_of_others_def)

text \<open>Whatever the sends return, only events of the others' producers are sent, in order.\<close>

lemma send_existing_subset:
  "set (snd (send_existing tx snd_out i pid l)) \<subseteq> set (announce tx (producers_of_others pid l))"
  by (induction tx snd_out i pid l rule: send_existing.induct)
    (auto simp: announce_def producers_of_others_def split: send_outcome.splits prod.splits)

text \<open>On a bounded channel nobody reads, starting at send number \<open>i\<close>.\<close>

lemma send_existing_unpolled:
  assumes "unpolled_channel capacity snd_out" and "i \<le> capacity"
  shows "send_existing tx snd_out i pid l =
    (if i + length (producers_of_others pid l) \<le> capacity then Done () else Blocked,
     take (capacity - i) (announce tx (producers_of_others pid l)))"
  using assms(2)
proof (induction l arbitrary: i)
  case Nil
  then show ?case by (simp add: producers_of_others_def announce_def)
next
  case (Cons e l)
  obtain prid kind owner where e: "e = (prid, kind, owner)" by (cases e)
  show ?case
  proof (cases "owner = pid \<or> i = capacity")
    case True
    with Cons assms(1) show ?thesis
      by (auto simp: e producers_of_others_def unpolled_channel_def)
  next
    case False
    with Cons.prems have i: "Suc i \<le> capacity" by simp
    with assms(1) have "snd_out i = SendOk" by (simp add: unpolled_channel_def)
    moreover have "capacity - i = Suc (capacity - Suc i)" using i by simp
    ultimately show ?thesis
      using False Cons.IH [OF i] by (simp add: e producers_of_others_def announce_def)
  qed
qed

text \<open>\<open>subscribe_to_events\<close>, by what its first send returned.\<close>

lemma subscribe_to_events_eq:
  assumes "hm_get (sessions c) sid = Some st" and "snd_out 0 = SendOk"
  obtains l where "mset l = mset (all_producers st)"
    and "subscribe_to_events tx \<pi> \<rho> snd_out c sid pid s =
      (case fst (send_existing tx snd_out 1 pid l) of
         Blocked \<Rightarrow> Blocked | Done _ \<Rightarrow> Done (Inr ()),
       subscribed c sid pid s,
       SubscriptionConfirmed (uuid_text tx sid) # snd (send_existing tx snd_out 1 pid l))"
proof -
  have live: "hm_get (sessions (subscribed c sid pid s)) sid = Some st"
    using assms(1) by (simp add: subscribed_def)
  obtain l where l: "get_existing_producers_for_session tx \<pi> \<rho> (subscribed c sid pid s) sid = Inr l"
    and mset: "mset l = mset (all_producers st)"
    by (rule existing_producers_mset [OF live])
  from mset show thesis
  proof (rule that)
    show "subscribe_to_events tx \<pi> \<rho> snd_out c sid pid s =
      (case fst (send_existing tx snd_out 1 pid l) of
         Blocked \<Rightarrow> Blocked | Done _ \<Rightarrow> Done (Inr ()),
       subscribed c sid pid s,
       SubscriptionConfirmed (uuid_text tx sid) # snd (send_existing tx snd_out 1 pid l))"
      using assms l
      by (simp add: subscribe_to_events_def hm_contains_def Let_def senders_of_def [symmetric]
          subscribed_def [symmetric] split: prod.split awaited.split)
  qed
qed

lemma mset_producers_of_others:
  "mset l = mset l' \<Longrightarrow> mset (producers_of_others pid l) = mset (producers_of_others pid l')"
  by (simp add: producers_of_others_def)

lemma length_announce [simp]: "length (announce tx l) = length l"
  by (simp add: announce_def)

lemma mset_announce: "mset l = mset l' \<Longrightarrow> mset (announce tx l) = mset (announce tx l')"
  by (simp add: announce_def)

lemma length_producers_of_others:
  "mset l = mset l' \<Longrightarrow> length (producers_of_others pid l) = length (producers_of_others pid l')"
  by (metis mset_producers_of_others size_mset)

section \<open>Broadcasts\<close>

lemma broadcast_loop_map:
  "broadcast_loop try_out event exclude l =
   map (\<lambda>(pid, s). (pid, s, try_out pid s event)) (filter (\<lambda>(pid, s). exclude \<noteq> Some pid) l)"
  by (induction try_out event exclude l rule: broadcast_loop.induct) simp_all

lemma broadcast_event_map:
  "broadcast_event \<pi> try_out c sid event exclude =
   map (\<lambda>(pid, s). (pid, s, try_out pid s event))
     (filter (\<lambda>(pid, s). exclude \<noteq> Some pid) (hm_iter \<pi> (senders_of c sid)))"
  by (simp add: broadcast_event_def senders_of_def broadcast_loop_map split: option.split)

lemma in_broadcast_event:
  assumes "hm_ok (senders_of c sid)"
  shows "(pid, s, r) \<in> set (broadcast_event \<pi> try_out c sid event exclude) \<longleftrightarrow>
    hm_get (senders_of c sid) pid = Some s \<and> exclude \<noteq> Some pid \<and> r = try_out pid s event"
  using hm.in_entries [OF assms, of pid s] by (auto simp: broadcast_event_map)

lemma distinct_broadcast_event:
  assumes "hm_ok (senders_of c sid)"
  shows "distinct (map fst (broadcast_event \<pi> try_out c sid event exclude))"
proof -
  have "map fst (broadcast_event \<pi> try_out c sid event exclude)
      = map fst (filter (\<lambda>(pid, s). exclude \<noteq> Some pid) (hm_iter \<pi> (senders_of c sid)))"
    by (simp add: broadcast_event_map case_prod_beta o_def)
  also have "distinct \<dots>"
    using distinct_hm_iter [OF assms] by (simp add: distinct_map_filter)
  finally show ?thesis .
qed

text \<open>A subscription on a bounded channel nobody reads.\<close>

lemma subscribe_unpolled:
  fixes pid :: string
  assumes live: "hm_get (sessions c) sid = Some st" and chan: "unpolled_channel capacity snd_out"
  defines "needed \<equiv> 1 + length (producers_of_others pid (all_producers st))"
  shows "\<exists>evs. subscribe_to_events tx \<pi> \<rho> snd_out c sid pid s
           = (if needed \<le> capacity then Done (Inr ()) else Blocked, subscribed c sid pid s, evs) \<and>
         length evs = min capacity needed"
proof (cases "capacity = 0")
  case True
  with chan have "snd_out 0 = SendPending" by (simp add: unpolled_channel_def)
  with live True show ?thesis
    by (simp add: subscribe_to_events_def hm_contains_def needed_def subscribed_def senders_of_def)
next
  case False
  then have room: "1 \<le> capacity" and "snd_out 0 = SendOk"
    using chan by (simp_all add: unpolled_channel_def)
  then obtain l where l: "mset l = mset (all_producers st)"
    and eq: "subscribe_to_events tx \<pi> \<rho> snd_out c sid pid s =
      (case fst (send_existing tx snd_out 1 pid l) of
         Blocked \<Rightarrow> Blocked | Done _ \<Rightarrow> Done (Inr ()),
       subscribed c sid pid s,
       SubscriptionConfirmed (uuid_text tx sid) # snd (send_existing tx snd_out 1 pid l))"
    using subscribe_to_events_eq [OF live] by metis
  have "needed = 1 + length (producers_of_others pid l)"
    unfolding needed_def length_producers_of_others [OF l] ..
  then show ?thesis
    unfolding eq send_existing_unpolled [OF chan room] using room by auto
qed

section \<open>Properties\<close>

text \<open>C23. A subscription to a live session whose sends all succeed returns without an error, registers
  the channel for the participant in place of an earlier one, and puts into it the confirmation
  first and then one announcement for each producer of the other participants, none for the
  subscriber's own.\<close>

theorem subscription_contents:
  assumes "hm_get (sessions c) sid = Some st" and "\<forall>i. snd_out i = SendOk"
  shows "\<exists>c' evs. subscribe_to_events tx \<pi> \<rho> snd_out c sid pid s
             = (Done (Inr ()), c', SubscriptionConfirmed (uuid_text tx sid) # evs) \<and>
           mset evs = mset (announce tx (producers_of_others pid (all_producers st))) \<and>
           sessions c' = sessions c \<and>
           hm_get (senders_of c' sid) = (hm_get (senders_of c sid))(pid \<mapsto> s)"
proof -
  from assms(2) have ok: "snd_out j = SendOk" for j by simp
  obtain l where l: "mset l = mset (all_producers st)"
    and eq: "subscribe_to_events tx \<pi> \<rho> snd_out c sid pid s =
      (case fst (send_existing tx snd_out 1 pid l) of
         Blocked \<Rightarrow> Blocked | Done _ \<Rightarrow> Done (Inr ()),
       subscribed c sid pid s,
       SubscriptionConfirmed (uuid_text tx sid) # snd (send_existing tx snd_out 1 pid l))"
    by (rule subscribe_to_events_eq [OF assms(1) ok])
  have "mset (announce tx (producers_of_others pid l))
      = mset (announce tx (producers_of_others pid (all_producers st)))"
    using l by (intro mset_announce mset_producers_of_others)
  moreover have "sessions (subscribed c sid pid s) = sessions c"
    and "hm_get (senders_of (subscribed c sid pid s) sid) = (hm_get (senders_of c sid))(pid \<mapsto> s)"
    by (simp_all add: subscribed_def senders_of_def fun_eq_iff)
  ultimately show ?thesis
    unfolding eq send_existing_all_ok [OF ok] by simp
qed

theorem subscription_contents_witness:
  "\<exists>c'. subscribe_to_events ex_texts (\<lambda>i. i) (\<lambda>_ i. i) (\<lambda>_. SendOk) ex_core5 7 ''b'' (Sender 1)
     = (Done (Inr ()), c',
        [SubscriptionConfirmed (uuid_text ex_texts 7),
         NewProducer (producer_id_proto ex_texts (ProducerId 3)) 1])"
proof -
  let ?st = "ex_session (ex_sender_side\<lparr>producers := [(ProducerId 3, ex_producer 3)]\<rparr>) ex_receiver_side"
  have st: "hm_get (sessions ex_core5) 7 = Some ?st" by (simp add: ex_core5_eq)
  have "announce ex_texts (producers_of_others ''b'' (all_producers ?st))
      = [NewProducer (producer_id_proto ex_texts (ProducerId 3)) 1]"
    by (simp add: announce_def producers_of_others_def all_producers_def ex_session_def
        ex_sender_side_def ex_receiver_side_def ex_values new_participant_def
        create_new_producer_event_def)
  with subscription_contents [OF st, of "\<lambda>_. SendOk" ex_texts "\<lambda>i. i" "\<lambda>_ i. i" "''b''" "Sender 1"]
  show ?thesis by auto
qed

text \<open>C19. On a bounded channel that nobody reads before the call returns (the receiver is handed out
  with the response), a subscription to a live session returns exactly if the channel has room for
  the confirmation and the announcements of all producers of the others; otherwise it waits for
  ever, while its caller holds the lock of the core. The channel then holds as many messages as
  it can take, and it is registered for the participant already.\<close>

theorem subscription_blocks_iff:
  fixes pid :: string
  assumes live: "hm_get (sessions c) sid = Some st" and chan: "unpolled_channel capacity snd_out"
  defines "needed \<equiv> 1 + length (producers_of_others pid (all_producers st))"
  shows "\<exists>evs. subscribe_to_events tx \<pi> \<rho> snd_out c sid pid s
           = (if needed \<le> capacity then Done (Inr ()) else Blocked, subscribed c sid pid s, evs) \<and>
         length evs = min capacity needed"
  unfolding needed_def using live chan by (rule subscribe_unpolled)

theorem subscription_blocks_iff_witness:
  "fst (subscribe_to_events ex_texts (\<lambda>i. i) (\<lambda>_ i. i)
          (\<lambda>i. if i < 1 then SendOk else SendPending) ex_core5 7 ''b'' (Sender 1)) = Blocked"
proof -
  let ?st = "ex_session (ex_sender_side\<lparr>producers := [(ProducerId 3, ex_producer 3)]\<rparr>) ex_receiver_side"
  have st: "hm_get (sessions ex_core5) 7 = Some ?st" by (simp add: ex_core5_eq)
  have chan: "unpolled_channel 1 (\<lambda>i. if i < 1 then SendOk else SendPending)"
    by (simp add: unpolled_channel_def)
  have "length (producers_of_others ''b'' (all_producers ?st)) = 1"
    by (simp add: producers_of_others_def all_producers_def ex_session_def
        ex_sender_side_def ex_receiver_side_def ex_values new_participant_def)
  with subscription_blocks_iff [where pid = "''b''" and tx = ex_texts and \<pi> = "\<lambda>i. i" and
      \<rho> = "\<lambda>_ i. i" and s = "Sender 1", OF st chan]
  show ?thesis by auto
qed

text \<open>C22. A broadcast to a session calls \<open>try_send\<close> exactly once for each participant with a
  registered channel other than the excluded one, with that participant's channel, whatever the
  earlier calls returned and in whatever order the map is visited.\<close>

theorem broadcast_recipients:
  assumes "reachable_core c"
  shows "set (broadcast_event \<pi> try_out c sid event exclude) =
           {(pid, s, try_out pid s event) | pid s.
              hm_get (senders_of c sid) pid = Some s \<and> exclude \<noteq> Some pid} \<and>
         distinct (map fst (broadcast_event \<pi> try_out c sid event exclude))"
proof -
  have ok: "hm_ok (senders_of c sid)"
    by (rule core_inv_senders_of [OF reachable_core_inv [OF assms]])
  then show ?thesis
    using in_broadcast_event [OF ok, of _ _ _ \<pi> try_out event exclude]
    by (auto simp: distinct_broadcast_event)
qed

theorem broadcast_recipients_witness:
  "(''b'', Sender 1, TryFull) \<in>
     set (broadcast_event (\<lambda>i. i) (\<lambda>_ _ _. TryFull) ex_core6 7 (TransportClosed ''t'') (Some ''a''))"
  unfolding broadcast_recipients [OF ex_reachable(7), THEN conjunct1]
  by (simp add: senders_of_def ex_core6_eq)

end
