(* ===== verification/Event_Tasks.thy ===== *)
theory Event_Tasks
  imports Event_Handler
begin

text \<open>
  \<open>SfuHandler::setup_event_handlers\<close> of \<open>src/grpc/handler.rs\<close>: what the gRPC layer does with the
  pending set-ups of a core operation after it has released the lock. Close callbacks are
  registered; the announcement of a new producer is spawned as a task that takes the lock and
  broadcasts later. A close callback that runs spawns such a task too.
\<close>

section \<open>Data\<close>

text \<open>A spawned task: it will lock the core and call \<open>broadcast_event\<close> with these arguments.\<close>

record broadcast_task =
  task_session :: uuid
  task_event :: sfu_event
  task_exclude :: "string option"

section \<open>Operations\<close>

text \<open>The closure given to the three \<open>setup_..._events\<close>: nobody is excluded.\<close>

definition spawn_close_broadcast :: "uuid \<Rightarrow> sfu_event \<Rightarrow> broadcast_task" where
  "spawn_close_broadcast session_id event =
     \<lparr>task_session = session_id, task_event = event, task_exclude = None\<rparr>"

fun setup_event_handlers ::
  "texts \<Rightarrow> (hook \<Rightarrow> bool) \<Rightarrow> pending_event_setup list \<Rightarrow> close_watch list \<times> broadcast_task list"
  where
  "setup_event_handlers tx stays [] = ([], [])"
| "setup_event_handlers tx stays (PendingTransport t session_id pid # rest) =
     (case setup_event_handlers tx stays rest of
        (ws, ts) \<Rightarrow> (setup_transport_events tx stays t session_id # ws, ts))"
| "setup_event_handlers tx stays (PendingProducer p session_id pid kind # rest) =
     (case setup_event_handlers tx stays rest of
        (ws, ts) \<Rightarrow>
          (setup_producer_events tx stays p session_id # ws,
           \<lparr>task_session = session_id,
            task_event = create_new_producer_event tx (producer_ident p) kind,
            task_exclude = Some pid\<rparr> # ts))"
| "setup_event_handlers tx stays (PendingConsumer co session_id pid # rest) =
     (case setup_event_handlers tx stays rest of
        (ws, ts) \<Rightarrow> (setup_consumer_events tx stays co session_id # ws, ts))"

end
