(* ===== verification/Sfu_System.thy ===== *)
theory Sfu_System
  imports Sfu_Subscription Event_Tasks
begin

text \<open>
  The running server: the core behind its mutex, the close callbacks, the spawned broadcast tasks
  waiting for the lock, and what was offered to the event channels. One event of the machine is
  one critical section (an operation of the core with the library answers it met), a task that
  gets the lock, a close hook of the library, or a client that goes away. A subscription whose
  send never completes keeps the lock: nothing else that needs it can run until that client goes
  away. A client may also go away while its request holds the lock and waits only briefly, as
  tokio lets any \<open>await\<close> do: the registration and the subscription are the operations that have
  changed the core by then, and each has an event for that. Any order of enabled events is a run.
\<close>

section \<open>State\<close>

text \<open>
  An entry of the log: session, participant, sender, event and what the channel answered.
  \<open>sys_gone\<close> are the channels whose clients went away. \<open>sys_produced\<close> and \<open>sys_unconfirmed\<close> are
  histories: every producer ever created, with its session and owner, and the channels of the
  subscriptions that were dropped before they sent anything.
\<close>

type_synonym log_entry = "uuid \<times> string \<times> sender \<times> sfu_event \<times> try_send_result"

record system =
  sys_core :: sfu_core
  sys_watches :: "close_watch list"
  sys_tasks :: "broadcast_task list"
  sys_log :: "log_entry list"
  sys_waiting :: "sender option"
  sys_gone :: "sender list"
  sys_produced :: "(uuid \<times> string \<times> producer_id) list"
  sys_unconfirmed :: "sender list"

datatype sys_event =
    Register uuid string participant_type
  | Join uuid string participant_type
  | SetCapabilities uuid string rtp_capabilities
  | MakeTransport mediasoup uuid string string
  | Connect mediasoup uuid string transport_id dtls_parameters
  | MakeProducer mediasoup uuid string transport_id media_kind rtp_parameters
  | MakeConsumer mediasoup uuid string transport_id producer_id rtp_capabilities
  | Resume mediasoup uuid string consumer_id
  | Close uuid
  | Shutdown hash_seed
  | Subscribe hash_seed "string \<Rightarrow> hash_seed" "nat \<Rightarrow> send_outcome" uuid string sender
  | RunTask hash_seed "string \<Rightarrow> sender \<Rightarrow> sfu_event \<Rightarrow> try_send_result" nat
  | AbandonRegister nat
  | AbandonSubscribe nat hash_seed "string \<Rightarrow> hash_seed" "nat \<Rightarrow> send_outcome" uuid string sender
  | Fire nat hook
  | HangUp sender

section \<open>Events\<close>

definition sys_start :: "sfu_core \<Rightarrow> system" where
  "sys_start c = \<lparr>sys_core = c, sys_watches = [], sys_tasks = [], sys_log = [],
                  sys_waiting = None, sys_gone = [], sys_produced = [],
                  sys_unconfirmed = []\<rparr>"

text \<open>After a create operation: the core it left, and the set-up it asked for, if any.\<close>

definition pending_setups ::
  "session_error + 'a \<times> pending_event_setup option \<Rightarrow> pending_event_setup list" where
  "pending_setups res = (case res of Inr (_, Some setup) \<Rightarrow> [setup] | _ \<Rightarrow> [])"

definition after_create ::
  "texts \<Rightarrow> (hook \<Rightarrow> bool) \<Rightarrow> system \<Rightarrow>
   (session_error + 'a \<times> pending_event_setup option) \<times> sfu_core \<Rightarrow> system" where
  "after_create tx stays s r =
     (case setup_event_handlers tx stays (pending_setups (fst r)) of
        (ws, ts) \<Rightarrow>
          s\<lparr>sys_core := snd r, sys_watches := sys_watches s @ ws, sys_tasks := sys_tasks s @ ts\<rparr>)"

definition note_produced ::
  "uuid \<Rightarrow> string \<Rightarrow> session_error + producer_id \<times> pending_event_setup option \<Rightarrow>
   system \<Rightarrow> system" where
  "note_produced sid pid res s =
     (case res of
        Inr (prid, _) \<Rightarrow> s\<lparr>sys_produced := sys_produced s @ [(sid, pid, prid)]\<rparr>
      | Inl _ \<Rightarrow> s)"

fun sys_exec :: "texts \<Rightarrow> (hook \<Rightarrow> bool) \<Rightarrow> system \<Rightarrow> sys_event \<Rightarrow> system" where
  "sys_exec tx stays s (Register new_id pid ptype) =
     s\<lparr>sys_core := snd (register_session new_id (sys_core s) pid ptype)\<rparr>"
| "sys_exec tx stays s (Join sid pid ptype) =
     s\<lparr>sys_core := snd (join_session tx (sys_core s) sid pid ptype)\<rparr>"
| "sys_exec tx stays s (SetCapabilities sid pid caps) =
     s\<lparr>sys_core := snd (set_rtp_capabilities tx (sys_core s) sid pid caps)\<rparr>"
| "sys_exec tx stays s (MakeTransport ms sid pid direction) =
     after_create tx stays s (create_transport ms tx (sys_core s) sid pid direction)"
| "sys_exec tx stays s (Connect ms sid pid tid dtls) =
     s\<lparr>sys_core := snd (connect_transport ms tx (sys_core s) sid pid tid dtls)\<rparr>"
| "sys_exec tx stays s (MakeProducer ms sid pid tid kind params) =
     (let r = create_producer ms tx (sys_core s) sid pid tid kind params
      in note_produced sid pid (fst r) (after_create tx stays s r))"
| "sys_exec tx stays s (MakeConsumer ms sid pid tid prid caps) =
     after_create tx stays s (create_consumer ms tx (sys_core s) sid pid tid prid caps)"
| "sys_exec tx stays s (Resume ms sid pid cid) =
     s\<lparr>sys_core := snd (resume_consumer ms tx (sys_core s) sid pid cid)\<rparr>"
| "sys_exec tx stays s (Close sid) = s\<lparr>sys_core := close_session sid (sys_core s)\<rparr>"
| "sys_exec tx stays s (Shutdown \<pi>) = s\<lparr>sys_core := shutdown \<pi> (sys_core s)\<rparr>"
| "sys_exec tx stays s (Subscribe \<pi> \<rho> snd_out sid pid ch) =
     (case subscribe_to_events tx \<pi> \<rho> snd_out (sys_core s) sid pid ch of
        (res, c', evs) \<Rightarrow>
          s\<lparr>sys_core := c',
            sys_log := sys_log s @ map (\<lambda>ev. (sid, pid, ch, ev, TryOk)) evs,
            sys_waiting := (if res = Blocked then Some ch else sys_waiting s)\<rparr>)"
| "sys_exec tx stays s (AbandonRegister j) = s\<lparr>sys_core := abandon_register j (sys_core s)\<rparr>"
| "sys_exec tx stays s (AbandonSubscribe k \<pi> \<rho> snd_out sid pid ch) =
     (case subscribe_to_events tx \<pi> \<rho> snd_out (sys_core s) sid pid ch of
        (res, c', evs) \<Rightarrow>
          s\<lparr>sys_core := c',
            sys_log := sys_log s @ map (\<lambda>ev. (sid, pid, ch, ev, TryOk)) evs,
            sys_gone := ch # sys_gone s,
            sys_unconfirmed := (if evs = [] then ch # sys_unconfirmed s else sys_unconfirmed s)\<rparr>)"
| "sys_exec tx stays s (RunTask \<pi> try_out i) =
     (if i < length (sys_tasks s) then
        let t = sys_tasks s ! i in
        s\<lparr>sys_tasks := take i (sys_tasks s) @ drop (Suc i) (sys_tasks s),
          sys_log := sys_log s @
            map (\<lambda>(pid, ch, r). (task_session t, pid, ch, task_event t, r))
              (broadcast_event \<pi> try_out (sys_core s) (task_session t) (task_event t)
                 (task_exclude t))\<rparr>
      else s)"
| "sys_exec tx stays s (Fire i h) =
     (if i < length (sys_watches s) then
        (case fire h (sys_watches s ! i) of
           (w, None) \<Rightarrow> s\<lparr>sys_watches := (sys_watches s)[i := w]\<rparr>
         | (w, Some (sid, ev)) \<Rightarrow>
             s\<lparr>sys_watches := (sys_watches s)[i := w],
               sys_tasks := sys_tasks s @ [spawn_close_broadcast sid ev]\<rparr>)
      else s)"
| "sys_exec tx stays s (HangUp ch) =
     s\<lparr>sys_gone := ch # sys_gone s,
       sys_waiting := (if sys_waiting s = Some ch then None else sys_waiting s)\<rparr>"

text \<open>Which events need the lock.\<close>

fun needs_lock :: "sys_event \<Rightarrow> bool" where
  "needs_lock (Fire i h) = False"
| "needs_lock (HangUp ch) = False"
| "needs_lock _ = True"

text \<open>
  The lock is free for an event that needs it; \<open>Uuid::new_v4\<close> gives an id not in use; the channel
  of a subscription could be made (otherwise the request panics before it asks for the lock), is
  bounded by the configured capacity, and nobody polls it before the call returns. A subscription
  that is dropped midway has made \<open>k\<close> sends, a registration has looked at \<open>j\<close> routers.
\<close>

fun sys_enabled :: "nat \<Rightarrow> system \<Rightarrow> sys_event \<Rightarrow> bool" where
  "sys_enabled capacity s (Register new_id pid ptype) \<longleftrightarrow>
     sys_waiting s = None \<and> hm_get (sessions (sys_core s)) new_id = None"
| "sys_enabled capacity s (Subscribe \<pi> \<rho> snd_out sid pid ch) \<longleftrightarrow>
     sys_waiting s = None \<and> channel_ok capacity \<and> unpolled_channel capacity snd_out"
| "sys_enabled capacity s (AbandonRegister j) \<longleftrightarrow>
     sys_waiting s = None \<and> j < length (routers (router_pool (sys_core s)))"
| "sys_enabled capacity s (AbandonSubscribe k \<pi> \<rho> snd_out sid pid ch) \<longleftrightarrow>
     sys_waiting s = None \<and> channel_ok capacity \<and> k \<le> capacity \<and> unpolled_channel k snd_out"
| "sys_enabled capacity s e \<longleftrightarrow> (needs_lock e \<longrightarrow> sys_waiting s = None)"

inductive sys_step :: "texts \<Rightarrow> (hook \<Rightarrow> bool) \<Rightarrow> nat \<Rightarrow> system \<Rightarrow> system \<Rightarrow> bool"
  for tx stays capacity where
  event: "sys_enabled capacity s e \<Longrightarrow> sys_step tx stays capacity s (sys_exec tx stays s e)"

inductive_simps sys_step_iff: "sys_step tx stays capacity s t"

text \<open>A run as a list of events, for evaluation.\<close>

fun sys_run :: "texts \<Rightarrow> (hook \<Rightarrow> bool) \<Rightarrow> system \<Rightarrow> sys_event list \<Rightarrow> system" where
  "sys_run tx stays s [] = s"
| "sys_run tx stays s (e # es) = sys_run tx stays (sys_exec tx stays s e) es"

fun sys_all_enabled ::
  "texts \<Rightarrow> (hook \<Rightarrow> bool) \<Rightarrow> nat \<Rightarrow> system \<Rightarrow> sys_event list \<Rightarrow> bool" where
  "sys_all_enabled tx stays capacity s [] \<longleftrightarrow> True"
| "sys_all_enabled tx stays capacity s (e # es) \<longleftrightarrow>
     sys_enabled capacity s e \<and> sys_all_enabled tx stays capacity (sys_exec tx stays s e) es"

definition sys_reachable :: "texts \<Rightarrow> (hook \<Rightarrow> bool) \<Rightarrow> nat \<Rightarrow> system \<Rightarrow> bool" where
  "sys_reachable tx stays capacity s \<longleftrightarrow>
     (\<exists>c. core_start c \<and> (sys_step tx stays capacity)\<^sup>*\<^sup>* (sys_start c) s)"

end
