(* ===== verification/Sfu_Delivery.thy ===== *)
theory Sfu_Delivery
  imports Sfu_System
begin

text \<open>
  The delivery invariants of the running server, for every interleaving: no announcement is lost
  (a participant that listens is offered every producer of the others, or a task that will offer
  it is waiting), and none is invented (an announcement in the log is of a producer that another
  participant of that session created).
\<close>

section \<open>The invariants\<close>

definition has_producer :: "sfu_core \<Rightarrow> uuid \<Rightarrow> string \<Rightarrow> producer_id \<Rightarrow> bool" where
  "has_producer c sid owner prid \<longleftrightarrow>
     (\<exists>st p. hm_get (sessions c) sid = Some st \<and> hm_get (participants st) owner = Some p \<and>
        hm_contains (producers p) prid)"

text \<open>A participant listens: its channel is registered, open, and not still being filled.\<close>

definition listens :: "system \<Rightarrow> uuid \<Rightarrow> string \<Rightarrow> sender \<Rightarrow> bool" where
  "listens s sid pid ch \<longleftrightarrow>
     hm_get (senders_of (sys_core s) sid) pid = Some ch \<and>
     ch \<notin> set (sys_gone s) \<and> sys_waiting s \<noteq> Some ch"

definition announced :: "texts \<Rightarrow> system \<Rightarrow> uuid \<Rightarrow> string \<Rightarrow> sender \<Rightarrow> producer_id \<Rightarrow> bool" where
  "announced tx s sid pid ch prid \<longleftrightarrow>
     (\<exists>k r. (sid, pid, ch, NewProducer (producer_id_proto tx prid) k, r) \<in> set (sys_log s))"

definition announcement_due :: "texts \<Rightarrow> system \<Rightarrow> uuid \<Rightarrow> string \<Rightarrow> producer_id \<Rightarrow> bool" where
  "announcement_due tx s sid owner prid \<longleftrightarrow>
     (\<exists>t \<in> set (sys_tasks s). task_session t = sid \<and> task_exclude t = Some owner \<and>
        (\<exists>k. task_event t = NewProducer (producer_id_proto tx prid) k))"

definition none_lost :: "texts \<Rightarrow> system \<Rightarrow> bool" where
  "none_lost tx s \<longleftrightarrow>
     (\<forall>sid owner prid pid ch.
        has_producer (sys_core s) sid owner prid \<longrightarrow> listens s sid pid ch \<longrightarrow> pid \<noteq> owner \<longrightarrow>
        announced tx s sid pid ch prid \<or> announcement_due tx s sid owner prid)"

text \<open>\<open>made_by_other s sid pid x\<close>: \<open>x\<close> names a producer another participant of \<open>sid\<close> created.\<close>

definition made_by_other :: "texts \<Rightarrow> system \<Rightarrow> uuid \<Rightarrow> string \<Rightarrow> string \<Rightarrow> bool" where
  "made_by_other tx s sid pid x \<longleftrightarrow>
     (\<exists>owner prid. (sid, owner, prid) \<in> set (sys_produced s) \<and> owner \<noteq> pid \<and>
        x = producer_id_proto tx prid)"

definition log_genuine :: "texts \<Rightarrow> system \<Rightarrow> bool" where
  "log_genuine tx s \<longleftrightarrow>
     (\<forall>sid pid ch x k r. (sid, pid, ch, NewProducer x k, r) \<in> set (sys_log s) \<longrightarrow>
        made_by_other tx s sid pid x)"

definition tasks_genuine :: "texts \<Rightarrow> system \<Rightarrow> bool" where
  "tasks_genuine tx s \<longleftrightarrow>
     (\<forall>t \<in> set (sys_tasks s). \<forall>x k. task_event t = NewProducer x k \<longrightarrow>
        (\<exists>owner prid. (task_session t, owner, prid) \<in> set (sys_produced s) \<and>
           task_exclude t = Some owner \<and> x = producer_id_proto tx prid))"

definition watches_close :: "system \<Rightarrow> bool" where
  "watches_close s \<longleftrightarrow> (\<forall>w \<in> set (sys_watches s). \<forall>x k. watch_event w \<noteq> NewProducer x k)"

definition produced_all :: "system \<Rightarrow> bool" where
  "produced_all s \<longleftrightarrow>
     (\<forall>sid owner prid. has_producer (sys_core s) sid owner prid \<longrightarrow>
        (sid, owner, prid) \<in> set (sys_produced s))"

definition none_invented :: "texts \<Rightarrow> system \<Rightarrow> bool" where
  "none_invented tx s \<longleftrightarrow>
     log_genuine tx s \<and> tasks_genuine tx s \<and> watches_close s \<and> produced_all s"

definition sys_inv :: "texts \<Rightarrow> system \<Rightarrow> bool" where
  "sys_inv tx s \<longleftrightarrow> core_inv (sys_core s) \<and> none_lost tx s \<and> none_invented tx s"

section \<open>The core of a run\<close>

lemma after_create_core [simp]: "sys_core (after_create tx stays s r) = snd r"
  by (simp add: after_create_def split: prod.split)

lemma note_produced_core [simp]: "sys_core (note_produced sid pid res s) = sys_core s"
  by (simp add: note_produced_def split: sum.split prod.split)

lemma sys_exec_core:
  "sys_enabled capacity s e \<Longrightarrow>
   core_step (sys_core s) (sys_core (sys_exec tx stays s e)) \<or>
   sys_core (sys_exec tx stays s e) = sys_core s"
proof (cases e)
  case (Subscribe \<pi> \<rho> snd_out sid pid ch)
  have "sys_core (sys_exec tx stays s e)
      = fst (snd (subscribe_to_events tx \<pi> \<rho> snd_out (sys_core s) sid pid ch))"
    unfolding Subscribe by (simp split: prod.split)
  then show ?thesis by (metis core_step.subscribe)
next
  case (AbandonSubscribe k \<pi> \<rho> snd_out sid pid ch)
  have "sys_core (sys_exec tx stays s e)
      = fst (snd (subscribe_to_events tx \<pi> \<rho> snd_out (sys_core s) sid pid ch))"
    unfolding AbandonSubscribe by (simp split: prod.split)
  then show ?thesis by (metis core_step.subscribe)
qed (auto intro: core_step.intros simp: Let_def split: prod.split option.split)

lemma sys_exec_core_inv:
  "sys_enabled capacity s e \<Longrightarrow> core_inv (sys_core s) \<Longrightarrow> core_inv (sys_core (sys_exec tx stays s e))"
  using sys_exec_core core_step_inv by metis

section \<open>Producers and senders under the operations\<close>

lemma has_producer_changes:
  assumes "changes c sid pid Q c'" and "\<And>p p'. Q p p' \<Longrightarrow> producers p' = producers p"
    and "has_producer c' s o' prid"
  shows "has_producer c s o' prid"
  using assms unfolding changes_def has_producer_def
  by (fastforce split: if_splits)

lemma senders_of_changes: "changes c sid pid Q c' \<Longrightarrow> senders_of c' = senders_of c"
  by (auto simp: changes_def senders_of_def fun_eq_iff)

lemma has_producer_join:
  "has_producer (snd (join_session tx c sid pid ptype)) s o' prid \<Longrightarrow> has_producer c s o' prid"
  using join_session_cases [of tx c sid pid ptype "fst (join_session tx c sid pid ptype)"
      "snd (join_session tx c sid pid ptype)"]
  by (auto simp: has_producer_def new_participant_def hm_contains_def split: if_splits)

lemma senders_of_join [core_unchanged]: "senders_of (snd (join_session tx c sid pid ptype)) = senders_of c"
  using join_session_cases [of tx c sid pid ptype "fst (join_session tx c sid pid ptype)"
      "snd (join_session tx c sid pid ptype)"]
  by (auto simp: senders_of_def fun_eq_iff)

lemma has_producer_register:
  assumes "pool_ok (router_pool c)"
    and "has_producer (snd (register_session new_id c pid ptype)) s o' prid"
  shows "has_producer c s o' prid"
proof -
  obtain res c' where reg: "register_session new_id c pid ptype = (res, c')" by fastforce
  from assms(1) reg show ?thesis
  proof (cases rule: register_session_cases)
    case (full rm)
    with assms(2) reg show ?thesis by (simp add: has_producer_def)
  next
    case (ok r n rm)
    with assms(2) reg show ?thesis
      by (auto simp: has_producer_def new_participant_def hm_contains_def split: if_splits)
  qed
qed

lemma senders_of_register:
  assumes "pool_ok (router_pool c)"
  shows "senders_of (snd (register_session new_id c pid ptype)) = senders_of c"
proof -
  obtain res c' where reg: "register_session new_id c pid ptype = (res, c')" by fastforce
  from assms reg show ?thesis
    by (cases rule: register_session_cases) (auto simp: reg senders_of_def fun_eq_iff)
qed

lemma has_producer_close: "has_producer (close_session sid c) s o' prid \<Longrightarrow> has_producer c s o' prid"
  by (auto simp: has_producer_def close_session_sessions split: if_splits)

lemma senders_of_close:
  "hm_get (senders_of (close_session sid c) s) pid = Some ch \<Longrightarrow>
   hm_get (senders_of c s) pid = Some ch"
  by (auto simp: senders_of_def close_session_def split: option.splits if_splits)

lemma has_producer_close_sessions:
  "has_producer (close_sessions sids c) s o' prid \<Longrightarrow> has_producer c s o' prid"
  by (induction sids arbitrary: c) (auto dest: has_producer_close)

lemma senders_of_close_sessions:
  "hm_get (senders_of (close_sessions sids c) s) pid = Some ch \<Longrightarrow>
   hm_get (senders_of c s) pid = Some ch"
  by (induction sids arbitrary: c) (auto dest: senders_of_close)

text \<open>The core operations that create no producer and register no channel.\<close>

lemma quiet_set_capabilities:
  "has_producer (snd (set_rtp_capabilities tx c sid pid caps)) s o' prid \<Longrightarrow> has_producer c s o' prid"
  "senders_of (snd (set_rtp_capabilities tx c sid pid caps)) = senders_of c"
  using set_rtp_capabilities_cases [of tx c sid pid caps
      "fst (set_rtp_capabilities tx c sid pid caps)" "snd (set_rtp_capabilities tx c sid pid caps)"]
  by (auto elim: has_producer_changes [rotated 2] dest: senders_of_changes)

lemma quiet_transport:
  "has_producer (snd (create_transport ms tx c sid pid dir)) s o' prid \<Longrightarrow> has_producer c s o' prid"
  "senders_of (snd (create_transport ms tx c sid pid dir)) = senders_of c"
  using create_transport_cases [of ms tx c sid pid dir
      "fst (create_transport ms tx c sid pid dir)" "snd (create_transport ms tx c sid pid dir)"]
  by (auto elim: has_producer_changes [rotated 2] dest: senders_of_changes)

lemma quiet_consumer:
  "has_producer (snd (create_consumer ms tx c sid pid tid prid caps)) s o' prid' \<Longrightarrow>
   has_producer c s o' prid'"
  "senders_of (snd (create_consumer ms tx c sid pid tid prid caps)) = senders_of c"
  using create_consumer_cases [of ms tx c sid pid tid prid caps
      "fst (create_consumer ms tx c sid pid tid prid caps)"
      "snd (create_consumer ms tx c sid pid tid prid caps)"]
  by (auto elim: has_producer_changes [rotated 2] dest: senders_of_changes)

lemma senders_of_producer [core_unchanged]:
  "senders_of (snd (create_producer ms tx c sid pid tid kind params)) = senders_of c"
  using create_producer_cases [of ms tx c sid pid tid kind params
      "fst (create_producer ms tx c sid pid tid kind params)"
      "snd (create_producer ms tx c sid pid tid kind params)"]
  by (auto dest: senders_of_changes)

lemmas senders_kept [core_unchanged] =
  quiet_set_capabilities(2) quiet_transport(2) quiet_consumer(2)

section \<open>Quiet events\<close>

text \<open>
  A quiet event creates no producer, opens no channel, offers nothing to a channel and spawns no
  announcement; it may end sessions, close channels and spawn other broadcasts.
\<close>

definition quiet :: "system \<Rightarrow> system \<Rightarrow> bool" where
  "quiet s t \<longleftrightarrow>
     (\<forall>sid owner prid. has_producer (sys_core t) sid owner prid \<longrightarrow>
        has_producer (sys_core s) sid owner prid) \<and>
     (\<forall>sid pid ch. listens t sid pid ch \<longrightarrow> listens s sid pid ch) \<and>
     sys_log t = sys_log s \<and> sys_produced t = sys_produced s \<and>
     set (sys_tasks s) \<subseteq> set (sys_tasks t) \<and>
     (\<forall>u \<in> set (sys_tasks t) - set (sys_tasks s). \<forall>x k. task_event u \<noteq> NewProducer x k) \<and>
     (\<forall>w \<in> set (sys_watches t). \<forall>x k. watch_event w \<noteq> NewProducer x k)"

lemma none_lost_quiet:
  assumes "none_lost tx s" and "quiet s t"
  shows "none_lost tx t"
  unfolding none_lost_def
proof (intro allI impI)
  fix sid owner prid pid ch
  assume "has_producer (sys_core t) sid owner prid" and "listens t sid pid ch" and "pid \<noteq> owner"
  then have "announced tx s sid pid ch prid \<or> announcement_due tx s sid owner prid"
    using assms unfolding none_lost_def quiet_def by blast
  then show "announced tx t sid pid ch prid \<or> announcement_due tx t sid owner prid"
    using assms(2) unfolding announced_def announcement_due_def quiet_def by auto
qed

lemma none_invented_quiet:
  assumes "none_invented tx s" and "quiet s t"
  shows "none_invented tx t"
proof -
  have eq: "sys_log t = sys_log s" "sys_produced t = sys_produced s"
    using assms(2) by (simp_all add: quiet_def)
  have old: "u \<in> set (sys_tasks s)"
    if "task_event u = NewProducer x k" and "u \<in> set (sys_tasks t)" for u x k
    using that assms(2) unfolding quiet_def by blast
  have "log_genuine tx t"
    using assms(1) by (simp add: none_invented_def log_genuine_def made_by_other_def eq)
  moreover have "tasks_genuine tx t"
    using assms(1) old unfolding none_invented_def tasks_genuine_def eq by blast
  moreover have "watches_close t"
    using assms(2) by (simp add: quiet_def watches_close_def)
  moreover have "produced_all t"
    using assms unfolding none_invented_def produced_all_def quiet_def eq by blast
  ultimately show ?thesis by (simp add: none_invented_def)
qed

lemma quiet_core_only:
  assumes "sys_inv tx s"
    and "\<And>sid owner prid. has_producer c sid owner prid \<Longrightarrow> has_producer (sys_core s) sid owner prid"
    and "\<And>sid pid ch. hm_get (senders_of c sid) pid = Some ch \<Longrightarrow>
           hm_get (senders_of (sys_core s) sid) pid = Some ch"
  shows "quiet s (s\<lparr>sys_core := c\<rparr>)"
  using assms by (simp add: quiet_def listens_def sys_inv_def none_invented_def watches_close_def)

text \<open>Set-ups without a producer spawn nothing and watch closes only.\<close>

definition no_producer_setup :: "pending_event_setup list \<Rightarrow> bool" where
  "no_producer_setup setups \<longleftrightarrow> (\<forall>p sid pid kind. PendingProducer p sid pid kind \<notin> set setups)"

lemma setup_event_handlers_watches:
  "w \<in> set (fst (setup_event_handlers tx stays setups)) \<Longrightarrow> watch_event w \<noteq> NewProducer x k"
  by (induction tx stays setups rule: setup_event_handlers.induct)
    (auto simp: setup_events_defs create_transport_closed_event_def
      create_producer_closed_event_def create_consumer_closed_event_def split: prod.splits)

lemma setup_event_handlers_tasks:
  "no_producer_setup setups \<Longrightarrow> snd (setup_event_handlers tx stays setups) = []"
  unfolding no_producer_setup_def
  by (induction tx stays setups rule: setup_event_handlers.induct)
    (fastforce split: prod.splits)+

lemma after_create_fields [simp]:
  "sys_log (after_create tx stays s r) = sys_log s"
  "sys_gone (after_create tx stays s r) = sys_gone s"
  "sys_waiting (after_create tx stays s r) = sys_waiting s"
  "sys_produced (after_create tx stays s r) = sys_produced s"
  "sys_tasks (after_create tx stays s r)
   = sys_tasks s @ snd (setup_event_handlers tx stays (pending_setups (fst r)))"
  "sys_watches (after_create tx stays s r)
   = sys_watches s @ fst (setup_event_handlers tx stays (pending_setups (fst r)))"
  by (simp_all add: after_create_def split: prod.split)

lemma quiet_after_create:
  assumes "sys_inv tx s" and "no_producer_setup (pending_setups (fst r))"
    and "\<And>sid owner prid. has_producer (snd r) sid owner prid \<Longrightarrow>
           has_producer (sys_core s) sid owner prid"
    and "senders_of (snd r) = senders_of (sys_core s)"
  shows "quiet s (after_create tx stays s r)"
  using assms setup_event_handlers_watches
  by (auto simp: quiet_def listens_def setup_event_handlers_tasks sys_inv_def none_invented_def watches_close_def)

lemma no_producer_setup_transport:
  "no_producer_setup (pending_setups (fst (create_transport ms tx c sid pid dir)))"
  using create_transport_cases [of ms tx c sid pid dir
      "fst (create_transport ms tx c sid pid dir)" "snd (create_transport ms tx c sid pid dir)"]
  by (auto simp: no_producer_setup_def pending_setups_def)

lemma no_producer_setup_consumer:
  "no_producer_setup (pending_setups (fst (create_consumer ms tx c sid pid tid prid caps)))"
  using create_consumer_cases [of ms tx c sid pid tid prid caps
      "fst (create_consumer ms tx c sid pid tid prid caps)"
      "snd (create_consumer ms tx c sid pid tid prid caps)"]
  by (auto simp: no_producer_setup_def pending_setups_def)

lemma quiet_fire:
  assumes "sys_inv tx s"
  shows "quiet s (sys_exec tx stays s (Fire i h))"
proof (cases "i < length (sys_watches s)")
  case True
  let ?w = "sys_watches s ! i"
  have ev: "watch_event ?w \<noteq> NewProducer x k" for x k
    using assms True by (simp add: sys_inv_def none_invented_def watches_close_def)
  have w': "watch_event (fst (fire h ?w)) = watch_event ?w"
    by (simp add: fire_def run_callback_def)
  have rep: "snd (fire h ?w) = Some (sid, e) \<Longrightarrow> e = watch_event ?w" for sid e
    by (auto simp: fire_def run_callback_def split: if_splits)
  have watches: "watch_event w \<noteq> NewProducer x k"
    if "w \<in> set ((sys_watches s)[i := fst (fire h ?w)])" for w x k
  proof -
    from that set_update_subset_insert [of "sys_watches s" i "fst (fire h ?w)"]
    have "w = fst (fire h ?w) \<or> w \<in> set (sys_watches s)" by blast
    then show ?thesis
      using assms w' ev unfolding sys_inv_def none_invented_def watches_close_def by metis
  qed
  obtain w r where fire: "fire h ?w = (w, r)" by fastforce
  show ?thesis
    using True watches rep ev fire
    by (cases r) (auto simp: quiet_def listens_def spawn_close_broadcast_def)
next
  case False
  with assms show ?thesis by (simp add: quiet_def sys_inv_def none_invented_def watches_close_def)
qed

text \<open>Every event but a new producer, a subscription and a task is quiet.\<close>

fun loud :: "sys_event \<Rightarrow> bool" where
  "loud (MakeProducer ms sid pid tid kind params) = True"
| "loud (Subscribe \<pi> \<rho> snd_out sid pid ch) = True"
| "loud (AbandonSubscribe k \<pi> \<rho> snd_out sid pid ch) = True"
| "loud (RunTask \<pi> try_out i) = True"
| "loud _ = False"

lemma sys_exec_quiet:
  assumes inv: "sys_inv tx s" and "\<not> loud e"
  shows "quiet s (sys_exec tx stays s e)"
proof -
  have pool: "pool_ok (router_pool (sys_core s))"
    using inv by (simp add: sys_inv_def core_inv_def)
  note core_only = quiet_core_only [OF inv]
  from assms(2) show ?thesis
  proof (cases e)
    case (Register new_id pid ptype)
    show ?thesis unfolding Register sys_exec.simps
      by (rule core_only)
        (auto dest: has_producer_register [OF pool] simp: senders_of_register [OF pool])
  next
    case (Join sid pid ptype)
    show ?thesis unfolding Join sys_exec.simps
      by (rule core_only) (auto dest: has_producer_join simp: senders_of_join)
  next
    case (SetCapabilities sid pid caps)
    show ?thesis unfolding SetCapabilities sys_exec.simps
      by (rule core_only)
        (auto dest: quiet_set_capabilities(1) simp: quiet_set_capabilities(2))
  next
    case (MakeTransport ms sid pid dir)
    show ?thesis unfolding MakeTransport sys_exec.simps
      by (rule quiet_after_create [OF inv no_producer_setup_transport quiet_transport])
  next
    case (MakeConsumer ms sid pid tid prid caps)
    show ?thesis unfolding MakeConsumer sys_exec.simps
      by (rule quiet_after_create [OF inv no_producer_setup_consumer quiet_consumer])
  next
    case (Close sid)
    show ?thesis unfolding Close sys_exec.simps
      by (rule core_only) (auto dest: has_producer_close senders_of_close)
  next
    case (Shutdown \<pi>)
    show ?thesis unfolding Shutdown sys_exec.simps shutdown_def
      by (rule core_only) (auto dest: has_producer_close_sessions senders_of_close_sessions)
  next
    case (Connect ms sid pid tid dtls)
    show ?thesis unfolding Connect sys_exec.simps
      by (rule core_only) (simp_all add: core_unchanged)
  next
    case (Resume ms sid pid cid)
    show ?thesis unfolding Resume sys_exec.simps
      by (rule core_only) (simp_all add: core_unchanged)
  next
    case (AbandonRegister j)
    show ?thesis unfolding AbandonRegister sys_exec.simps
      by (rule core_only) (simp_all add: has_producer_def senders_of_def)
  next
    case (Fire i h)
    show ?thesis unfolding Fire by (rule quiet_fire [OF inv])
  next
    case (HangUp ch)
    then show ?thesis
      using inv by (auto simp: quiet_def listens_def sys_inv_def none_invented_def watches_close_def)
  qed simp_all
qed

section \<open>A new producer\<close>

lemma has_producer_put:
  assumes "hm_get (sessions c) sid = Some st" and "hm_get (participants st) pid = Some p"
  shows "has_producer (put_participant sid st pid
           (p\<lparr>producers := hm_insert prid pr (producers p)\<rparr>) c) sid' owner prid' \<longleftrightarrow>
         has_producer c sid' owner prid' \<or> (sid' = sid \<and> owner = pid \<and> prid' = prid)"
  using assms by (auto simp: has_producer_def)

lemma make_producer_cases:
  assumes inv: "sys_inv tx s"
    and t: "t = sys_exec tx stays s (MakeProducer ms sid pid tid kind params)"
  obtains (failed) "quiet s t"
    | (made) pr where
      "\<And>sid' owner prid. has_producer (sys_core t) sid' owner prid \<longleftrightarrow>
         has_producer (sys_core s) sid' owner prid \<or>
         (sid' = sid \<and> owner = pid \<and> prid = producer_ident pr)"
      and "senders_of (sys_core t) = senders_of (sys_core s)"
      and "sys_log t = sys_log s" and "sys_gone t = sys_gone s" and "sys_waiting t = sys_waiting s"
      and "sys_produced t = sys_produced s @ [(sid, pid, producer_ident pr)]"
      and "sys_tasks t = sys_tasks s @
             [\<lparr>task_session = sid, task_event = create_new_producer_event tx (producer_ident pr) kind,
               task_exclude = Some pid\<rparr>]"
      and "sys_watches t = sys_watches s @ [setup_producer_events tx stays pr sid]"
proof -
  obtain res c' where r: "create_producer ms tx (sys_core s) sid pid tid kind params = (res, c')"
    by fastforce
  have t': "t = note_produced sid pid res (after_create tx stays s (res, c'))"
    by (simp add: t r Let_def)
  from create_producer_cases [OF r] show thesis
  proof (elim disjE exE conjE)
    fix e assume res: "res = Inl e" and c': "c' = sys_core s"
    have "quiet s (after_create tx stays s (res, c'))"
      by (rule quiet_after_create [OF inv])
        (simp_all add: res c' pending_setups_def no_producer_setup_def)
    then show thesis by (intro failed) (simp add: t' res note_produced_def)
  next
    fix pr
    assume res: "res = Inr (producer_ident pr, Some (PendingProducer pr sid pid kind))"
      and ch: "changes (sys_core s) sid pid
        (\<lambda>p p'. (\<exists>t. send_transport (transports_of p) = Some t \<and> transport_ident t = tid \<and>
                     ms_produce ms t kind params = Inr pr) \<and>
                 p' = p\<lparr>producers := hm_insert (producer_ident pr) pr (producers p)\<rparr>) c'"
    from ch obtain st p where st: "hm_get (sessions (sys_core s)) sid = Some st"
      and p: "hm_get (participants st) pid = Some p"
      and c': "c' = put_participant sid st pid
                 (p\<lparr>producers := hm_insert (producer_ident pr) pr (producers p)\<rparr>) (sys_core s)"
      unfolding changes_def by blast
    show thesis
    proof (rule made [of pr])
      show "has_producer (sys_core t) sid' owner prid \<longleftrightarrow>
         has_producer (sys_core s) sid' owner prid \<or>
         (sid' = sid \<and> owner = pid \<and> prid = producer_ident pr)" for sid' owner prid
        by (simp add: t' c' has_producer_put [OF st p])
      show "senders_of (sys_core t) = senders_of (sys_core s)"
        using senders_of_changes [OF ch] by (simp add: t')
    qed (simp_all add: t' res note_produced_def pending_setups_def)
  qed
qed

lemma sys_inv_make_producer:
  assumes inv: "sys_inv tx s"
    and t: "t = sys_exec tx stays s (MakeProducer ms sid pid tid kind params)"
  shows "none_lost tx t" and "none_invented tx t"
proof -
  from inv have lost: "none_lost tx s" and inven: "none_invented tx s"
    by (simp_all add: sys_inv_def)
  from inv t have "none_lost tx t \<and> none_invented tx t"
  proof (cases rule: make_producer_cases)
    case failed
    with lost inven none_lost_quiet none_invented_quiet show ?thesis by blast
  next
    case (made pr)
    have "none_lost tx t"
      unfolding none_lost_def
    proof (intro allI impI)
      fix sid' owner prid pid' ch
      assume a: "has_producer (sys_core t) sid' owner prid" "listens t sid' pid' ch" "pid' \<noteq> owner"
      from a(2) have "listens s sid' pid' ch" by (simp add: listens_def made)
      with a(1,3) lost
      have "announced tx s sid' pid' ch prid \<or> announcement_due tx s sid' owner prid \<or>
            (sid' = sid \<and> owner = pid \<and> prid = producer_ident pr)"
        unfolding none_lost_def made(1) by blast
      then show "announced tx t sid' pid' ch prid \<or> announcement_due tx t sid' owner prid"
        by (auto simp: announced_def announcement_due_def made create_new_producer_event_def)
    qed
    moreover have "log_genuine tx t"
      using inven by (fastforce simp: none_invented_def log_genuine_def made_by_other_def made)
    moreover have "tasks_genuine tx t"
      using inven by (fastforce simp: none_invented_def tasks_genuine_def made
          create_new_producer_event_def)
    moreover have "watches_close t"
      using inven by (auto simp: none_invented_def watches_close_def made setup_events_defs
          create_producer_closed_event_def)
    moreover have "produced_all t"
      using inven by (auto simp: none_invented_def produced_all_def made)
    ultimately show ?thesis by (simp add: none_invented_def)
  qed
  then show "none_lost tx t" and "none_invented tx t" by simp_all
qed

section \<open>A task that gets the lock\<close>

lemma sys_inv_run_task:
  assumes inv: "sys_inv tx s" and t: "t = sys_exec tx stays s (RunTask \<pi> try_out i)"
  shows "none_lost tx t" and "none_invented tx t"
proof -
  from inv have lost: "none_lost tx s" and inven: "none_invented tx s"
    and core: "core_inv (sys_core s)" by (simp_all add: sys_inv_def)
  have "none_lost tx t \<and> none_invented tx t"
  proof (cases "i < length (sys_tasks s)")
    case False
    with lost inven show ?thesis by (simp add: t)
  next
    case True
    let ?u = "sys_tasks s ! i"
    let ?sid = "task_session ?u"
    have tasks: "set (sys_tasks s) = insert ?u (set (sys_tasks t))"
      using True by (simp add: t Let_def) (metis id_take_nth_drop list.simps(15) set_append Un_insert_right)
    have same: "sys_core t = sys_core s" "sys_gone t = sys_gone s" "sys_waiting t = sys_waiting s"
      "sys_produced t = sys_produced s" "sys_watches t = sys_watches s"
      using True by (simp_all add: t Let_def)
    have log: "e \<in> set (sys_log t) \<longleftrightarrow> e \<in> set (sys_log s) \<or>
        (\<exists>pid ch. e = (?sid, pid, ch, task_event ?u, try_out pid ch (task_event ?u)) \<and>
           hm_get (senders_of (sys_core s) ?sid) pid = Some ch \<and> task_exclude ?u \<noteq> Some pid)" for e
    proof -
      let ?bs = "broadcast_event \<pi> try_out (sys_core s) ?sid (task_event ?u) (task_exclude ?u)"
      have "e \<in> set (map (\<lambda>(pid, ch, r). (?sid, pid, ch, task_event ?u, r)) ?bs) \<longleftrightarrow>
          (\<exists>pid ch r. (pid, ch, r) \<in> set ?bs \<and> e = (?sid, pid, ch, task_event ?u, r))"
        by force
      then show ?thesis
        unfolding in_broadcast_event [OF core_inv_senders_of [OF core, of ?sid]]
        using True by (auto simp: t Let_def)
    qed
    have "none_lost tx t"
      unfolding none_lost_def
    proof (intro allI impI)
      fix sid owner prid pid ch
      assume a: "has_producer (sys_core t) sid owner prid" "listens t sid pid ch" "pid \<noteq> owner"
      then have "announced tx s sid pid ch prid \<or> announcement_due tx s sid owner prid"
        using lost by (simp add: none_lost_def listens_def same)
      then show "announced tx t sid pid ch prid \<or> announcement_due tx t sid owner prid"
        using a(2,3) tasks
        by (auto simp: announced_def announcement_due_def log listens_def same) blast
    qed
    moreover have gen: "tasks_genuine tx s" "log_genuine tx s"
      using inven by (simp_all add: none_invented_def)
    from gen(1) tasks have "tasks_genuine tx t" by (simp add: tasks_genuine_def same)
    moreover have "log_genuine tx t"
      unfolding log_genuine_def
    proof (intro allI impI)
      fix sid pid ch x k r
      assume e: "(sid, pid, ch, NewProducer x k, r) \<in> set (sys_log t)"
      show "made_by_other tx t sid pid x"
      proof (cases "(sid, pid, ch, NewProducer x k, r) \<in> set (sys_log s)")
        case True
        with gen(2) show ?thesis unfolding log_genuine_def made_by_other_def same by blast
      next
        case False
        with e log have ev: "task_event ?u = NewProducer x k" "sid = ?sid" "task_exclude ?u \<noteq> Some pid"
          by auto
        moreover have "?u \<in> set (sys_tasks s)" using True by simp
        ultimately show ?thesis
          using gen(1) unfolding tasks_genuine_def made_by_other_def same by blast
      qed
    qed
    moreover have "watches_close t" and "produced_all t"
      using inven by (simp_all add: none_invented_def watches_close_def produced_all_def same)
    ultimately show ?thesis by (simp add: none_invented_def)
  qed
  then show "none_lost tx t" and "none_invented tx t" by simp_all
qed

section \<open>A subscription\<close>

lemma all_producers_has:
  assumes "core_inv c" and "hm_get (sessions c) sid = Some st"
  shows "(\<exists>kind. (prid, kind, owner) \<in> set (all_producers st)) \<longleftrightarrow> has_producer c sid owner prid"
proof -
  from assms have st: "hm_ok (participants st)"
    by (auto simp: core_inv_def sessions_ok_def session_ok_def)
  have "hm_ok (producers p)" if "hm_get (participants st) owner = Some p" for p
    using core_inv_participant [OF assms that] by (simp add: participant_ok_def)
  then show ?thesis
    using st assms(2)
    by (auto simp: in_all_producers has_producer_def hm.in_entries hm_contains_def)
qed

text \<open>
  The events of a subscription announce producers of others, and all of them if it returns.
\<close>

lemma subscribe_events:
  assumes inv: "core_inv c" and unpolled: "unpolled_channel capacity snd_out"
    and sub: "subscribe_to_events tx \<pi> \<rho> snd_out c sid pid ch = (res, c', evs)"
  shows "NewProducer x k \<in> set evs \<Longrightarrow>
      \<exists>owner prid. has_producer c sid owner prid \<and> owner \<noteq> pid \<and> x = producer_id_proto tx prid"
    and "res \<noteq> Blocked \<Longrightarrow> has_producer c sid owner prid \<Longrightarrow> owner \<noteq> pid \<Longrightarrow>
      \<exists>k. NewProducer (producer_id_proto tx prid) k \<in> set evs"
proof -
  consider (none) "hm_get (sessions c) sid = None"
    | (full) st where "hm_get (sessions c) sid = Some st" "snd_out 0 = SendPending"
    | (ok) st where "hm_get (sessions c) sid = Some st" "snd_out 0 = SendOk" "0 < capacity"
    using unpolled by (cases "hm_get (sessions c) sid"; cases "0 < capacity")
      (auto simp: unpolled_channel_def)
  then have "(NewProducer x k \<in> set evs \<longrightarrow>
      (\<exists>owner prid. has_producer c sid owner prid \<and> owner \<noteq> pid \<and> x = producer_id_proto tx prid)) \<and>
    (res \<noteq> Blocked \<longrightarrow> has_producer c sid owner prid \<longrightarrow> owner \<noteq> pid \<longrightarrow>
      (\<exists>k. NewProducer (producer_id_proto tx prid) k \<in> set evs))"
  proof cases
    case none
    with sub show ?thesis
      by (auto simp: subscribe_to_events_def hm_contains_def has_producer_def)
  next
    case (full st)
    with sub show ?thesis
      by (auto simp: subscribe_to_events_def hm_contains_def Let_def)
  next
    case (ok st)
    obtain l where l: "mset l = mset (all_producers st)"
      and eq: "(res, c', evs) =
      (case fst (send_existing tx snd_out 1 pid l) of
         Blocked \<Rightarrow> Blocked | Done _ \<Rightarrow> Done (Inr ()),
       subscribed c sid pid ch,
       SubscriptionConfirmed (uuid_text tx sid) # snd (send_existing tx snd_out 1 pid l))"
      using subscribe_to_events_eq [of c sid st snd_out, OF ok(1,2)] sub by metis
    have set: "set l = set (all_producers st)" using l by (metis set_mset_mset)
    have one: "1 \<le> capacity" using ok(3) by simp
    note sent = send_existing_unpolled [OF unpolled one, of tx pid l]
    note has = all_producers_has [OF inv ok(1)]
    have "NewProducer x k \<in> set evs \<Longrightarrow>
        \<exists>owner prid. has_producer c sid owner prid \<and> owner \<noteq> pid \<and> x = producer_id_proto tx prid"
      using eq send_existing_subset [of tx snd_out 1 pid l]
      by (fastforce simp: announce_def producers_of_others_def set create_new_producer_event_def
          simp flip: has)
    moreover have "\<exists>k. NewProducer (producer_id_proto tx prid) k \<in> set evs"
      if "res \<noteq> Blocked" and hp: "has_producer c sid owner prid" and "owner \<noteq> pid"
    proof -
      from hp has obtain kind where "(prid, kind, owner) \<in> set l" by (auto simp: set)
      then have "create_new_producer_event tx prid kind \<in> set (announce tx (producers_of_others pid l))"
        using \<open>owner \<noteq> pid\<close> by (force simp: announce_def producers_of_others_def)
      moreover from that(1) eq sent
      have "set (announce tx (producers_of_others pid l)) \<subseteq> set evs"
        by (auto split: if_splits)
      ultimately show ?thesis by (auto simp: create_new_producer_event_def)
    qed
    ultimately show ?thesis by blast
  qed
  then show "NewProducer x k \<in> set evs \<Longrightarrow>
      \<exists>owner prid. has_producer c sid owner prid \<and> owner \<noteq> pid \<and> x = producer_id_proto tx prid"
    and "res \<noteq> Blocked \<Longrightarrow> has_producer c sid owner prid \<Longrightarrow> owner \<noteq> pid \<Longrightarrow>
      \<exists>k. NewProducer (producer_id_proto tx prid) k \<in> set evs"
    by blast+
qed

lemma listens_subscribed:
  "hm_get (senders_of (subscribed c sid pid ch) sid') pid' =
   (if sid' = sid \<and> pid' = pid then Some ch else hm_get (senders_of c sid') pid')"
  by (simp add: senders_of_def subscribed_def)

text \<open>
  The subscription may return, may be stuck, or may be dropped after the sends \<open>evs\<close>: in the last
  two cases the participant does not listen on the new channel.
\<close>

lemma sys_inv_subscribe:
  assumes inv: "sys_inv tx s" and free: "sys_waiting s = None"
    and unpolled: "unpolled_channel capacity snd_out"
    and sub: "subscribe_to_events tx \<pi> \<rho> snd_out (sys_core s) sid pid ch = (res, c', evs)"
    and fields: "sys_core t = c'" "sys_produced t = sys_produced s" "sys_watches t = sys_watches s"
      "sys_tasks t = sys_tasks s" "sys_log t = sys_log s @ map (\<lambda>ev. (sid, pid, ch, ev, TryOk)) evs"
      "set (sys_gone s) \<subseteq> set (sys_gone t)"
    and silent: "res = Blocked \<Longrightarrow> ch \<in> set (sys_gone t) \<or> sys_waiting t = Some ch"
  shows "none_lost tx t" and "none_invented tx t"
proof -
  from inv have lost: "none_lost tx s" and inven: "none_invented tx s"
    and core: "core_inv (sys_core s)" by (simp_all add: sys_inv_def)
  note events = subscribe_events [OF core unpolled sub]
  have c': "c' = (if hm_contains (sessions (sys_core s)) sid
                  then subscribed (sys_core s) sid pid ch else sys_core s)"
    using subscribe_to_events_core [of tx \<pi> \<rho> snd_out "sys_core s" sid pid ch] sub by simp
  have has: "has_producer c' = has_producer (sys_core s)"
    by (simp add: c' fun_eq_iff has_producer_def subscribed_def)
  have "none_lost tx t"
    unfolding none_lost_def
  proof (intro allI impI)
    fix sid' owner prid pid' ch'
    assume a: "has_producer (sys_core t) sid' owner prid" "listens t sid' pid' ch'" "pid' \<noteq> owner"
    show "announced tx t sid' pid' ch' prid \<or> announcement_due tx t sid' owner prid"
    proof (cases "listens s sid' pid' ch'")
      case True
      with a lost have "announced tx s sid' pid' ch' prid \<or> announcement_due tx s sid' owner prid"
        by (simp add: none_lost_def fields has)
      then show ?thesis by (auto simp: announced_def announcement_due_def fields)
    next
      case False
      with a(2) free fields(6) have new: "sid' = sid" "pid' = pid" "ch' = ch"
        by (auto simp: listens_def fields(1) c' listens_subscribed split: if_splits)
      with a(2) silent have "res \<noteq> Blocked" by (auto simp: listens_def)
      with events(2) a new obtain k where "NewProducer (producer_id_proto tx prid) k \<in> set evs"
        by (auto simp: fields has)
      then show ?thesis using new by (auto simp: announced_def fields)
    qed
  qed
  moreover have "log_genuine tx t"
    unfolding log_genuine_def
  proof (intro allI impI)
    fix sid' pid' ch' x k r
    assume "(sid', pid', ch', NewProducer x k, r) \<in> set (sys_log t)"
    then consider "(sid', pid', ch', NewProducer x k, r) \<in> set (sys_log s)"
      | "sid' = sid" "pid' = pid" "NewProducer x k \<in> set evs"
      by (auto simp: fields)
    then show "made_by_other tx t sid' pid' x"
    proof cases
      case 1
      with inven show ?thesis
        unfolding none_invented_def log_genuine_def made_by_other_def fields by blast
    next
      case 2
      with events(1) inven show ?thesis
        unfolding none_invented_def produced_all_def made_by_other_def fields by blast
    qed
  qed
  moreover have "tasks_genuine tx t" and "watches_close t" and "produced_all t"
    using inven
    by (simp_all add: none_invented_def tasks_genuine_def watches_close_def produced_all_def fields has)
  ultimately show "none_lost tx t" and "none_invented tx t" by (simp_all add: none_invented_def)
qed

section \<open>Every event keeps the invariants\<close>

lemma sys_exec_inv:
  assumes "sys_inv tx s" and "sys_enabled capacity s e"
  shows "sys_inv tx (sys_exec tx stays s e)"
proof -
  let ?t = "sys_exec tx stays s e"
  have "none_lost tx ?t \<and> none_invented tx ?t"
  proof (cases "loud e")
    case True
    then show ?thesis
    proof (cases e)
      case (MakeProducer ms sid pid tid kind params)
      then show ?thesis using sys_inv_make_producer [OF assms(1) refl] by blast
    next
      case (Subscribe \<pi> \<rho> snd_out sid pid ch)
      obtain res c' evs where "subscribe_to_events tx \<pi> \<rho> snd_out (sys_core s) sid pid ch = (res, c', evs)"
        by (metis prod.exhaust)
      with Subscribe assms(2) sys_inv_subscribe [OF assms(1) _ _ this, of capacity ?t] show ?thesis
        by simp
    next
      case (AbandonSubscribe k \<pi> \<rho> snd_out sid pid ch)
      obtain res c' evs where "subscribe_to_events tx \<pi> \<rho> snd_out (sys_core s) sid pid ch = (res, c', evs)"
        by (metis prod.exhaust)
      with AbandonSubscribe assms(2) sys_inv_subscribe [OF assms(1) _ _ this, of k ?t] show ?thesis
        by (auto simp: subset_insertI)
    next
      case (RunTask \<pi> try_out i)
      then show ?thesis using sys_inv_run_task [OF assms(1) refl] by blast
    qed simp_all
  next
    case False
    from sys_exec_quiet [OF assms(1) False, of stays] assms(1) show ?thesis
      using none_lost_quiet none_invented_quiet unfolding sys_inv_def by blast
  qed
  then show ?thesis
    using assms sys_exec_core_inv [OF assms(2)] by (simp add: sys_inv_def)
qed

lemma sys_inv_start: "core_start c \<Longrightarrow> sys_inv tx (sys_start c)"
  by (auto simp: sys_inv_def core.start_inv none_lost_def none_invented_def log_genuine_def
      tasks_genuine_def watches_close_def produced_all_def has_producer_def sys_start_def
      core_start_def sfu_core_new_def)

definition sys_initial :: "system \<Rightarrow> bool" where
  "sys_initial s \<longleftrightarrow> (\<exists>c. core_start c \<and> s = sys_start c)"

interpretation sys: invariant_system sys_initial "sys_step tx stays capacity" "sys_inv tx"
  for tx stays capacity
  by unfold_locales (auto simp: sys_initial_def sys_step_iff intro: sys_inv_start sys_exec_inv)

lemma sys_reachable_inv: "sys_reachable tx stays capacity s \<Longrightarrow> sys_inv tx s"
  unfolding sys_reachable_def by (blast intro: sys.reachable_inv sys_initial_def [THEN iffD2])

lemma sys_reachable_core: "sys_reachable tx stays capacity s \<Longrightarrow> core_inv (sys_core s)"
  using sys_reachable_inv by (auto simp: sys_inv_def)

text \<open>A list of enabled events is a run.\<close>

lemma sys_run_steps:
  "sys_all_enabled tx stays capacity s es \<Longrightarrow>
   (sys_step tx stays capacity)\<^sup>*\<^sup>* s (sys_run tx stays s es)"
  by (induction es arbitrary: s)
    (auto intro: converse_rtranclp_into_rtranclp sys_step.event)

lemma sys_run_reachable:
  "core_start c \<Longrightarrow> sys_all_enabled tx stays capacity (sys_start c) es \<Longrightarrow>
   sys_reachable tx stays capacity (sys_run tx stays (sys_start c) es)"
  unfolding sys_reachable_def using sys_run_steps by blast

end
