(* ===== verification/Grpc_Handler.thy ===== *)
theory Grpc_Handler
  imports Sfu_Delivery
begin

text \<open>
  \<open>src/grpc/handler.rs\<close>: the gRPC service. Every method has the same shape, \<open>serve\<close>: decode and
  validate the request, run one operation of the core under the lock, register callbacks and spawn
  tasks for what it created, convert the result into the response. The protocol messages are
  generated code: they appear here with the fields the source reads, and their conversions are
  the parameter \<open>cv\<close>.
\<close>

section \<open>Data\<close>

datatype status = InvalidArgument string | Internal string

datatype transport_direction = DirSend | DirRecv | DirUnspecified

datatype proto_media_kind = ProtoMediaKind i32
datatype proto_rtp_capabilities = ProtoRtpCapabilities nat
datatype proto_rtp_parameters = ProtoRtpParameters nat
datatype proto_dtls_parameters = ProtoDtlsParameters nat
datatype proto_ice_candidate = ProtoIceCandidate nat
datatype proto_ice_parameters = ProtoIceParameters nat

text \<open>
  The payloads of a request. An identifier message is an optional string, its \<open>id\<close> field; an
  enum is its number. \<open>OtherRequest\<close> is any payload the source does not match.
\<close>

datatype request_data =
    JoinSessionRequest "string option" "string option" i32
  | GetRouterRtpCapabilitiesRequest "string option"
  | SetRtpCapabilitiesRequest "string option" "proto_rtp_capabilities option"
  | CreateTransportRequest "string option" i32
  | ConnectTransportRequest "string option" "string option" "proto_dtls_parameters option"
  | CreateProducerRequest "string option" "string option" i32 "proto_rtp_parameters option"
  | CreateConsumerRequest "string option" "string option" "string option"
      "proto_rtp_capabilities option"
  | ResumeConsumerRequest "string option" "string option"
  | CloseSessionRequest "string option"
  | SubscribeToEventsRequest "string option"
  | OtherRequest

record request_envelope =
  req_session_id :: string
  req_participant_id :: string
  req_data :: "request_data option"

record consumer_info =
  info_id :: string
  info_producer_id :: string
  info_kind :: i32
  info_rtp_parameters :: proto_rtp_parameters

text \<open>The payloads of a response; the list of a registration is \<open>ice_servers\<close>.\<close>

datatype response_data =
    RegisterSessionResponse string "string list"
  | JoinSessionResponse
  | GetRouterRtpCapabilitiesResponse proto_rtp_capabilities
  | SetRtpCapabilitiesResponse
  | CreateTransportResponse "proto_ice_candidate list" string proto_dtls_parameters
      proto_ice_parameters
  | ConnectTransportResponse
  | CreateProducerResponse string
  | CreateConsumerResponse consumer_info
  | ResumeConsumerResponse
  | CloseSessionResponse

record response_envelope =
  resp_type :: string
  resp_session_id :: string
  resp_participant_id :: string
  resp_data :: response_data

text \<open>
  Parsing and conversions of the libraries. An error carries its \<open>Display\<close> text where the source
  shows it, and is \<^const>\<open>None\<close> where the source drops it.
\<close>

record conversions =
  cv_parse_uuid :: "string \<Rightarrow> string + uuid"
  cv_parse_transport_id :: "string \<Rightarrow> string + transport_id"
  cv_parse_producer_id :: "string \<Rightarrow> string + producer_id"
  cv_parse_consumer_id :: "string \<Rightarrow> string + consumer_id"
  cv_participant_type :: "i32 \<Rightarrow> participant_type option"
  cv_direction :: "i32 \<Rightarrow> transport_direction option"
  cv_media_kind :: "i32 \<Rightarrow> proto_media_kind option"
  cv_media_kind_in :: "proto_media_kind \<Rightarrow> media_kind option"
  cv_capabilities_in :: "proto_rtp_capabilities \<Rightarrow> string + rtp_capabilities"
  cv_capabilities_out :: "rtp_capabilities_finalized \<Rightarrow> string + proto_rtp_capabilities"
  cv_parameters_in :: "proto_rtp_parameters \<Rightarrow> string + rtp_parameters"
  cv_parameters_out :: "rtp_parameters \<Rightarrow> string + proto_rtp_parameters"
  cv_dtls_in :: "proto_dtls_parameters \<Rightarrow> string + dtls_parameters"
  cv_dtls_out :: "dtls_parameters \<Rightarrow> proto_dtls_parameters option"
  cv_candidate_out :: "ice_candidate \<Rightarrow> proto_ice_candidate option"
  cv_ice_out :: "ice_parameters \<Rightarrow> proto_ice_parameters"

section \<open>Shared steps\<close>

text \<open>The \<open>?\<close> operator: continue with the value or return the error.\<close>

definition and_then :: "'e + 'a \<Rightarrow> ('a \<Rightarrow> 'e + 'b) \<Rightarrow> 'e + 'b" where
  "and_then r f = (case r of Inl e \<Rightarrow> Inl e | Inr a \<Rightarrow> f a)"

definition required :: "string \<Rightarrow> 'a option \<Rightarrow> status + 'a" where
  "required msg opt = ok_or (InvalidArgument msg) opt"

definition parsed :: "string \<Rightarrow> string + 'a \<Rightarrow> status + 'a" where
  "parsed msg r = map_err (\<lambda>e. InvalidArgument (msg @ e)) r"

definition converted :: "string \<Rightarrow> string + 'a \<Rightarrow> status + 'a" where
  "converted msg r = map_err (\<lambda>e. Internal (msg @ e)) r"

definition invalid_type :: "status + 'a" where
  "invalid_type = Inl (InvalidArgument ''Invalid request type'')"

definition session_id_of :: "conversions \<Rightarrow> string option \<Rightarrow> status + uuid" where
  "session_id_of cv sid =
     and_then (required ''Session id is required'' sid)
       (\<lambda>text. parsed ''Invalid session id format: '' (cv_parse_uuid cv text))"

definition transport_id_of :: "conversions \<Rightarrow> string option \<Rightarrow> status + transport_id" where
  "transport_id_of cv tid =
     and_then (required ''Transport id is required'' tid)
       (\<lambda>text. parsed ''Invalid transport id format: '' (cv_parse_transport_id cv text))"

definition reply :: "string \<Rightarrow> request_envelope \<Rightarrow> response_data \<Rightarrow> response_envelope" where
  "reply kind req data =
     \<lparr>resp_type = kind, resp_session_id = req_session_id req,
      resp_participant_id = req_participant_id req, resp_data = data\<rparr>"

text \<open>
  The shape of a method: the decoded request, the core operation under the lock, the text in
  front of its error, the set-ups it asks for, and the conversion of its result. The result is
  the status or response, the core, and what was registered and spawned.
\<close>

definition serve ::
  "status + 'a \<Rightarrow> ('a \<Rightarrow> sfu_core \<Rightarrow> (session_error + 'b) \<times> sfu_core) \<Rightarrow> string \<Rightarrow>
   ('b \<Rightarrow> close_watch list \<times> broadcast_task list) \<Rightarrow> ('b \<Rightarrow> status + response_envelope) \<Rightarrow>
   sfu_core \<Rightarrow>
   (status + response_envelope) \<times> sfu_core \<times> close_watch list \<times> broadcast_task list" where
  "serve decoded call msg setups respond c =
     (case decoded of
        Inl e \<Rightarrow> (Inl e, c, [], [])
      | Inr a \<Rightarrow>
          (case call a c of
             (res, c') \<Rightarrow>
               (case map_err (\<lambda>e. Internal (msg @ session_error_text e)) res of
                  Inl e \<Rightarrow> (Inl e, c', [], [])
                | Inr b \<Rightarrow> (case setups b of (ws, ts) \<Rightarrow> (respond b, c', ws, ts)))))"

definition no_setups :: "'b \<Rightarrow> close_watch list \<times> broadcast_task list" where
  "no_setups b = ([], [])"

text \<open>\<open>if let Some(setup) = pending_setup { self.setup_event_handlers(vec![setup]) }\<close>\<close>

definition setups_of ::
  "texts \<Rightarrow> (hook \<Rightarrow> bool) \<Rightarrow> 'b \<times> pending_event_setup option \<Rightarrow>
   close_watch list \<times> broadcast_task list" where
  "setups_of tx stays r =
     (case snd r of
        Some setup \<Rightarrow> setup_event_handlers tx stays [setup]
      | None \<Rightarrow> ([], []))"

text \<open>The service object: the shared core and the capacity of the channels it creates.\<close>

record sfu_handler =
  handler_core :: sfu_core
  handler_channel_capacity :: nat

definition sfu_handler_new :: "sfu_core \<Rightarrow> nat \<Rightarrow> sfu_handler" where
  "sfu_handler_new c capacity = \<lparr>handler_core = c, handler_channel_capacity = capacity\<rparr>"

section \<open>The methods\<close>

definition rpc_register_session ::
  "texts \<Rightarrow> uuid \<Rightarrow> request_envelope \<Rightarrow> sfu_core \<Rightarrow>
   (status + response_envelope) panics \<times> sfu_core" where
  "rpc_register_session tx new_id req c =
     (if req_participant_id req = ''''
      then (Returned (Inl (InvalidArgument ''Participant ID is required'')), c)
      else
        (case register_session new_id c (req_participant_id req) User of
           (Panicked, c') \<Rightarrow> (Panicked, c')
         | (Returned (Inl e), c') \<Rightarrow>
             (Returned (Inl (Internal (''Failed to register session: '' @ session_error_text e))), c')
         | (Returned (Inr data), c') \<Rightarrow>
             (Returned (Inr
                \<lparr>resp_type = ''register_session'',
                 resp_session_id = uuid_text tx (reg_session_id data),
                 resp_participant_id = req_participant_id req,
                 resp_data = RegisterSessionResponse (uuid_text tx (reg_session_id data)) []\<rparr>), c')))"

definition decode_join ::
  "conversions \<Rightarrow> request_envelope \<Rightarrow> status + uuid \<times> string \<times> participant_type" where
  "decode_join cv req =
     (case req_data req of
        Some (JoinSessionRequest sid pid ptype) \<Rightarrow>
          and_then (session_id_of cv sid) (\<lambda>s.
          and_then (required ''Participant id is required'' pid) (\<lambda>p.
          and_then (required ''Invalid participant type'' (cv_participant_type cv ptype)) (\<lambda>t.
            Inr (s, p, t))))
      | _ \<Rightarrow> invalid_type)"

definition rpc_join_session ::
  "texts \<Rightarrow> conversions \<Rightarrow> request_envelope \<Rightarrow> sfu_core \<Rightarrow>
   (status + response_envelope) \<times> sfu_core \<times> close_watch list \<times> broadcast_task list" where
  "rpc_join_session tx cv req =
     serve (decode_join cv req) (\<lambda>(s, p, t) c. join_session tx c s p t)
       ''Failed to join session: '' no_setups
       (\<lambda>_. Inr (reply ''join_session'' req JoinSessionResponse))"

definition decode_get_capabilities :: "conversions \<Rightarrow> request_envelope \<Rightarrow> status + uuid" where
  "decode_get_capabilities cv req =
     (case req_data req of
        Some (GetRouterRtpCapabilitiesRequest sid) \<Rightarrow> session_id_of cv sid
      | _ \<Rightarrow> invalid_type)"

definition rpc_get_router_rtp_capabilities ::
  "texts \<Rightarrow> conversions \<Rightarrow> request_envelope \<Rightarrow> sfu_core \<Rightarrow>
   (status + response_envelope) \<times> sfu_core \<times> close_watch list \<times> broadcast_task list" where
  "rpc_get_router_rtp_capabilities tx cv req =
     serve (decode_get_capabilities cv req) (\<lambda>s c. (get_router_rtp_capabilities tx c s, c))
       ''Failed to get RTP capabilities: '' no_setups
       (\<lambda>caps. and_then
          (converted ''Failed to convert RTP capabilities: '' (cv_capabilities_out cv caps))
          (\<lambda>out. Inr (reply ''get_router_rtp_capabilities'' req
                       (GetRouterRtpCapabilitiesResponse out))))"

definition decode_set_capabilities ::
  "conversions \<Rightarrow> request_envelope \<Rightarrow> status + uuid \<times> rtp_capabilities" where
  "decode_set_capabilities cv req =
     (case req_data req of
        Some (SetRtpCapabilitiesRequest sid caps) \<Rightarrow>
          and_then (session_id_of cv sid) (\<lambda>s.
          and_then (required ''RTP capabilities are required'' caps) (\<lambda>raw.
          and_then (converted ''Failed to convert RTP capabilities: ''
                      (cv_capabilities_in cv raw)) (\<lambda>cs.
            Inr (s, cs))))
      | _ \<Rightarrow> invalid_type)"

definition rpc_set_rtp_capabilities ::
  "texts \<Rightarrow> conversions \<Rightarrow> request_envelope \<Rightarrow> sfu_core \<Rightarrow>
   (status + response_envelope) \<times> sfu_core \<times> close_watch list \<times> broadcast_task list" where
  "rpc_set_rtp_capabilities tx cv req =
     serve (decode_set_capabilities cv req)
       (\<lambda>(s, caps) c. set_rtp_capabilities tx c s (req_participant_id req) caps)
       ''Failed to set RTP capabilities: '' no_setups
       (\<lambda>_. Inr (reply ''set_rtp_capabilities'' req SetRtpCapabilitiesResponse))"

definition decode_create_transport ::
  "conversions \<Rightarrow> request_envelope \<Rightarrow> status + uuid \<times> string" where
  "decode_create_transport cv req =
     (case req_data req of
        Some (CreateTransportRequest sid direction) \<Rightarrow>
          and_then (session_id_of cv sid) (\<lambda>s.
          and_then (required ''Invalid transport direction'' (cv_direction cv direction)) (\<lambda>d.
            case d of
              DirSend \<Rightarrow> Inr (s, ''send'')
            | DirRecv \<Rightarrow> Inr (s, ''recv'')
            | DirUnspecified \<Rightarrow>
                Inl (InvalidArgument ''Transport direction cannot be unspecified'')))
      | _ \<Rightarrow> invalid_type)"

text \<open>\<open>collect::<Result<Vec<_>, _>>()\<close>: all conversions, or none.\<close>

fun collect_options :: "'a option list \<Rightarrow> 'a list option" where
  "collect_options [] = Some []"
| "collect_options (None # xs) = None"
| "collect_options (Some a # xs) = map_option (Cons a) (collect_options xs)"

definition rpc_create_transport ::
  "mediasoup \<Rightarrow> texts \<Rightarrow> conversions \<Rightarrow> (hook \<Rightarrow> bool) \<Rightarrow> request_envelope \<Rightarrow> sfu_core \<Rightarrow>
   (status + response_envelope) \<times> sfu_core \<times> close_watch list \<times> broadcast_task list" where
  "rpc_create_transport ms tx cv stays req =
     serve (decode_create_transport cv req)
       (\<lambda>(s, direction) c. create_transport ms tx c s (req_participant_id req) direction)
       ''Failed to create transport: '' (setups_of tx stays)
       (\<lambda>(data, _).
          and_then (ok_or (Internal ''Failed to convert ICE candidates'')
                      (collect_options (map (cv_candidate_out cv) (ct_ice_candidates data))))
            (\<lambda>candidates.
          and_then (ok_or (Internal ''Failed to convert DTLS parameters'')
                      (cv_dtls_out cv (ct_dtls_parameters data)))
            (\<lambda>dtls.
            Inr (reply ''create_transport'' req
                  (CreateTransportResponse candidates
                     (transport_id_proto tx (ct_transport_id data)) dtls
                     (cv_ice_out cv (ct_ice_parameters data)))))))"

definition decode_connect_transport ::
  "conversions \<Rightarrow> request_envelope \<Rightarrow> status + uuid \<times> transport_id \<times> dtls_parameters" where
  "decode_connect_transport cv req =
     (case req_data req of
        Some (ConnectTransportRequest sid tid dtls) \<Rightarrow>
          and_then (session_id_of cv sid) (\<lambda>s.
          and_then (transport_id_of cv tid) (\<lambda>t.
          and_then (required ''DTLS parameters are required'' dtls) (\<lambda>raw.
          and_then (converted ''Failed to convert DTLS parameters: '' (cv_dtls_in cv raw)) (\<lambda>d.
            Inr (s, t, d)))))
      | _ \<Rightarrow> invalid_type)"

definition rpc_connect_transport ::
  "mediasoup \<Rightarrow> texts \<Rightarrow> conversions \<Rightarrow> request_envelope \<Rightarrow> sfu_core \<Rightarrow>
   (status + response_envelope) \<times> sfu_core \<times> close_watch list \<times> broadcast_task list" where
  "rpc_connect_transport ms tx cv req =
     serve (decode_connect_transport cv req)
       (\<lambda>(s, t, d) c. connect_transport ms tx c s (req_participant_id req) t d)
       ''Failed to connect transport: '' no_setups
       (\<lambda>_. Inr (reply ''connect_transport'' req ConnectTransportResponse))"

definition decode_create_producer ::
  "conversions \<Rightarrow> request_envelope \<Rightarrow>
   status + uuid \<times> transport_id \<times> media_kind \<times> rtp_parameters" where
  "decode_create_producer cv req =
     (case req_data req of
        Some (CreateProducerRequest sid tid kind params) \<Rightarrow>
          and_then (session_id_of cv sid) (\<lambda>s.
          and_then (transport_id_of cv tid) (\<lambda>t.
          and_then (required ''Invalid media kind'' (cv_media_kind cv kind)) (\<lambda>pk.
          and_then (required ''Failed to convert media kind'' (cv_media_kind_in cv pk)) (\<lambda>k.
          and_then (required ''RTP parameters are required'' params) (\<lambda>raw.
          and_then (converted ''Failed to convert RTP parameters: ''
                      (cv_parameters_in cv raw)) (\<lambda>ps.
            Inr (s, t, k, ps)))))))
      | _ \<Rightarrow> invalid_type)"

definition rpc_create_producer ::
  "mediasoup \<Rightarrow> texts \<Rightarrow> conversions \<Rightarrow> (hook \<Rightarrow> bool) \<Rightarrow> request_envelope \<Rightarrow> sfu_core \<Rightarrow>
   (status + response_envelope) \<times> sfu_core \<times> close_watch list \<times> broadcast_task list" where
  "rpc_create_producer ms tx cv stays req =
     serve (decode_create_producer cv req)
       (\<lambda>(s, t, k, ps) c. create_producer ms tx c s (req_participant_id req) t k ps)
       ''Failed to create producer: '' (setups_of tx stays)
       (\<lambda>(prid, _). Inr (reply ''create_producer'' req
                           (CreateProducerResponse (producer_id_text tx prid))))"

definition decode_create_consumer ::
  "conversions \<Rightarrow> request_envelope \<Rightarrow>
   status + uuid \<times> transport_id \<times> producer_id \<times> rtp_capabilities" where
  "decode_create_consumer cv req =
     (case req_data req of
        Some (CreateConsumerRequest sid tid prid caps) \<Rightarrow>
          and_then (session_id_of cv sid) (\<lambda>s.
          and_then (transport_id_of cv tid) (\<lambda>t.
          and_then (required ''Producer id is required'' prid) (\<lambda>text.
          and_then (parsed ''Invalid producer id format: '' (cv_parse_producer_id cv text)) (\<lambda>p.
          and_then (required ''RTP capabilities are required'' caps) (\<lambda>raw.
          and_then (converted ''Failed to convert RTP capabilities: ''
                      (cv_capabilities_in cv raw)) (\<lambda>cs.
            Inr (s, t, p, cs)))))))
      | _ \<Rightarrow> invalid_type)"

definition rpc_create_consumer ::
  "mediasoup \<Rightarrow> texts \<Rightarrow> conversions \<Rightarrow> (hook \<Rightarrow> bool) \<Rightarrow> request_envelope \<Rightarrow> sfu_core \<Rightarrow>
   (status + response_envelope) \<times> sfu_core \<times> close_watch list \<times> broadcast_task list" where
  "rpc_create_consumer ms tx cv stays req =
     serve (decode_create_consumer cv req)
       (\<lambda>(s, t, p, cs) c. create_consumer ms tx c s (req_participant_id req) t p cs)
       ''Failed to create consumer: '' (setups_of tx stays)
       (\<lambda>(co, _).
          and_then (converted ''Failed to convert RTP parameters: ''
                      (cv_parameters_out cv (consumer_rtp_parameters co)))
            (\<lambda>params.
            Inr (reply ''create_consumer'' req
                  (CreateConsumerResponse
                     \<lparr>info_id = consumer_id_text tx (consumer_ident co),
                      info_producer_id = producer_id_text tx (consumer_producer co),
                      info_kind = media_kind_proto tx (consumer_kind co),
                      info_rtp_parameters = params\<rparr>))))"

definition decode_resume_consumer ::
  "conversions \<Rightarrow> request_envelope \<Rightarrow> status + uuid \<times> consumer_id" where
  "decode_resume_consumer cv req =
     (case req_data req of
        Some (ResumeConsumerRequest sid cid) \<Rightarrow>
          and_then (session_id_of cv sid) (\<lambda>s.
          and_then (required ''Consumer id is required'' cid) (\<lambda>text.
          and_then (parsed ''Invalid consumer id format: '' (cv_parse_consumer_id cv text)) (\<lambda>i.
            Inr (s, i))))
      | _ \<Rightarrow> invalid_type)"

definition rpc_resume_consumer ::
  "mediasoup \<Rightarrow> texts \<Rightarrow> conversions \<Rightarrow> request_envelope \<Rightarrow> sfu_core \<Rightarrow>
   (status + response_envelope) \<times> sfu_core \<times> close_watch list \<times> broadcast_task list" where
  "rpc_resume_consumer ms tx cv req =
     serve (decode_resume_consumer cv req)
       (\<lambda>(s, i) c. resume_consumer ms tx c s (req_participant_id req) i)
       ''Failed to resume consumer: '' no_setups
       (\<lambda>_. Inr (reply ''resume_consumer'' req ResumeConsumerResponse))"

definition decode_close_session :: "conversions \<Rightarrow> request_envelope \<Rightarrow> status + uuid" where
  "decode_close_session cv req =
     (case req_data req of
        Some (CloseSessionRequest sid) \<Rightarrow> session_id_of cv sid
      | _ \<Rightarrow> invalid_type)"

definition rpc_close_session ::
  "conversions \<Rightarrow> request_envelope \<Rightarrow> sfu_core \<Rightarrow>
   (status + response_envelope) \<times> sfu_core \<times> close_watch list \<times> broadcast_task list" where
  "rpc_close_session cv req =
     serve (decode_close_session cv req) (\<lambda>s c. (Inr (), close_session s c)) '''' no_setups
       (\<lambda>_. Inr (reply ''close_session'' req CloseSessionResponse))"

definition decode_subscribe :: "conversions \<Rightarrow> request_envelope \<Rightarrow> status + uuid" where
  "decode_subscribe cv req =
     (case req_data req of
        Some (SubscribeToEventsRequest sid) \<Rightarrow> session_id_of cv sid
      | _ \<Rightarrow> invalid_type)"

text \<open>
  \<open>channel\<close> is \<open>mpsc::channel\<close>, which tokio lets panic for a capacity of zero and for one above its
  limit (\<^const>\<open>channel_ok\<close>); the receiver is handed out only with the response.
\<close>

definition rpc_subscribe_to_events ::
  "texts \<Rightarrow> conversions \<Rightarrow> (nat \<Rightarrow> sender panics) \<Rightarrow> hash_seed \<Rightarrow> (string \<Rightarrow> hash_seed) \<Rightarrow>
   (nat \<Rightarrow> send_outcome) \<Rightarrow> nat \<Rightarrow> request_envelope \<Rightarrow> sfu_core \<Rightarrow>
   (status + sender) awaited panics \<times> sfu_core \<times> sfu_event list" where
  "rpc_subscribe_to_events tx cv channel \<pi> \<rho> snd_out capacity req c =
     (case decode_subscribe cv req of
        Inl e \<Rightarrow> (Returned (Done (Inl e)), c, [])
      | Inr s \<Rightarrow>
          (case channel capacity of
             Panicked \<Rightarrow> (Panicked, c, [])
           | Returned ch \<Rightarrow>
               (case subscribe_to_events tx \<pi> \<rho> snd_out c s (req_participant_id req) ch of
                  (Blocked, c', evs) \<Rightarrow> (Returned Blocked, c', evs)
                | (Done (Inl e), c', evs) \<Rightarrow>
                    (Returned (Done (Inl (Internal
                       (''Failed to subscribe to events: '' @ session_error_text e)))), c', evs)
                | (Done (Inr _), c', evs) \<Rightarrow> (Returned (Done (Inr ch)), c', evs))))"

section \<open>The contract of a core operation with the handlers\<close>

text \<open>
  What a method relies on when it calls the core: the invariant is kept, and a call that fails
  leaves the core as it was.
\<close>

locale core_call =
  fixes call :: "'a \<Rightarrow> sfu_core \<Rightarrow> (session_error + 'b) \<times> sfu_core"
  assumes call_inv: "core_inv c \<Longrightarrow> core_inv (snd (call a c))"
    and call_err: "fst (call a c) = Inl e \<Longrightarrow> snd (call a c) = c"
begin

lemma serve_keeps_inv:
  "core_inv c \<Longrightarrow> core_inv (fst (snd (serve decoded call msg setups respond c)))"
  using call_inv by (auto simp: serve_def split: sum.split prod.split) (metis snd_conv)+

lemma serve_rejected:
  assumes "fst (serve decoded call msg setups respond c) = Inl e"
    and "\<And>b. respond b \<noteq> Inl e"
  shows "snd (serve decoded call msg setups respond c) = (c, [], [])"
proof (cases decoded)
  case (Inl e)
  then show ?thesis by (simp add: serve_def)
next
  case (Inr a)
  obtain res c' where call: "call a c = (res, c')" by fastforce
  with assms Inr obtain e' where "res = Inl e'"
    by (cases res) (auto simp: serve_def split: prod.splits)
  with call_err [of a c e'] call Inr show ?thesis by (simp add: serve_def)
qed

end

section \<open>The operations satisfy the contract\<close>

interpretation call_join: core_call "\<lambda>(s, p, t) c. join_session tx c s p t" for tx
  by unfold_locales (auto intro: core_inv_join dest: join_session_err split: prod.splits)

interpretation call_get_caps: core_call "\<lambda>s c. (get_router_rtp_capabilities tx c s, c)" for tx
  by unfold_locales simp_all

interpretation call_set_caps: core_call "\<lambda>(s, caps) c. set_rtp_capabilities tx c s pid caps" for tx pid
  by unfold_locales
    (auto intro: core_inv_set_capabilities dest: set_rtp_capabilities_err split: prod.splits)

interpretation call_transport: core_call "\<lambda>(s, d) c. create_transport ms tx c s pid d" for ms tx pid
  by unfold_locales (auto intro: core_inv_transport dest: create_transport_err split: prod.splits)

interpretation call_connect: core_call "\<lambda>(s, t, d) c. connect_transport ms tx c s pid t d" for ms tx pid
  by unfold_locales (auto simp: core_unchanged split: prod.splits)

interpretation call_producer:
  core_call "\<lambda>(s, t, k, ps) c. create_producer ms tx c s pid t k ps" for ms tx pid
  by unfold_locales (auto intro: core_inv_producer dest: create_producer_err split: prod.splits)

interpretation call_consumer:
  core_call "\<lambda>(s, t, p, cs) c. create_consumer ms tx c s pid t p cs" for ms tx pid
  by unfold_locales (auto intro: core_inv_consumer dest: create_consumer_err split: prod.splits)

interpretation call_resume: core_call "\<lambda>(s, i) c. resume_consumer ms tx c s pid i" for ms tx pid
  by unfold_locales (auto simp: core_unchanged split: prod.splits)

interpretation call_close: core_call "\<lambda>s c. (Inr () :: session_error + unit, close_session s c)"
  by unfold_locales (simp_all add: core_inv_close)

section \<open>Lemmas on the shared steps\<close>

lemma and_then_Inl: "and_then r f = Inl e \<longleftrightarrow> r = Inl e \<or> (\<exists>a. r = Inr a \<and> f a = Inl e)"
  by (auto simp: and_then_def split: sum.splits)

lemma and_then_Inr: "and_then r f = Inr b \<longleftrightarrow> (\<exists>a. r = Inr a \<and> f a = Inr b)"
  by (auto simp: and_then_def split: sum.splits)

lemmas rpc_shared_simps [simp] = and_then_Inl and_then_Inr

lemma required_simps [simp]:
  "required msg opt = Inr a \<longleftrightarrow> opt = Some a"
  "required msg opt = Inl e \<longleftrightarrow> opt = None \<and> e = InvalidArgument msg"
  by (auto simp: required_def)

lemma converted_not_invalid [simp]: "converted msg r \<noteq> Inl (InvalidArgument m)"
  by (auto simp: converted_def map_err_def split: sum.splits)

lemma ok_or_internal [simp]: "ok_or (Internal msg) opt \<noteq> Inl (InvalidArgument m)"
  by auto

end
