(* ===== verification/Startup.thy ===== *)
theory Startup
  imports Worker_Manager Grpc_Handler
begin

text \<open>
  \<open>src/main.rs\<close>, \<open>src/config.rs\<close> and \<open>src/http/health.rs\<close>: the configuration, the chain of
  fallible steps that brings the server up to the point where it serves, and the task that shuts
  it down. The configuration loader, the address parsers, mediasoup, the HTTP bind and the gRPC
  transport are parameters.
\<close>

section \<open>Data\<close>

record server_config =
  http_host :: string
  http_port :: u16
  grpc_host :: string
  grpc_port :: u16
  grpc_concurrency_limit :: "nat option"
  mediasoup_workers :: nat
  mediasoup_log :: string
  listen_ip_addr :: string
  announced_ip_addr :: "string option"
  max_sessions_per_router_cfg :: usize
  subscribe_channel_capacity :: nat

datatype socket_addr = SocketAddr nat

datatype io_error_kind = InvalidInput | AddrInUse | Other

datatype io_error = IoError io_error_kind string

text \<open>What the configuration is built from, in order of increasing precedence.\<close>

datatype config_source = FileSource string bool | EnvironmentSource

datatype config_table = ConfigTable nat

type_synonym env_vars = "string \<rightharpoonup> string"

text \<open>
  What the environment answers during the start. \<open>dotenvy::dotenv\<close> may add variables and may fail.
\<close>

record host =
  host_overflow_checks :: bool
  host_vars :: env_vars
  host_dotenv :: "env_vars \<Rightarrow> env_vars \<times> (string + unit)"
  host_build_config :: "config_source list \<Rightarrow> env_vars \<Rightarrow> string + config_table"
  host_deserialize :: "config_table \<Rightarrow> string + server_config"
  host_parse_ip :: "string \<Rightarrow> string + ip_addr"
  host_parse_socket :: "string \<Rightarrow> string + socket_addr"
  host_create_worker :: "nat \<Rightarrow> worker_settings \<Rightarrow> string + worker"
  host_create_server :: "worker \<Rightarrow> listen_info \<Rightarrow> string + webrtc_server"
  host_create_router :: "worker \<Rightarrow> rtp_codec_capability list \<Rightarrow> string + router"
  host_bind_http :: "string \<Rightarrow> u16 \<Rightarrow> string + unit"

text \<open>The server ready to serve: what \<open>serve_with_shutdown\<close> is called with.\<close>

record server =
  server_handler :: sfu_handler
  server_addr :: socket_addr
  server_concurrency_limit :: nat

abbreviation server_core :: "server \<Rightarrow> sfu_core" where
  "server_core srv \<equiv> handler_core (server_handler srv)"

abbreviation server_channel_capacity :: "server \<Rightarrow> nat" where
  "server_channel_capacity srv \<equiv> handler_channel_capacity (server_handler srv)"

section \<open>Operations\<close>

text \<open>
  \<open>ServerConfig::from_env\<close>: a missing or broken \<open>.env\<close> is ignored, the file is optional.
\<close>

definition from_env :: "host \<Rightarrow> string + server_config" where
  "from_env h =
     (case host_dotenv h (host_vars h) of
        (vars, _) \<Rightarrow>
          (case host_build_config h [FileSource ''config/default'' False, EnvironmentSource] vars of
             Inl e \<Rightarrow> Inl e
           | Inr table \<Rightarrow> host_deserialize h table))"

definition grpc_socket_addr ::
  "(string \<Rightarrow> string + socket_addr) \<Rightarrow> server_config \<Rightarrow> string + socket_addr" where
  "grpc_socket_addr parse cfg = parse (grpc_host cfg @ '':'' @ nat_text (unat (grpc_port cfg)))"

definition parsed_listen_ip_addr ::
  "(string \<Rightarrow> string + ip_addr) \<Rightarrow> server_config \<Rightarrow> string + ip_addr" where
  "parsed_listen_ip_addr parse cfg = parse (listen_ip_addr cfg)"

definition io_err :: "io_error_kind \<Rightarrow> string \<Rightarrow> string + 'a \<Rightarrow> io_error + 'a" where
  "io_err kind msg r = map_err (\<lambda>e. IoError kind (msg @ e)) r"

text \<open>\<open>main\<close> up to the call of \<open>serve_with_shutdown\<close>.\<close>

definition startup :: "host \<Rightarrow> (io_error + server) panics" where
  "startup h =
     (case io_err InvalidInput ''Failed to load config: '' (from_env h) of
        Inl e \<Rightarrow> Returned (Inl e)
      | Inr cfg \<Rightarrow>
     (case io_err InvalidInput ''Invalid listen ip address: ''
             (parsed_listen_ip_addr (host_parse_ip h) cfg) of
        Inl e \<Rightarrow> Returned (Inl e)
      | Inr ip \<Rightarrow>
     (case worker_manager_new (host_overflow_checks h) (host_create_worker h)
             (host_create_server h) (mediasoup_workers cfg) (mediasoup_log cfg)
             (announced_ip_addr cfg) ip of
        Panicked \<Rightarrow> Panicked
      | Returned (Inl e) \<Rightarrow>
          Returned (Inl (IoError Other
            (''Failed to initialize Mediasoup workers: '' @ worker_manager_error_text e)))
      | Returned (Inr wm) \<Rightarrow>
     (case router_manager_new (host_create_router h) (workers_of wm) (webrtc_servers_of wm) of
        Inl e \<Rightarrow>
          Returned (Inl (IoError Other
            (''Failed to initialize RouterManager: '' @ router_manager_error_text e)))
      | Inr rm \<Rightarrow>
     (case io_err AddrInUse ''Failed to bind health server: ''
             (host_bind_http h (http_host cfg) (http_port cfg)) of
        Inl e \<Rightarrow> Returned (Inl e)
      | Inr _ \<Rightarrow>
     (case io_err InvalidInput ''Invalid gRPC bind address: ''
             (grpc_socket_addr (host_parse_socket h) cfg) of
        Inl e \<Rightarrow> Returned (Inl e)
      | Inr addr \<Rightarrow>
          Returned (Inr
            \<lparr>server_handler = sfu_handler_new (sfu_core_new rm (max_sessions_per_router_cfg cfg))
               (subscribe_channel_capacity cfg),
             server_addr = addr,
             server_concurrency_limit =
               (case grpc_concurrency_limit cfg of Some n \<Rightarrow> n | None \<Rightarrow> 128)\<rparr>)))))))"


text \<open>
  The shutdown task. The one-shot channel ends with a value or because its sender is dropped; the
  server stops when its receiver completes, and the source ignores which of the two it was.
\<close>

datatype oneshot = OneshotSent | OneshotDropped

definition shutdown_task ::
  "string + unit \<Rightarrow> bool \<Rightarrow> hash_seed \<Rightarrow> sfu_core \<Rightarrow> sfu_core \<times> oneshot" where
  "shutdown_task ctrl_c_result locked_in_time \<pi> c =
     (case ctrl_c_result of
        Inl e \<Rightarrow> (c, OneshotDropped)
      | Inr _ \<Rightarrow> (if locked_in_time then shutdown \<pi> c else c, OneshotSent))"

text \<open>The health end points: a status code and a JSON object.\<close>

definition liveness :: "nat \<times> (string \<times> string) list" where
  "liveness = (200, [(''status'', ''alive'')])"

definition readiness :: "nat \<times> (string \<times> string) list" where
  "readiness = (200, [(''status'', ''ready'')])"

text \<open>A configuration and a host for the witnesses.\<close>

definition ex_config :: "nat \<Rightarrow> server_config" where
  "ex_config workers = \<lparr>http_host = ''localhost'', http_port = 8080, grpc_host = ''localhost'',
     grpc_port = 50051, grpc_concurrency_limit = None, mediasoup_workers = workers,
     mediasoup_log = ''warn'', listen_ip_addr = ''any'', announced_ip_addr = None,
     max_sessions_per_router_cfg = 2, subscribe_channel_capacity = 8\<rparr>"

definition ex_host :: "bool \<Rightarrow> nat \<Rightarrow> host" where
  "ex_host checks workers = \<lparr>host_overflow_checks = checks,
     host_vars = Map.empty, host_dotenv = (\<lambda>vars. (vars, Inl ''not found'')),
     host_build_config = (\<lambda>sources vars. Inr (ConfigTable 0)),
     host_deserialize = (\<lambda>table. Inr (ex_config workers)),
     host_parse_ip = (\<lambda>_. Inr (IpAddr 0)), host_parse_socket = (\<lambda>_. Inr (SocketAddr 0)),
     host_create_worker = (\<lambda>i s. Inr (Worker i)),
     host_create_server = (\<lambda>w l. Inr (WebRtcServer 0)),
     host_create_router = (\<lambda>w cs. case w of Worker i \<Rightarrow>
       Inr \<lparr>router_ident = RouterId (of_nat i), router_caps = RtpCapabilitiesFinalized 0\<rparr>),
     host_bind_http = (\<lambda>_ _. Inr ())\<rparr>"

section \<open>Lemmas\<close>

lemma startup_server:
  assumes "startup h = Returned (Inr srv)"
  obtains cfg ip wm rm where "from_env h = Inr cfg"
    and "host_parse_ip h (listen_ip_addr cfg) = Inr ip"
    and "worker_manager_new (host_overflow_checks h) (host_create_worker h)
             (host_create_server h) (mediasoup_workers cfg) (mediasoup_log cfg)
             (announced_ip_addr cfg) ip = Returned (Inr wm)"
    and "router_manager_new (host_create_router h) (workers_of wm) (webrtc_servers_of wm) = Inr rm"
    and "server_core srv = sfu_core_new rm (max_sessions_per_router_cfg cfg)"
    and "server_channel_capacity srv = subscribe_channel_capacity cfg"
proof -
  from assms show thesis
    unfolding startup_def
    by (auto intro: that simp: io_err_def parsed_listen_ip_addr_def sfu_handler_new_def
        split: sum.splits panics.splits)
qed



text \<open>
  A server that starts begins in a state from which every property of the core holds: an empty,
  reachable core with one router for each configured worker and the configured limits.
\<close>

lemma startup_state:
  assumes "startup h = Returned (Inr srv)"
  shows "\<exists>cfg. from_env h = Inr cfg \<and> core_start (server_core srv) \<and>
           sessions (server_core srv) = [] \<and> event_senders (server_core srv) = [] \<and>
           length (routers (router_pool (server_core srv))) = mediasoup_workers cfg \<and>
           mediasoup_workers cfg \<le> 65536 \<and>
           max_sessions_per_router (server_core srv) = max_sessions_per_router_cfg cfg \<and>
           server_channel_capacity srv = subscribe_channel_capacity cfg"
proof -
  from assms obtain cfg ip wm rm where cfg: "from_env h = Inr cfg"
    and wm: "worker_manager_new (host_overflow_checks h) (host_create_worker h)
             (host_create_server h) (mediasoup_workers cfg) (mediasoup_log cfg)
             (announced_ip_addr cfg) ip = Returned (Inr wm)"
    and rm: "router_manager_new (host_create_router h) (workers_of wm) (webrtc_servers_of wm) = Inr rm"
    and core: "server_core srv = sfu_core_new rm (max_sessions_per_router_cfg cfg)"
    and cap: "server_channel_capacity srv = subscribe_channel_capacity cfg"
    by (rule startup_server)
  note pool = router_manager_new_ok [OF rm] and workers = worker_manager_new_Inr [OF wm]
  have "core_start (server_core srv)"
    unfolding core_start_def core using pool(1) by blast
  moreover have "mediasoup_workers cfg \<le> 65536"
    using workers(3) [of "mediasoup_workers cfg - 1"] by (cases "mediasoup_workers cfg") auto
  ultimately show ?thesis
    using cfg cap pool(2) workers(1,2)
    by (auto simp: core sfu_core_new_def workers_of_def webrtc_servers_of_def)
qed


lemma ex_host_starts: "\<exists>srv. startup (ex_host True 2) = Returned (Inr srv)"
  by (simp add: startup_def io_err_def parsed_listen_ip_addr_def grpc_socket_addr_def ex_host_def
      from_env_def ex_config_def worker_manager_new_def capacity_overflow_iff create_workers_total create_servers_total
      port_limit_def router_manager_new_def get_codecs_value upt_rec workers_of_def
      webrtc_servers_of_def)

section \<open>Properties\<close>



text \<open>C40. On the interrupt signal the shutdown task closes every session if it gets the lock in time:
  then every counter is back at zero, no broadcast of a task spawned before reaches anybody, and
  every later request for a session is told that it does not exist. The server is told to stop in
  any case: also when the lock is not free in time, and, without closing anything, when waiting
  for the signal fails and the task's end of the channel is dropped.\<close>

theorem shutdown_task_outcome:
  assumes "reachable_core c"
  shows "(\<exists>d. shutdown_task (Inr ()) True \<pi> c = (d, OneshotSent) \<and>
            (\<forall>rid n. hm_get (active_sessions_per_router d) rid = Some n \<longrightarrow> n = 0) \<and>
            (\<forall>\<pi>' try_out sid event exclude. broadcast_event \<pi>' try_out d sid event exclude = []) \<and>
            (\<forall>sid pid ptype. join_session tx d sid pid ptype
                              = (Inl (SessionNotFound (uuid_text tx sid)), d))) \<and>
         shutdown_task (Inr ()) False \<pi> c = (c, OneshotSent) \<and>
         (\<forall>e locked. shutdown_task (Inl e) locked \<pi> c = (c, OneshotDropped))"
proof -
  let ?d = "shutdown \<pi> c"
  have inv: "core_inv ?d"
    unfolding shutdown_def by (rule core_inv_close_sessions [OF reachable_core_inv [OF assms]])
  have sessions: "sessions ?d = []" by (rule shutdown_sessions)
  have "n = 0" if "hm_get (active_sessions_per_router ?d) rid = Some n" for rid n
    using core_inv_capacity(1) [OF inv that]
    by (simp add: sessions_on_def sessions hm_count_def unat_eq_zero)
  moreover have "broadcast_event \<pi>' try_out ?d sid event exclude = []"
    for \<pi>' try_out sid event exclude
    using core_inv_no_senders [OF inv, of sid] by (simp add: sessions broadcast_event_def)
  moreover have "join_session tx ?d sid pid ptype = (Inl (SessionNotFound (uuid_text tx sid)), ?d)"
    for sid pid ptype by (simp add: join_session_def find_session_def sessions)
  ultimately show ?thesis by (simp add: shutdown_task_def)
qed

theorem shutdown_task_outcome_witness:
  "fst (join_session ex_texts (fst (shutdown_task (Inr ()) True (\<lambda>i. i) ex_core6)) 7 ''c'' User)
     = Inl (SessionNotFound (uuid_text ex_texts 7))"
  using shutdown_task_outcome [OF ex_reachable(7), of "\<lambda>i. i" ex_texts] by force

end
