(* ===== verification/Sfu_Threads.thy ===== *)
theory Sfu_Threads
  imports Sfu_System
begin

text \<open>
  The server at the grain of its await points: \<open>self.sfu_core.lock().await.operation(...).await\<close> of
  \<open>src/grpc/handler.rs\<close>, the shutdown task of \<open>src/main.rs\<close> and the spawned broadcasts. A request
  first waits for the lock, then holds it while it waits for mediasoup or for room in a channel,
  releases it, and only then registers callbacks, spawns the announcement and answers. Between any
  two of these points other requests, tasks, callbacks and clients that go away may run. A request
  whose client goes away is dropped at an await point, while it waits for the lock or holds it.
  Of the lock only mutual exclusion is built in: any waiter may be the next. A holder that is
  dropped before its operation began, or while it waits for mediasoup, has changed nothing, since
  the source changes the core after its last call of mediasoup. Two operations may have changed
  the core when they are dropped midway, because tokio may let any \<open>await\<close> wait for a moment: the
  registration has moved the index of the pool, the subscription has registered its channel and
  sent a part of its messages.
\<close>

section \<open>Calls of the core\<close>

text \<open>The operations that are called under the lock, with the arguments of the caller.\<close>

datatype core_call =
    CallRegister string participant_type
  | CallJoin uuid string participant_type
  | CallCapabilities uuid
  | CallSetCapabilities uuid string rtp_capabilities
  | CallTransport uuid string string
  | CallConnect uuid string transport_id dtls_parameters
  | CallProducer uuid string transport_id media_kind rtp_parameters
  | CallConsumer uuid string transport_id producer_id rtp_capabilities
  | CallResume uuid string consumer_id
  | CallClose uuid
  | CallSubscribe uuid string sender
  | CallShutdown

text \<open>What the environment answers during one critical section.\<close>

record answers =
  ans_id :: uuid
  ans_ms :: mediasoup
  ans_order :: hash_seed
  ans_inner_order :: "string \<Rightarrow> hash_seed"
  ans_send :: "nat \<Rightarrow> send_outcome"
  ans_try :: "string \<Rightarrow> sender \<Rightarrow> sfu_event \<Rightarrow> try_send_result"

text \<open>What a critical section leaves behind.\<close>

record effect =
  eff_core :: sfu_core
  eff_setups :: "pending_event_setup list"
  eff_log :: "log_entry list"
  eff_produced :: "(uuid \<times> string \<times> producer_id) list"
  eff_stuck :: "sender option"

definition just :: "sfu_core \<Rightarrow> effect" where
  "just c = \<lparr>eff_core = c, eff_setups = [], eff_log = [], eff_produced = [], eff_stuck = None\<rparr>"

fun perform :: "texts \<Rightarrow> answers \<Rightarrow> sfu_core \<Rightarrow> core_call \<Rightarrow> effect" where
  "perform tx a c (CallRegister pid ptype) = just (snd (register_session (ans_id a) c pid ptype))"
| "perform tx a c (CallJoin sid pid ptype) = just (snd (join_session tx c sid pid ptype))"
| "perform tx a c (CallCapabilities sid) = just c"
| "perform tx a c (CallSetCapabilities sid pid caps) =
     just (snd (set_rtp_capabilities tx c sid pid caps))"
| "perform tx a c (CallTransport sid pid direction) =
     (case create_transport (ans_ms a) tx c sid pid direction of
        (res, c') \<Rightarrow> (just c')\<lparr>eff_setups := pending_setups res\<rparr>)"
| "perform tx a c (CallConnect sid pid tid dtls) =
     just (snd (connect_transport (ans_ms a) tx c sid pid tid dtls))"
| "perform tx a c (CallProducer sid pid tid kind params) =
     (case create_producer (ans_ms a) tx c sid pid tid kind params of
        (res, c') \<Rightarrow> (just c')\<lparr>eff_setups := pending_setups res,
          eff_produced := (case res of Inr (prid, _) \<Rightarrow> [(sid, pid, prid)] | Inl _ \<Rightarrow> [])\<rparr>)"
| "perform tx a c (CallConsumer sid pid tid prid caps) =
     (case create_consumer (ans_ms a) tx c sid pid tid prid caps of
        (res, c') \<Rightarrow> (just c')\<lparr>eff_setups := pending_setups res\<rparr>)"
| "perform tx a c (CallResume sid pid cid) =
     just (snd (resume_consumer (ans_ms a) tx c sid pid cid))"
| "perform tx a c (CallClose sid) = just (close_session sid c)"
| "perform tx a c (CallSubscribe sid pid ch) =
     (case subscribe_to_events tx (ans_order a) (ans_inner_order a) (ans_send a) c sid pid ch of
        (res, c', evs) \<Rightarrow> (just c')\<lparr>eff_log := map (\<lambda>ev. (sid, pid, ch, ev, TryOk)) evs,
          eff_stuck := (if res = Blocked then Some ch else None)\<rparr>)"
| "perform tx a c CallShutdown = just (shutdown (ans_order a) c)"

text \<open>
  What the environment promises of its answers: \<open>Uuid::new_v4\<close> gives an id not in use, and nobody
  reads the channel of a subscription before the call returns.
\<close>

fun answers_ok :: "nat \<Rightarrow> sfu_core \<Rightarrow> answers \<Rightarrow> core_call \<Rightarrow> bool" where
  "answers_ok capacity c a (CallRegister pid ptype) \<longleftrightarrow> hm_get (sessions c) (ans_id a) = None"
| "answers_ok capacity c a (CallSubscribe sid pid ch) \<longleftrightarrow> unpolled_channel capacity (ans_send a)"
| "answers_ok capacity c a _ \<longleftrightarrow> True"

text \<open>
  A request whose client goes away while it holds the lock, in the middle of its operation: the
  core it leaves, what it sent and the channel it had made. \<open>k\<close> counts the routers looked at, or
  the messages sent.
\<close>

fun dropped_midway ::
  "texts \<Rightarrow> answers \<Rightarrow> nat \<Rightarrow> sfu_core \<Rightarrow> core_call \<Rightarrow>
   sfu_core \<times> log_entry list \<times> sender list" where
  "dropped_midway tx a k c (CallRegister pid ptype) = (abandon_register k c, [], [])"
| "dropped_midway tx a k c (CallSubscribe sid pid ch) =
     (case subscribe_to_events tx (ans_order a) (ans_inner_order a) (ans_send a) c sid pid ch of
        (res, c', evs) \<Rightarrow> (c', map (\<lambda>ev. (sid, pid, ch, ev, TryOk)) evs, [ch]))"
| "dropped_midway tx a k c _ = (c, [], [])"

fun midway_ok :: "nat \<Rightarrow> sfu_core \<Rightarrow> answers \<Rightarrow> nat \<Rightarrow> core_call \<Rightarrow> bool" where
  "midway_ok capacity c a k (CallRegister pid ptype) \<longleftrightarrow> k < length (routers (router_pool c))"
| "midway_ok capacity c a k (CallSubscribe sid pid ch) \<longleftrightarrow>
     k \<le> capacity \<and> unpolled_channel k (ans_send a)"
| "midway_ok capacity c a k _ \<longleftrightarrow> False"

text \<open>
  A subscription makes its channel before it asks for the lock; for a capacity with which that
  panics, the request is answered there and does not arrive.
\<close>

fun call_ok :: "nat \<Rightarrow> core_call \<Rightarrow> bool" where
  "call_ok capacity (CallSubscribe sid pid ch) \<longleftrightarrow> channel_ok capacity"
| "call_ok capacity _ \<longleftrightarrow> True"

section \<open>State\<close>

text \<open>What waits for the lock: a request (or the shutdown task), or a spawned broadcast.\<close>

datatype job = Request core_call | Broadcast broadcast_task

text \<open>The lock: free, held by a job, or held by a subscription whose send does not complete.\<close>

datatype guard = Free | Held nat job | Stuck nat sender

fun guard_ticket :: "guard \<Rightarrow> nat option" where
  "guard_ticket Free = None"
| "guard_ticket (Held n j) = Some n"
| "guard_ticket (Stuck n ch) = Some n"

fun stuck_channel :: "guard \<Rightarrow> sender option" where
  "stuck_channel (Stuck n ch) = Some ch"
| "stuck_channel _ = None"

text \<open>
  Every job gets a ticket when it starts to wait. \<open>th_after\<close> are the requests that released the
  lock and still have to run \<open>setup_event_handlers\<close> and to answer, \<open>th_spawned\<close> the spawned tasks
  that have not started yet, \<open>th_done\<close> and \<open>th_dropped\<close> the jobs that ended and those whose client
  went away (or whose timeout elapsed) before, \<open>th_unconfirmed\<close> the channels of the subscriptions
  dropped before they sent anything.
\<close>

record threads =
  th_core :: sfu_core
  th_queue :: "(nat \<times> job) list"
  th_guard :: guard
  th_after :: "(nat \<times> pending_event_setup list) list"
  th_spawned :: "broadcast_task list"
  th_watches :: "close_watch list"
  th_log :: "log_entry list"
  th_gone :: "sender list"
  th_produced :: "(uuid \<times> string \<times> producer_id) list"
  th_unconfirmed :: "sender list"
  th_next :: nat
  th_done :: "nat list"
  th_dropped :: "nat list"

definition th_start :: "sfu_core \<Rightarrow> threads" where
  "th_start c = \<lparr>th_core = c, th_queue = [], th_guard = Free, th_after = [], th_spawned = [],
     th_watches = [], th_log = [], th_gone = [], th_produced = [], th_unconfirmed = [],
     th_next = 0, th_done = [], th_dropped = []\<rparr>"

section \<open>Events\<close>

datatype th_event =
    Arrive core_call
  | Poll nat
  | Grant nat
  | Finish answers
  | Return nat
  | Cancel nat
  | Abandon answers nat
  | Report nat hook
  | DropStream sender

text \<open>
  The critical section of the holder, up to the release of the lock. A broadcast awaits nothing
  once it holds the lock, and ends with it.
\<close>

fun finish :: "texts \<Rightarrow> answers \<Rightarrow> nat \<Rightarrow> job \<Rightarrow> threads \<Rightarrow> threads" where
  "finish tx a n (Request call) f =
     (let e = perform tx a (th_core f) call;
          f' = f\<lparr>th_core := eff_core e, th_log := th_log f @ eff_log e,
                 th_produced := th_produced f @ eff_produced e\<rparr>
      in case eff_stuck e of
           Some ch \<Rightarrow> f'\<lparr>th_guard := Stuck n ch\<rparr>
         | None \<Rightarrow> f'\<lparr>th_guard := Free, th_after := th_after f @ [(n, eff_setups e)]\<rparr>)"
| "finish tx a n (Broadcast t) f =
     f\<lparr>th_guard := Free, th_done := n # th_done f,
       th_log := th_log f @
         map (\<lambda>(pid, ch, r). (task_session t, pid, ch, task_event t, r))
           (broadcast_event (ans_order a) (ans_try a) (th_core f) (task_session t) (task_event t)
              (task_exclude t))\<rparr>"

fun th_exec :: "texts \<Rightarrow> (hook \<Rightarrow> bool) \<Rightarrow> threads \<Rightarrow> th_event \<Rightarrow> threads" where
  "th_exec tx stays f (Arrive call) =
     f\<lparr>th_queue := th_queue f @ [(th_next f, Request call)], th_next := Suc (th_next f)\<rparr>"
| "th_exec tx stays f (Poll i) =
     f\<lparr>th_spawned := delete_at i (th_spawned f),
       th_queue := th_queue f @ [(th_next f, Broadcast (th_spawned f ! i))],
       th_next := Suc (th_next f)\<rparr>"
| "th_exec tx stays f (Grant i) =
     f\<lparr>th_queue := delete_at i (th_queue f),
       th_guard := (case th_queue f ! i of (n, j) \<Rightarrow> Held n j)\<rparr>"
| "th_exec tx stays f (Finish a) =
     (case th_guard f of Held n j \<Rightarrow> finish tx a n j f | _ \<Rightarrow> f)"
| "th_exec tx stays f (Return i) =
     (case th_after f ! i of (n, setups) \<Rightarrow>
      case setup_event_handlers tx stays setups of (ws, ts) \<Rightarrow>
        f\<lparr>th_after := delete_at i (th_after f), th_watches := th_watches f @ ws,
          th_spawned := th_spawned f @ ts, th_done := n # th_done f\<rparr>)"
| "th_exec tx stays f (Cancel n) =
     (if guard_ticket (th_guard f) = Some n then
        f\<lparr>th_guard := Free, th_dropped := n # th_dropped f,
          th_gone := (case stuck_channel (th_guard f) of Some ch \<Rightarrow> ch # th_gone f | None \<Rightarrow> th_gone f)\<rparr>
      else
        f\<lparr>th_queue := filter (\<lambda>(k, j). k \<noteq> n) (th_queue f), th_dropped := n # th_dropped f\<rparr>)"
| "th_exec tx stays f (Abandon a k) =
     (case th_guard f of
        Held n (Request call) \<Rightarrow>
          (case dropped_midway tx a k (th_core f) call of
             (c, l, chs) \<Rightarrow>
               f\<lparr>th_core := c, th_log := th_log f @ l, th_gone := chs @ th_gone f,
                 th_unconfirmed := (if l = [] then chs else []) @ th_unconfirmed f,
                 th_guard := Free, th_dropped := n # th_dropped f\<rparr>)
      | _ \<Rightarrow> f)"
| "th_exec tx stays f (Report i h) =
     (case fire h (th_watches f ! i) of
        (w, None) \<Rightarrow> f\<lparr>th_watches := (th_watches f)[i := w]\<rparr>
      | (w, Some (sid, ev)) \<Rightarrow>
          f\<lparr>th_watches := (th_watches f)[i := w],
            th_spawned := th_spawned f @ [spawn_close_broadcast sid ev]\<rparr>)"
| "th_exec tx stays f (DropStream ch) = f\<lparr>th_gone := ch # th_gone f\<rparr>"

text \<open>
  When an event can happen. A spawned broadcast is never cancelled: nothing keeps a handle to it.
  The stream of a stuck subscription is not handed out yet, it goes away with its request.
\<close>

fun th_enabled :: "nat \<Rightarrow> threads \<Rightarrow> th_event \<Rightarrow> bool" where
  "th_enabled capacity f (Arrive call) \<longleftrightarrow> call_ok capacity call"
| "th_enabled capacity f (Poll i) \<longleftrightarrow> i < length (th_spawned f)"
| "th_enabled capacity f (Grant i) \<longleftrightarrow> th_guard f = Free \<and> i < length (th_queue f)"
| "th_enabled capacity f (Finish a) \<longleftrightarrow>
     (case th_guard f of
        Held n (Request call) \<Rightarrow> answers_ok capacity (th_core f) a call
      | Held n (Broadcast t) \<Rightarrow> True
      | _ \<Rightarrow> False)"
| "th_enabled capacity f (Return i) \<longleftrightarrow> i < length (th_after f)"
| "th_enabled capacity f (Cancel n) \<longleftrightarrow>
     (\<exists>call. (n, Request call) \<in> set (th_queue f)) \<or>
     (case th_guard f of
        Held m (Request call) \<Rightarrow> m = n | Stuck m ch \<Rightarrow> m = n | _ \<Rightarrow> False)"
| "th_enabled capacity f (Abandon a k) \<longleftrightarrow>
     (case th_guard f of
        Held n (Request call) \<Rightarrow> midway_ok capacity (th_core f) a k call | _ \<Rightarrow> False)"
| "th_enabled capacity f (Report i h) \<longleftrightarrow> i < length (th_watches f)"
| "th_enabled capacity f (DropStream ch) \<longleftrightarrow> (\<forall>n. th_guard f \<noteq> Stuck n ch)"

inductive th_step :: "texts \<Rightarrow> (hook \<Rightarrow> bool) \<Rightarrow> nat \<Rightarrow> threads \<Rightarrow> threads \<Rightarrow> bool"
  for tx stays capacity where
  th_event: "th_enabled capacity f e \<Longrightarrow> th_step tx stays capacity f (th_exec tx stays f e)"

inductive_simps th_step_iff: "th_step tx stays capacity f g"

fun th_run :: "texts \<Rightarrow> (hook \<Rightarrow> bool) \<Rightarrow> threads \<Rightarrow> th_event list \<Rightarrow> threads" where
  "th_run tx stays f [] = f"
| "th_run tx stays f (e # es) = th_run tx stays (th_exec tx stays f e) es"

fun th_all_enabled ::
  "texts \<Rightarrow> (hook \<Rightarrow> bool) \<Rightarrow> nat \<Rightarrow> threads \<Rightarrow> th_event list \<Rightarrow> bool" where
  "th_all_enabled tx stays capacity f [] \<longleftrightarrow> True"
| "th_all_enabled tx stays capacity f (e # es) \<longleftrightarrow>
     th_enabled capacity f e \<and> th_all_enabled tx stays capacity (th_exec tx stays f e) es"

definition th_initial :: "threads \<Rightarrow> bool" where
  "th_initial f \<longleftrightarrow> (\<exists>c. core_start c \<and> f = th_start c)"

definition th_reachable :: "texts \<Rightarrow> (hook \<Rightarrow> bool) \<Rightarrow> nat \<Rightarrow> threads \<Rightarrow> bool" where
  "th_reachable tx stays capacity f \<longleftrightarrow>
     (\<exists>g. th_initial g \<and> (th_step tx stays capacity)\<^sup>*\<^sup>* g f)"

end
