(* ===== verification/Sfu_Runs.thy ===== *)
theory Sfu_Runs
  imports Sfu_Delivery
begin

text \<open>
  What clients are told in the runs of the server: the properties of the announcements, the
  example session as a run of the machine (on which the witnesses are evaluated), the runs that
  show a duplicate announcement and a server stopped by one subscriber, and the invariant of runs
  in which the close callbacks are detached.
\<close>

section \<open>Definitions\<close>

text \<open>No watch has a hook, and nothing reports a close.\<close>

fun is_close_event :: "sfu_event \<Rightarrow> bool" where
  "is_close_event (TransportClosed x) = True"
| "is_close_event (ProducerClosed x) = True"
| "is_close_event (ConsumerClosed x) = True"
| "is_close_event _ = False"

definition no_closes :: "system \<Rightarrow> bool" where
  "no_closes s \<longleftrightarrow>
     (\<forall>w \<in> set (sys_watches s). watch_hooks w = []) \<and>
     (\<forall>t \<in> set (sys_tasks s). \<not> is_close_event (task_event t)) \<and>
     (\<forall>(sid, pid, ch, ev, r) \<in> set (sys_log s). \<not> is_close_event ev)"

definition ex_setup :: "sys_event list" where
  "ex_setup =
     [Register 7 ''a'' User, Join 7 ''b'' User,
      MakeTransport (ex_ms 1) 7 ''a'' ''send'', MakeTransport (ex_ms 2) 7 ''b'' ''recv'',
      MakeProducer (ex_ms 3) 7 ''a'' (TransportId 1) Audio (RtpParameters 1)]"

definition ex_channel :: "nat \<Rightarrow> nat \<Rightarrow> send_outcome" where
  "ex_channel capacity i = (if i < capacity then SendOk else SendPending)"

definition ex_subscribe :: "nat \<Rightarrow> sys_event" where
  "ex_subscribe capacity = Subscribe (\<lambda>i. i) (\<lambda>_ i. i) (ex_channel capacity) 7 ''b'' (Sender 1)"

definition ex_run_task :: sys_event where
  "ex_run_task = RunTask (\<lambda>i. i) (\<lambda>_ _ _. TryOk) 0"

definition ex_new_producer :: sfu_event where
  "ex_new_producer = create_new_producer_event ex_texts (ProducerId 3) Audio"

definition ex_sys5 :: "(hook \<Rightarrow> bool) \<Rightarrow> system" where
  "ex_sys5 stays = \<lparr>sys_core = ex_core5,
     sys_watches = [setup_transport_events ex_texts stays (ex_transport 1) 7,
                    setup_transport_events ex_texts stays (ex_transport 2) 7,
                    setup_producer_events ex_texts stays (ex_producer 3) 7],
     sys_tasks = [\<lparr>task_session = 7, task_event = ex_new_producer, task_exclude = Some ''a''\<rparr>],
     sys_log = [], sys_waiting = None, sys_gone = [],
     sys_produced = [(7, ''a'', ProducerId 3)], sys_unconfirmed = []\<rparr>"


definition ex_sys6 :: "(hook \<Rightarrow> bool) \<Rightarrow> system" where
  "ex_sys6 stays = (ex_sys5 stays)\<lparr>sys_core := ex_core6,
     sys_log := [(7, ''b'', Sender 1, SubscriptionConfirmed (uuid_text ex_texts 7), TryOk),
                 (7, ''b'', Sender 1, ex_new_producer, TryOk)]\<rparr>"

definition ex_sys7 :: "(hook \<Rightarrow> bool) \<Rightarrow> system" where
  "ex_sys7 stays = (ex_sys6 stays)\<lparr>sys_tasks := [],
     sys_log := sys_log (ex_sys6 stays) @ [(7, ''b'', Sender 1, ex_new_producer, TryOk)]\<rparr>"

text \<open>The waiting tasks get the lock, one after the other.\<close>

definition drain ::
  "hash_seed \<Rightarrow> (string \<Rightarrow> sender \<Rightarrow> sfu_event \<Rightarrow> try_send_result) \<Rightarrow> system \<Rightarrow> sys_event list" where
  "drain \<pi> try_out s = replicate (length (sys_tasks s)) (RunTask \<pi> try_out 0)"

section \<open>Lemmas\<close>

lemma ex_setup_run:
  "sys_run ex_texts stays (sys_start ex_core0) ex_setup = ex_sys5 stays"
  by (simp add: ex_setup_def sys_start_def after_create_def note_produced_def pending_setups_def
      ex_sys5_def ex_new_producer_def Let_def ex_answers_of del: One_nat_def
      flip: ex_core1_def ex_core2_def)

lemma ex_setup_enabled:
  "sys_all_enabled ex_texts stays capacity (sys_start ex_core0) ex_setup"
proof -
  have "hm_get (sessions ex_core0) 7 = None" by (simp add: ex_core0_eq)
  then show ?thesis
    by (simp add: ex_setup_def sys_start_def after_create_def note_produced_def Let_def
        split: prod.split sum.split)
qed

lemma ex_setup_reachable: "sys_reachable ex_texts stays capacity (ex_sys5 stays)"
  using sys_run_reachable [OF ex_core0_start ex_setup_enabled] by (simp add: ex_setup_run)

text \<open>One more event of the example run.\<close>

lemma sys_reachable_exec:
  assumes "sys_reachable tx stays capacity s" and "sys_enabled capacity s e"
  shows "sys_reachable tx stays capacity (sys_exec tx stays s e)"
  using assms sys_step.event unfolding sys_reachable_def
  by (meson rtranclp.rtrancl_into_rtrancl)

lemma ex_channel_unpolled: "unpolled_channel capacity (ex_channel capacity)"
  by (simp add: unpolled_channel_def ex_channel_def)

lemma ex_existing:
  "get_existing_producers_for_session ex_texts (\<lambda>i. i) (\<lambda>_ i. i) ex_core6 7
   = Inr [(ProducerId 3, Audio, ''a'')]"
  by (simp add: get_existing_producers_for_session_def find_session_def ex_core6_eq ex_core5_eq
      ex_session_def ex_sender_side_def ex_receiver_side_def ex_values new_participant_def
      hm_iter_def)

lemma ex_core6_subscribed:
  "ex_core5\<lparr>event_senders := hm_insert 7 (hm_insert ''b'' (Sender 1) []) (event_senders ex_core5)\<rparr>
   = ex_core6"
  by (simp add: ex_core6_eq ex_core5_eq ex_core1_eq ex_core0_eq hm_insert_def)

lemma ex_no_senders: "hm_get (event_senders ex_core5) 7 = None"
  by (simp add: ex_core5_eq ex_core1_eq ex_core0_eq)

lemma ex_live: "hm_contains (sessions ex_core5) 7"
  by (simp add: ex_core5_eq hm_contains_def)

lemma ex_subscribe_8:
  "sys_exec ex_texts stays (ex_sys5 stays) (ex_subscribe 8) = ex_sys6 stays"
  by (simp add: ex_subscribe_def ex_sys5_def ex_sys6_def subscribe_to_events_def ex_live
      ex_no_senders ex_core6_subscribed ex_existing ex_channel_def ex_new_producer_def Let_def
      del: One_nat_def)

lemma ex_sys6_reachable: "sys_reachable ex_texts stays 8 (ex_sys6 stays)"
proof -
  have "sys_enabled 8 (ex_sys5 stays) (ex_subscribe 8)"
    by (simp add: ex_subscribe_def ex_sys5_def ex_channel_unpolled)
  from sys_reachable_exec [OF ex_setup_reachable this] show ?thesis
    by (simp add: ex_subscribe_8)
qed

lemma ex_run_task_exec:
  "sys_exec ex_texts stays (ex_sys6 stays) ex_run_task = ex_sys7 stays"
  by (simp add: ex_run_task_def ex_sys7_def ex_sys6_def ex_sys5_def broadcast_event_def ex_core6_eq
      hm_iter_def Let_def)

lemma ex_sys7_reachable: "sys_reachable ex_texts stays 8 (ex_sys7 stays)"
proof -
  have "sys_enabled 8 (ex_sys6 stays) ex_run_task"
    by (simp add: ex_run_task_def ex_sys6_def ex_sys5_def)
  from sys_reachable_exec [OF ex_sys6_reachable this] show ?thesis
    by (simp add: ex_run_task_exec)
qed

lemma ex_has_producer: "has_producer ex_core6 7 ''a'' (ProducerId 3)"
  by (simp add: has_producer_def ex_core6_eq ex_core5_eq ex_session_def hm_contains_def)

lemma ex_listens: "listens (ex_sys6 stays) 7 ''b'' (Sender 1)" "listens (ex_sys7 stays) 7 ''b'' (Sender 1)"
  by (simp_all add: listens_def ex_sys7_def ex_sys6_def ex_sys5_def senders_of_def ex_core6_eq)

lemma ex_subscribe_stuck:
  "sys_waiting (sys_exec ex_texts stays (ex_sys5 stays) (ex_subscribe 1)) = Some (Sender 1)"
  by (simp add: ex_subscribe_def ex_sys5_def subscribe_to_events_def ex_live
      ex_no_senders ex_core6_subscribed ex_existing ex_channel_def Let_def del: One_nat_def)


text \<open>A server that waits for a subscriber.\<close>

lemma stuck_step:
  assumes "sys_waiting s = Some ch" and "sys_enabled capacity s e" and "e \<noteq> HangUp ch"
  shows "sys_waiting (sys_exec tx stays s e) = Some ch \<and>
         sys_core (sys_exec tx stays s e) = sys_core s \<and> sys_log (sys_exec tx stays s e) = sys_log s \<and>
         \<not> needs_lock e"
  using assms by (cases e) (auto split: prod.split option.split)

lemma stuck_run:
  assumes "sys_waiting s = Some ch" and "sys_all_enabled tx stays capacity s es"
    and "HangUp ch \<notin> set es"
  shows "(\<forall>e \<in> set es. \<not> needs_lock e) \<and>
         sys_core (sys_run tx stays s es) = sys_core s \<and>
         sys_log (sys_run tx stays s es) = sys_log s \<and>
         sys_waiting (sys_run tx stays s es) = Some ch"
  using assms
proof (induction es arbitrary: s)
  case Nil
  then show ?case by simp
next
  case (Cons e es)
  from Cons.prems have step: "sys_waiting (sys_exec tx stays s e) = Some ch"
    "sys_core (sys_exec tx stays s e) = sys_core s" "sys_log (sys_exec tx stays s e) = sys_log s"
    "\<not> needs_lock e"
    using stuck_step [of s ch capacity e tx stays] by auto
  from Cons.prems(2,3) Cons.IH [OF step(1)] step show ?case by simp
qed

text \<open>A server that lets its tasks run.\<close>

lemma run_first_task:
  assumes "sys_tasks s = u # us"
  shows "sys_tasks (sys_exec tx stays s (RunTask \<pi> try_out 0)) = us"
    and "sys_core (sys_exec tx stays s (RunTask \<pi> try_out 0)) = sys_core s"
    and "sys_waiting (sys_exec tx stays s (RunTask \<pi> try_out 0)) = sys_waiting s"
    and "sys_gone (sys_exec tx stays s (RunTask \<pi> try_out 0)) = sys_gone s"
  using assms by (simp_all add: Let_def)

lemma drain_run:
  assumes "sys_waiting s = None"
  shows "sys_all_enabled tx stays capacity s (drain \<pi> try_out s) \<and>
         sys_tasks (sys_run tx stays s (drain \<pi> try_out s)) = [] \<and>
         sys_core (sys_run tx stays s (drain \<pi> try_out s)) = sys_core s \<and>
         sys_waiting (sys_run tx stays s (drain \<pi> try_out s)) = None \<and>
         sys_gone (sys_run tx stays s (drain \<pi> try_out s)) = sys_gone s"
  using assms
proof (induction "sys_tasks s" arbitrary: s)
  case Nil
  then show ?case by (simp add: drain_def)
next
  case (Cons u us)
  let ?t = "sys_exec tx stays s (RunTask \<pi> try_out 0)"
  note first = run_first_task [OF Cons.hyps(2) [symmetric], of tx stays \<pi> try_out]
  have "drain \<pi> try_out s = RunTask \<pi> try_out 0 # drain \<pi> try_out ?t"
    by (simp only: drain_def first(1) Cons.hyps(2) [symmetric] list.size replicate_Suc add_0_right
        add_Suc_right)
  with Cons.hyps(1) [OF first(1) [symmetric]] Cons.prems first show ?case
    by (simp del: sys_exec.simps)
qed

lemma sys_reachable_run:
  "sys_reachable tx stays capacity s \<Longrightarrow> sys_all_enabled tx stays capacity s es \<Longrightarrow>
   sys_reachable tx stays capacity (sys_run tx stays s es)"
  by (induction es arbitrary: s) (auto intro: sys_reachable_exec)

text \<open>Callbacks that are detached at once.\<close>

lemma detached_setups:
  "w \<in> set (fst (setup_event_handlers tx (\<lambda>_. False) setups)) \<Longrightarrow> watch_hooks w = []"
  by (induction tx "\<lambda>_::hook. False" setups rule: setup_event_handlers.induct)
    (auto simp: setup_events_defs register_and_drop_def split: prod.splits)

lemma setup_tasks_no_close:
  "t \<in> set (snd (setup_event_handlers tx stays setups)) \<Longrightarrow> \<not> is_close_event (task_event t)"
  by (induction tx stays setups rule: setup_event_handlers.induct)
    (auto simp: create_new_producer_event_def split: prod.splits)

lemma no_closes_after_create:
  "no_closes s \<Longrightarrow> no_closes (after_create tx (\<lambda>_. False) s r)"
  using detached_setups setup_tasks_no_close by (auto simp: no_closes_def)

lemma send_existing_no_close:
  "ev \<in> set (snd (send_existing tx snd_out i pid l)) \<Longrightarrow> \<not> is_close_event ev"
  by (induction tx snd_out i pid l rule: send_existing.induct)
    (auto simp: create_new_producer_event_def split: if_splits send_outcome.splits prod.splits)

lemma subscribe_no_close:
  assumes sub: "subscribe_to_events tx \<pi> \<rho> snd_out c sid pid s = (res, c', evs)"
    and ev: "ev \<in> set evs"
  shows "\<not> is_close_event ev"
proof -
  have sent: "send_existing tx snd_out i pid l = (r, evs') \<Longrightarrow> ev \<in> set evs' \<Longrightarrow> is_close_event ev
      \<Longrightarrow> False" for i l r evs'
    using send_existing_no_close [of ev tx snd_out i pid l] by simp
  show ?thesis
    using sub ev
    by (auto simp: subscribe_to_events_def Let_def
        split: if_splits send_outcome.splits sum.splits prod.splits awaited.splits elim: sent)
qed

lemma no_closes_note [simp]: "no_closes (note_produced sid pid res s) = no_closes s"
  by (simp add: no_closes_def note_produced_def split: sum.split prod.split)

lemma no_closes_exec:
  assumes "no_closes s"
  shows "no_closes (sys_exec tx (\<lambda>_. False) s e)"
proof (cases e)
  case (MakeProducer ms sid pid tid kind params)
  with no_closes_after_create [OF assms] show ?thesis
    by (simp add: Let_def)
next
  case (Subscribe \<pi> \<rho> snd_out sid pid ch)
  obtain res c' evs where sub:
    "subscribe_to_events tx \<pi> \<rho> snd_out (sys_core s) sid pid ch = (res, c', evs)"
    by (metis prod.exhaust)
  have "\<not> is_close_event ev" if "ev \<in> set evs" for ev
    using sub that by (rule subscribe_no_close)
  with assms show ?thesis by (auto simp: Subscribe sub no_closes_def)
next
  case (AbandonSubscribe k \<pi> \<rho> snd_out sid pid ch)
  obtain res c' evs where sub:
    "subscribe_to_events tx \<pi> \<rho> snd_out (sys_core s) sid pid ch = (res, c', evs)"
    by (metis prod.exhaust)
  have "\<not> is_close_event ev" if "ev \<in> set evs" for ev
    using sub that by (rule subscribe_no_close)
  with assms show ?thesis by (auto simp: AbandonSubscribe sub no_closes_def)
next
  case (RunTask \<pi> try_out i)
  with assms show ?thesis
    by (auto simp: no_closes_def Let_def dest: in_set_takeD in_set_dropD)
next
  case (Fire i h)
  show ?thesis
  proof (cases "i < length (sys_watches s)")
    case True
    with assms have "fire h (sys_watches s ! i) = (sys_watches s ! i, None)"
      by (simp add: no_closes_def fire_def)
    with assms True show ?thesis by (simp add: Fire no_closes_def)
  next
    case False
    with assms show ?thesis by (simp add: Fire)
  qed
qed (use no_closes_after_create [OF assms] assms in \<open>simp_all add: no_closes_def\<close>)

interpretation detached: invariant_system sys_initial "sys_step tx (\<lambda>_. False) capacity" no_closes
  for tx capacity
  by unfold_locales
    (auto simp: sys_initial_def sys_start_def no_closes_def [of "\<lparr>sys_core = _, sys_watches = [],
       sys_tasks = [], sys_log = [], sys_waiting = None, sys_gone = [], sys_produced = [],
       sys_unconfirmed = []\<rparr>"]
      sys_step_iff intro: no_closes_exec)

section \<open>Properties\<close>

text \<open>C2. No announcement is lost, in any interleaving of requests, tasks, callbacks and clients that go
  away: in every reachable state, for every stored producer and every other participant of its
  session that listens, either the participant has been offered the announcement of the producer,
  or a task that will offer it is still waiting for the lock.\<close>

theorem announcements_not_lost:
  assumes "sys_reachable tx stays capacity s"
    and "has_producer (sys_core s) sid owner prid" and "listens s sid pid ch" and "pid \<noteq> owner"
  shows "announced tx s sid pid ch prid \<or> announcement_due tx s sid owner prid"
  using sys_reachable_inv [OF assms(1)] assms(2-4) by (simp add: sys_inv_def none_lost_def)

theorem announcements_not_lost_witness:
  "announced ex_texts (ex_sys6 (\<lambda>_. True)) 7 ''b'' (Sender 1) (ProducerId 3) \<or>
   announcement_due ex_texts (ex_sys6 (\<lambda>_. True)) 7 ''a'' (ProducerId 3)"
proof (rule announcements_not_lost [OF ex_sys6_reachable])
  show "has_producer (sys_core (ex_sys6 (\<lambda>_. True))) 7 ''a'' (ProducerId 3)"
    using ex_has_producer by (simp add: ex_sys6_def)
qed (rule ex_listens, simp)

text \<open>Announcements arrive: whenever the lock is free, letting the waiting tasks run, one after the
  other, is possible, ends with no task waiting, and leaves every listening participant with an
  offer of the announcement of every producer stored by the others.\<close>

lemma announcements_arrive:
  assumes "sys_reachable tx stays capacity s" and "sys_waiting s = None"
  shows "sys_all_enabled tx stays capacity s (drain \<pi> try_out s) \<and>
         sys_tasks (sys_run tx stays s (drain \<pi> try_out s)) = [] \<and>
         (\<forall>sid owner prid pid ch.
            has_producer (sys_core s) sid owner prid \<and> listens s sid pid ch \<and> pid \<noteq> owner \<longrightarrow>
            announced tx (sys_run tx stays s (drain \<pi> try_out s)) sid pid ch prid)"
proof -
  let ?t = "sys_run tx stays s (drain \<pi> try_out s)"
  note run = drain_run [OF assms(2), of tx stays capacity \<pi> try_out]
  have "sys_reachable tx stays capacity ?t"
    using sys_reachable_run [OF assms(1)] run by blast
  then have "none_lost tx ?t" using sys_reachable_inv by (auto simp: sys_inv_def)
  then have "announced tx ?t sid pid ch prid"
    if "has_producer (sys_core s) sid owner prid \<and> listens s sid pid ch \<and> pid \<noteq> owner"
    for sid owner prid pid ch
    using that run assms(2) by (auto simp: none_lost_def listens_def announcement_due_def)
  with run show ?thesis by blast
qed

lemma announcements_arrive_witness:
  "announced ex_texts (sys_run ex_texts (\<lambda>_. True) (ex_sys6 (\<lambda>_. True))
     (drain (\<lambda>i. i) (\<lambda>_ _ _. TryOk) (ex_sys6 (\<lambda>_. True)))) 7 ''b'' (Sender 1) (ProducerId 3)"
proof -
  have "sys_waiting (ex_sys6 (\<lambda>_. True)) = None"
    by (simp add: ex_sys6_def ex_sys5_def)
  moreover have "has_producer (sys_core (ex_sys6 (\<lambda>_. True))) 7 ''a'' (ProducerId 3)"
    using ex_has_producer by (simp add: ex_sys6_def)
  moreover have "''b'' \<noteq> ''a''" by simp
  ultimately show ?thesis
    using announcements_arrive [OF ex_sys6_reachable, of "\<lambda>_. True" "\<lambda>i. i" "\<lambda>_ _ _. TryOk"] ex_listens
    by blast
qed

text \<open>C3. No announcement is invented: every announcement ever offered to a participant names a producer
  that another participant of the same session created; nobody is told of its own producers, and
  nothing crosses sessions.\<close>

theorem announcements_genuine:
  assumes "sys_reachable tx stays capacity s"
    and "(sid, pid, ch, NewProducer x k, r) \<in> set (sys_log s)"
  shows "\<exists>owner prid. (sid, owner, prid) \<in> set (sys_produced s) \<and> owner \<noteq> pid \<and>
           x = producer_id_proto tx prid"
proof -
  have "log_genuine tx s"
    using sys_reachable_inv [OF assms(1)] by (simp add: sys_inv_def none_invented_def)
  with assms(2) show ?thesis unfolding log_genuine_def made_by_other_def by blast
qed


theorem announcements_genuine_witness:
  "\<exists>owner prid. (7, owner, prid) \<in> set (sys_produced (ex_sys7 (\<lambda>_. True))) \<and> owner \<noteq> ''b'' \<and>
     producer_id_proto ex_texts (ProducerId 3) = producer_id_proto ex_texts prid"
  by (rule announcements_genuine [OF ex_sys7_reachable,
        where k = "media_kind_proto ex_texts Audio" and ch = "Sender 1" and r = TryOk])
    (simp add: ex_sys7_def ex_sys6_def ex_new_producer_def create_new_producer_event_def)

text \<open>C20. One subscriber can stop the whole server: when a participant subscribes with a channel that
  could be made (a capacity of zero panics before the lock) but is too small for the confirmation and the announcements of the others' producers, then from that moment
  until its client goes away no request and no broadcast runs. Every run of enabled events without
  its hang-up consists of library callbacks and other hang-ups only, and leaves the core and the
  log as they were; the hang-up frees the server.\<close>

theorem stuck_subscriber_stops_server:
  assumes "hm_get (sessions (sys_core s)) sid = Some st"
    and "sys_enabled capacity s (Subscribe \<pi> \<rho> snd_out sid pid ch)"
    and "capacity < 1 + length (producers_of_others pid (all_producers st))"
    and "t = sys_exec tx stays s (Subscribe \<pi> \<rho> snd_out sid pid ch)"
    and "sys_all_enabled tx stays capacity t es" and "HangUp ch \<notin> set es"
  shows "(\<forall>e \<in> set es. \<not> needs_lock e) \<and>
         sys_core (sys_run tx stays t es) = sys_core t \<and>
         sys_log (sys_run tx stays t es) = sys_log t \<and>
         sys_waiting (sys_run tx stays t es) = Some ch \<and>
         sys_waiting (sys_exec tx stays (sys_run tx stays t es) (HangUp ch)) = None"
proof -
  from assms(2) have "unpolled_channel capacity snd_out" by simp
  from subscribe_unpolled [where pid = pid and tx = tx and \<pi> = \<pi> and \<rho> = \<rho> and s = ch,
      OF assms(1) this] assms(3)
  have "sys_waiting t = Some ch" by (auto simp: assms(4))
  from stuck_run [OF this assms(5,6)] show ?thesis by simp
qed

theorem stuck_subscriber_stops_server_witness:
  "\<exists>s. sys_reachable ex_texts (\<lambda>_. True) 1 s \<and> sys_waiting s = Some (Sender 1) \<and>
     sys_core (sys_run ex_texts (\<lambda>_. True) s [Fire 0 OnClose, HangUp (Sender 2)]) = sys_core s"
proof (intro exI conjI)
  let ?s = "sys_exec ex_texts (\<lambda>_. True) (ex_sys5 (\<lambda>_. True)) (ex_subscribe 1)"
  let ?st = "ex_session (ex_sender_side\<lparr>producers := [(ProducerId 3, ex_producer 3)]\<rparr>) ex_receiver_side"
  show stuck: "sys_waiting ?s = Some (Sender 1)" by (rule ex_subscribe_stuck)
  have enabled: "sys_enabled 1 (ex_sys5 (\<lambda>_. True)) (ex_subscribe 1)"
    by (simp add: ex_subscribe_def ex_sys5_def ex_channel_unpolled del: One_nat_def)
  then show "sys_reachable ex_texts (\<lambda>_. True) 1 ?s"
    by (rule sys_reachable_exec [OF ex_setup_reachable])
  have live: "hm_get (sessions (sys_core (ex_sys5 (\<lambda>_. True)))) 7 = Some ?st"
    by (simp add: ex_sys5_def ex_core5_eq)
  have small: "1 < 1 + length (producers_of_others ''b'' (all_producers ?st))"
    by (simp add: producers_of_others_def all_producers_def ex_session_def
        ex_sender_side_def ex_receiver_side_def ex_values new_participant_def)
  have run: "sys_all_enabled ex_texts (\<lambda>_. True) 1 ?s [Fire 0 OnClose, HangUp (Sender 2)]"
    by simp
  from stuck_subscriber_stops_server [OF live enabled [unfolded ex_subscribe_def] small refl
      run [unfolded ex_subscribe_def]]
  show "sys_core (sys_run ex_texts (\<lambda>_. True) ?s [Fire 0 OnClose, HangUp (Sender 2)]) = sys_core ?s"
    unfolding ex_subscribe_def by simp
qed

text \<open>C32. If the library detaches a callback when the id it returned is dropped, as the source drops it
  at once, then no client is ever told that a transport, producer or consumer was closed.\<close>

theorem no_close_is_reported_when_detached:
  assumes "sys_reachable tx (\<lambda>_. False) capacity s" and "(sid, pid, ch, ev, r) \<in> set (sys_log s)"
  shows "\<not> is_close_event ev"
proof -
  have "no_closes s"
    using assms(1) unfolding sys_reachable_def
    by (blast intro: detached.reachable_inv sys_initial_def [THEN iffD2])
  with assms(2) show ?thesis unfolding no_closes_def by blast
qed

theorem no_close_is_reported_when_detached_witness:
  "list_all (\<lambda>(sid, pid, ch, ev, r). \<not> is_close_event ev) (sys_log (ex_sys7 (\<lambda>_. False)))"
  unfolding list_all_iff
  using no_close_is_reported_when_detached [OF ex_sys7_reachable] by auto

end
