(* ===== verification/Sfu_Interleaving.thy ===== *)
theory Sfu_Interleaving
  imports Sfu_Threads Sfu_Runs
begin

text \<open>
  The fine-grained server implements the machine of critical sections: every request that arrived
  is in exactly one place (tickets), and every reachable state is a state of the machine in which
  what a request still has to do after the lock has been done already. So the delivery of
  announcements holds at the grain of the await points too.
\<close>

section \<open>Tickets\<close>

definition tickets :: "threads \<Rightarrow> nat list" where
  "tickets f = map fst (th_queue f) @ (case guard_ticket (th_guard f) of Some n \<Rightarrow> [n] | None \<Rightarrow> []) @
     map fst (th_after f) @ th_done f @ th_dropped f"

definition tickets_ok :: "threads \<Rightarrow> bool" where
  "tickets_ok f \<longleftrightarrow> mset (tickets f) = mset [0..<th_next f]"

lemma tickets_ok_distinct: "tickets_ok f \<Longrightarrow> distinct (tickets f)"
  unfolding tickets_ok_def by (metis distinct_upt mset_eq_imp_distinct_iff)

lemma tickets_ok_set: "tickets_ok f \<Longrightarrow> set (tickets f) = {..<th_next f}"
  unfolding tickets_ok_def by (metis atLeast0LessThan atLeast_upt mset_eq_setD)

lemma tickets_ok_finish:
  assumes "tickets_ok f" and "th_guard f = Held n j"
  shows "tickets_ok (finish tx a n j f)"
  using assms
  by (cases j) (auto simp: tickets_ok_def tickets_def Let_def split: option.split)

lemma tickets_ok_exec:
  assumes inv: "tickets_ok f" and en: "th_enabled capacity f e"
  shows "tickets_ok (th_exec tx stays f e)"
proof (cases e)
  case (Arrive call)
  with inv show ?thesis by (simp add: tickets_ok_def tickets_def)
next
  case (Poll i)
  with inv show ?thesis by (simp add: tickets_ok_def tickets_def)
next
  case (Grant i)
  with en have i: "i < length (th_queue f)" and free: "th_guard f = Free" by simp_all
  from i have "mset (map fst (th_queue f))
      = add_mset (fst (th_queue f ! i)) (mset (map fst (delete_at i (th_queue f))))"
    using mset_delete_at [of i "map fst (th_queue f)"] by (simp add: map_delete_at)
  with inv show ?thesis
    by (auto simp: Grant free tickets_ok_def tickets_def split: prod.split)
next
  case (Finish a)
  with en obtain n j where "th_guard f = Held n j" by (auto split: guard.splits)
  with inv tickets_ok_finish show ?thesis by (simp add: Finish)
next
  case (Return i)
  with en have "mset (map fst (th_after f))
      = add_mset (fst (th_after f ! i)) (mset (map fst (delete_at i (th_after f))))"
    using mset_delete_at [of i "map fst (th_after f)"] by (simp add: map_delete_at)
  with inv show ?thesis
    by (auto simp: Return tickets_ok_def tickets_def split: prod.split)
next
  case (Cancel n)
  show ?thesis
  proof (cases "guard_ticket (th_guard f) = Some n")
    case True
    with inv show ?thesis by (simp add: Cancel tickets_ok_def tickets_def)
  next
    case False
    with en obtain call where "(n, Request call) \<in> set (th_queue f)"
      by (auto simp: Cancel split: guard.splits job.splits)
    moreover have "distinct (map fst (th_queue f))"
      using tickets_ok_distinct [OF inv] by (simp add: tickets_def)
    ultimately have "mset (th_queue f)
        = add_mset (n, Request call) (mset (filter (\<lambda>(k, j). k \<noteq> n) (th_queue f)))"
      by (rule mset_filter_key [rotated])
    from arg_cong [OF this, of "image_mset fst"] have "mset (map fst (th_queue f))
        = add_mset n (mset (map fst (filter (\<lambda>(k, j). k \<noteq> n) (th_queue f))))"
      unfolding mset_map image_mset_add_mset fst_conv .
    with inv False show ?thesis
      by (simp add: Cancel tickets_ok_def tickets_def del: mset_map mset_filter)
  qed
next
  case (Abandon a k)
  with en obtain n call where "th_guard f = Held n (Request call)"
    by (auto split: guard.splits job.splits)
  with inv show ?thesis
    by (simp add: Abandon tickets_ok_def tickets_def split: prod.split)
next
  case (Report i h)
  with inv show ?thesis
    by (auto simp: tickets_ok_def tickets_def split: prod.split option.split)
next
  case (DropStream ch)
  with inv show ?thesis by (simp add: tickets_ok_def tickets_def)
qed

lemma tickets_ok_start: "th_initial f \<Longrightarrow> tickets_ok f"
  by (auto simp: th_initial_def th_start_def tickets_ok_def tickets_def)

interpretation tickets: invariant_system th_initial "th_step tx stays capacity" tickets_ok
  for tx stays capacity
  by unfold_locales (auto simp: th_step_iff intro: tickets_ok_start tickets_ok_exec)

section \<open>The requests that arrived\<close>

text \<open>No subscription waits for the lock, or holds it, whose channel could not be made.\<close>

fun job_ok :: "nat \<Rightarrow> job \<Rightarrow> bool" where
  "job_ok capacity (Request call) = call_ok capacity call"
| "job_ok capacity (Broadcast t) = True"

fun guard_ok :: "nat \<Rightarrow> guard \<Rightarrow> bool" where
  "guard_ok capacity (Held n j) = job_ok capacity j"
| "guard_ok capacity _ = True"

definition requests_ok :: "nat \<Rightarrow> threads \<Rightarrow> bool" where
  "requests_ok capacity f \<longleftrightarrow>
     (\<forall>(n, j) \<in> set (th_queue f). job_ok capacity j) \<and> guard_ok capacity (th_guard f)"

lemma requests_ok_exec:
  assumes inv: "requests_ok capacity f" and en: "th_enabled capacity f e"
  shows "requests_ok capacity (th_exec tx stays f e)"
proof (cases e)
  case (Grant i)
  with en have "th_queue f ! i \<in> set (th_queue f)" by simp
  with inv Grant show ?thesis
    by (auto simp: requests_ok_def dest: in_set_delete_at split: prod.split)
next
  case (Finish a)
  with en obtain n j where "th_guard f = Held n j" by (auto split: guard.splits)
  with inv show ?thesis
    by (cases j) (auto simp: Finish requests_ok_def Let_def split: option.split)
qed (use inv en in \<open>auto simp: requests_ok_def split: prod.splits option.splits guard.splits job.splits\<close>)

lemma requests_ok_start: "th_initial f \<Longrightarrow> requests_ok capacity f"
  by (auto simp: th_initial_def th_start_def requests_ok_def)

interpretation requests: invariant_system th_initial "th_step tx stays capacity" "requests_ok capacity"
  for tx stays capacity
  by unfold_locales (auto simp: th_step_iff intro: requests_ok_start requests_ok_exec)

section \<open>The machine that is implemented\<close>

fun job_tasks :: "job \<Rightarrow> broadcast_task list" where
  "job_tasks (Request call) = []"
| "job_tasks (Broadcast t) = [t]"

fun guard_tasks :: "guard \<Rightarrow> broadcast_task list" where
  "guard_tasks (Held n j) = job_tasks j"
| "guard_tasks _ = []"

definition all_tasks :: "texts \<Rightarrow> (hook \<Rightarrow> bool) \<Rightarrow> threads \<Rightarrow> broadcast_task list" where
  "all_tasks tx stays f =
     th_spawned f @ concat (map (job_tasks \<circ> snd) (th_queue f)) @ guard_tasks (th_guard f) @
     concat (map (snd \<circ> setup_event_handlers tx stays \<circ> snd) (th_after f))"

definition all_watches :: "texts \<Rightarrow> (hook \<Rightarrow> bool) \<Rightarrow> threads \<Rightarrow> close_watch list" where
  "all_watches tx stays f =
     th_watches f @ concat (map (fst \<circ> setup_event_handlers tx stays \<circ> snd) (th_after f))"

definition implements :: "texts \<Rightarrow> (hook \<Rightarrow> bool) \<Rightarrow> threads \<Rightarrow> system \<Rightarrow> bool" where
  "implements tx stays f s \<longleftrightarrow>
     th_core f = sys_core s \<and> th_log f = sys_log s \<and> th_gone f = sys_gone s \<and>
     th_produced f = sys_produced s \<and> th_unconfirmed f = sys_unconfirmed s \<and>
     stuck_channel (th_guard f) = sys_waiting s \<and>
     mset (all_tasks tx stays f) = mset (sys_tasks s) \<and>
     mset (all_watches tx stays f) = mset (sys_watches s)"

text \<open>The end of a critical section is the event of the machine.\<close>

fun call_event :: "answers \<Rightarrow> core_call \<Rightarrow> sys_event" where
  "call_event a (CallRegister pid ptype) = Register (ans_id a) pid ptype"
| "call_event a (CallJoin sid pid ptype) = Join sid pid ptype"
| "call_event a (CallCapabilities sid) = HangUp (Sender 0)"
| "call_event a (CallSetCapabilities sid pid caps) = SetCapabilities sid pid caps"
| "call_event a (CallTransport sid pid direction) = MakeTransport (ans_ms a) sid pid direction"
| "call_event a (CallConnect sid pid tid dtls) = Connect (ans_ms a) sid pid tid dtls"
| "call_event a (CallProducer sid pid tid kind params) = MakeProducer (ans_ms a) sid pid tid kind params"
| "call_event a (CallConsumer sid pid tid prid caps) = MakeConsumer (ans_ms a) sid pid tid prid caps"
| "call_event a (CallResume sid pid cid) = Resume (ans_ms a) sid pid cid"
| "call_event a (CallClose sid) = Close sid"
| "call_event a (CallSubscribe sid pid ch) =
     Subscribe (ans_order a) (ans_inner_order a) (ans_send a) sid pid ch"
| "call_event a CallShutdown = Shutdown (ans_order a)"

text \<open>So is a request that is dropped midway.\<close>

fun midway_event :: "answers \<Rightarrow> nat \<Rightarrow> core_call \<Rightarrow> sys_event" where
  "midway_event a k (CallRegister pid ptype) = AbandonRegister k"
| "midway_event a k (CallSubscribe sid pid ch) =
     AbandonSubscribe k (ans_order a) (ans_inner_order a) (ans_send a) sid pid ch"
| "midway_event a k _ = HangUp (Sender 0)"

lemma just_simps [simp]:
  "eff_core (just c) = c" "eff_setups (just c) = []" "eff_log (just c) = []"
  "eff_produced (just c) = []" "eff_stuck (just c) = None"
  by (simp_all add: just_def)

lemma setup_event_handlers_Nil_fst_snd [simp]:
  "pending_setups (Inl e) = []"
  by (simp add: pending_setups_def)

lemma perform_event:
  assumes "\<And>sid. call \<noteq> CallCapabilities sid" and free: "sys_waiting s = None"
    and "t = sys_exec tx stays s (call_event a call)" and "e = perform tx a (sys_core s) call"
  shows "sys_core t = eff_core e \<and> sys_log t = sys_log s @ eff_log e \<and> sys_gone t = sys_gone s \<and>
     sys_produced t = sys_produced s @ eff_produced e \<and> sys_unconfirmed t = sys_unconfirmed s \<and>
     sys_waiting t = eff_stuck e \<and>
     sys_tasks t = sys_tasks s @ snd (setup_event_handlers tx stays (eff_setups e)) \<and>
     sys_watches t = sys_watches s @ fst (setup_event_handlers tx stays (eff_setups e))"
  using assms
  by (cases call)
    (auto simp: after_create_def note_produced_def Let_def split: prod.splits sum.splits)

lemma perform_stuck: "eff_stuck (perform tx a c call) = Some ch \<Longrightarrow> eff_setups (perform tx a c call) = []"
  by (cases call) (auto split: prod.splits)

lemma call_enabled:
  "\<lbrakk>answers_ok capacity (sys_core s) a call; call_ok capacity call; sys_waiting s = None\<rbrakk> \<Longrightarrow>
   sys_enabled capacity s (call_event a call)"
  by (cases call) simp_all

lemma finish_request:
  assumes impl: "implements tx stays f s" and held: "th_guard f = Held n (Request call)"
    and ok: "answers_ok capacity (th_core f) a call" and arrived: "call_ok capacity call"
  shows "\<exists>t. (sys_step tx stays capacity)\<^sup>*\<^sup>* s t \<and> implements tx stays (finish tx a n (Request call) f) t"
proof (cases "\<exists>sid. call = CallCapabilities sid")
  case True
  with impl held have "implements tx stays (finish tx a n (Request call) f) s"
    by (auto simp: implements_def all_tasks_def all_watches_def)
  then show ?thesis by blast
next
  case False
  let ?e = "perform tx a (sys_core s) call"
  define t where "t = sys_exec tx stays s (call_event a call)"
  from impl held have core: "th_core f = sys_core s" and free: "sys_waiting s = None"
    by (simp_all add: implements_def)
  have "sys_step tx stays capacity s t"
    unfolding t_def using ok arrived free by (intro sys_step.event call_enabled) (simp_all add: core)
  moreover have "implements tx stays (finish tx a n (Request call) f) t"
  proof -
    from False perform_event [OF _ free t_def refl]
    have t: "sys_core t = eff_core ?e" "sys_log t = sys_log s @ eff_log ?e" "sys_gone t = sys_gone s"
      "sys_produced t = sys_produced s @ eff_produced ?e" "sys_unconfirmed t = sys_unconfirmed s"
      "sys_waiting t = eff_stuck ?e"
      "sys_tasks t = sys_tasks s @ snd (setup_event_handlers tx stays (eff_setups ?e))"
      "sys_watches t = sys_watches s @ fst (setup_event_handlers tx stays (eff_setups ?e))"
      by blast+
    from impl held perform_stuck [of tx a "sys_core s" call] show ?thesis
      by (cases "eff_stuck ?e")
        (auto simp: implements_def all_tasks_def all_watches_def t core Let_def)
  qed
  ultimately show ?thesis by blast
qed

lemma abandon_simulated:
  assumes impl: "implements tx stays f s" and held: "th_guard f = Held n (Request call)"
    and ok: "midway_ok capacity (th_core f) a k call" and arrived: "call_ok capacity call"
  shows "\<exists>t. (sys_step tx stays capacity)\<^sup>*\<^sup>* s t \<and> implements tx stays (th_exec tx stays f (Abandon a k)) t"
proof -
  let ?t = "sys_exec tx stays s (midway_event a k call)"
  from impl held have core: "th_core f = sys_core s" and free: "sys_waiting s = None"
    by (simp_all add: implements_def)
  have "sys_enabled capacity s (midway_event a k call)"
    using ok arrived free core by (cases call) simp_all
  then have "sys_step tx stays capacity s ?t" by (rule sys_step.event)
  moreover have "implements tx stays (th_exec tx stays f (Abandon a k)) ?t"
    using impl held ok free
    by (cases call) (auto simp: implements_def all_tasks_def all_watches_def split: prod.split)
  ultimately show ?thesis by blast
qed

lemma run_task_mset:
  assumes "t \<in># mset (sys_tasks s)"
  obtains i where "i < length (sys_tasks s)" and "sys_tasks s ! i = t"
    and "add_mset t (mset (delete_at i (sys_tasks s))) = mset (sys_tasks s)"
  using in_mset_nth [OF assms] mset_delete_at by metis

lemma finish_broadcast:
  assumes impl: "implements tx stays f s" and held: "th_guard f = Held n (Broadcast u)"
  shows "\<exists>t. (sys_step tx stays capacity)\<^sup>*\<^sup>* s t \<and> implements tx stays (finish tx a n (Broadcast u) f) t"
proof -
  let ?g = "finish tx a n (Broadcast u) f"
  from impl held have core: "th_core f = sys_core s" and free: "sys_waiting s = None"
    by (simp_all add: implements_def)
  have tasks: "mset (all_tasks tx stays f) = add_mset u (mset (all_tasks tx stays ?g))"
    by (simp add: all_tasks_def held)
  with impl have "u \<in># mset (sys_tasks s)" by (metis implements_def union_single_eq_member)
  then obtain i where i: "i < length (sys_tasks s)" "sys_tasks s ! i = u"
    and rest: "add_mset u (mset (delete_at i (sys_tasks s))) = mset (sys_tasks s)"
    by (rule run_task_mset)
  define t where "t = sys_exec tx stays s (RunTask (ans_order a) (ans_try a) i)"
  have "sys_step tx stays capacity s t"
    unfolding t_def using free by (intro sys_step.event) simp
  moreover have "implements tx stays ?g t"
  proof -
    have "sys_tasks t = delete_at i (sys_tasks s)"
      using i(1) by (simp add: t_def Let_def delete_at_def)
    with rest tasks impl have "mset (all_tasks tx stays ?g) = mset (sys_tasks t)"
      by (metis add_mset_add_mset_same_iff implements_def)
    then show ?thesis
      using impl held i core by (auto simp: implements_def all_watches_def t_def Let_def)
  qed
  ultimately show ?thesis by blast
qed

section \<open>Every event is simulated\<close>

lemma fire_cases:
  obtains (silent) "fire h w = (w, None)"
    | (reports) w' where "fire h w = (w', Some (watch_session w, watch_event w))"
        "\<not> is_closed w" "is_closed w'"
  by (cases "h \<in> set (watch_hooks w) \<and> \<not> is_closed w") (auto simp: fire_def run_callback_def)

lemma report_simulated:
  assumes impl: "implements tx stays f s" and i: "i < length (th_watches f)"
  shows "\<exists>t. (sys_step tx stays capacity)\<^sup>*\<^sup>* s t \<and> implements tx stays (th_exec tx stays f (Report i h)) t"
proof (cases h "th_watches f ! i" rule: fire_cases)
  case silent
  with impl show ?thesis by (intro exI [of _ s]) (simp add: implements_def all_tasks_def all_watches_def)
next
  case (reports w')
  let ?w = "th_watches f ! i"
  let ?g = "th_exec tx stays f (Report i h)"
  have "?w \<in># mset (all_watches tx stays f)"
    using i by (simp add: all_watches_def)
  with impl obtain k where k: "k < length (sys_watches s)" "sys_watches s ! k = ?w"
    by (metis implements_def in_mset_nth)
  define t where "t = sys_exec tx stays s (Fire k h)"
  have "sys_step tx stays capacity s t"
    unfolding t_def by (intro sys_step.event) simp
  moreover have "implements tx stays ?g t"
  proof -
    have "sys_watches t = (sys_watches s)[k := w']"
      using k reports(1) by (simp add: t_def)
    then have "add_mset ?w (mset (sys_watches t)) = add_mset w' (mset (sys_watches s))"
      using mset_list_update [OF k(1), of w'] k(2) by simp
    moreover have "add_mset ?w (mset (all_watches tx stays ?g)) = add_mset w' (mset (all_watches tx stays f))"
      using mset_list_update [OF i, of w'] reports(1)
      by (simp add: all_watches_def)
    ultimately have "mset (all_watches tx stays ?g) = mset (sys_watches t)"
      using impl by (metis add_mset_add_mset_same_iff implements_def)
    then show ?thesis
      using impl k reports(1) by (simp add: implements_def all_tasks_def t_def)
  qed
  ultimately show ?thesis by blast
qed

lemma tickets_ok_queue:
  assumes "tickets_ok f"
  shows "distinct (map fst (th_queue f))"
    and "guard_ticket (th_guard f) = Some n \<Longrightarrow> (n, j) \<notin> set (th_queue f)"
proof -
  from tickets_ok_distinct [OF assms] show "distinct (map fst (th_queue f))"
    by (simp add: tickets_def)
  assume "guard_ticket (th_guard f) = Some n"
  with tickets_ok_distinct [OF assms] have "n \<notin> fst ` set (th_queue f)"
    by (simp add: tickets_def)
  then show "(n, j) \<notin> set (th_queue f)" by (metis fst_conv imageI)
qed

lemma cancel_simulated:
  assumes impl: "implements tx stays f s" and inv: "tickets_ok f" and en: "th_enabled capacity f (Cancel n)"
  shows "\<exists>t. (sys_step tx stays capacity)\<^sup>*\<^sup>* s t \<and> implements tx stays (th_exec tx stays f (Cancel n)) t"
proof (cases "guard_ticket (th_guard f) = Some n")
  case True
  then consider j where "th_guard f = Held n j" | ch where "th_guard f = Stuck n ch"
    by (cases "th_guard f") auto
  then show ?thesis
  proof cases
    case (1 j)
    with en tickets_ok_queue(2) [OF inv True] obtain call where "j = Request call"
      by (cases j) auto
    with 1 impl show ?thesis
      by (intro exI [of _ s]) (simp add: implements_def all_tasks_def all_watches_def)
  next
    case (2 ch)
    with impl have waiting: "sys_waiting s = Some ch" by (simp add: implements_def)
    have "sys_step tx stays capacity s (sys_exec tx stays s (HangUp ch))"
      by (intro sys_step.event) simp
    moreover have "implements tx stays (th_exec tx stays f (Cancel n)) (sys_exec tx stays s (HangUp ch))"
      using impl 2 waiting by (simp add: implements_def all_tasks_def all_watches_def)
    ultimately show ?thesis by blast
  qed
next
  case False
  with en obtain call where "(n, Request call) \<in> set (th_queue f)"
    by (auto split: guard.splits job.splits)
  from concat_filter_key [OF tickets_ok_queue(1) [OF inv] this, of "job_tasks \<circ> snd"] impl False
  show ?thesis
    by (intro exI [of _ s]) (simp add: implements_def all_tasks_def all_watches_def)
qed

lemma th_exec_simulated:
  assumes impl: "implements tx stays f s" and inv: "tickets_ok f" and req: "requests_ok capacity f"
    and en: "th_enabled capacity f e"
  shows "\<exists>t. (sys_step tx stays capacity)\<^sup>*\<^sup>* s t \<and> implements tx stays (th_exec tx stays f e) t"
proof (cases e)
  case (Arrive call)
  with impl have "implements tx stays (th_exec tx stays f e) s"
    by (simp add: implements_def all_tasks_def all_watches_def)
  then show ?thesis by blast
next
  case (Poll i)
  with en have "mset (th_spawned f) = add_mset (th_spawned f ! i) (mset (delete_at i (th_spawned f)))"
    by (simp add: mset_delete_at)
  then have "mset (all_tasks tx stays (th_exec tx stays f e)) = mset (all_tasks tx stays f)"
    by (simp add: Poll all_tasks_def)
  with impl have "implements tx stays (th_exec tx stays f e) s"
    by (simp add: Poll implements_def all_watches_def)
  then show ?thesis by blast
next
  case (Grant i)
  with en have i: "i < length (th_queue f)" and free: "th_guard f = Free" by simp_all
  obtain n j where nj: "th_queue f ! i = (n, j)" by fastforce
  have "mset (all_tasks tx stays (th_exec tx stays f e)) = mset (all_tasks tx stays f)"
    using mset_concat_delete_at [OF i, of "job_tasks \<circ> snd", symmetric] nj free
    by (simp add: Grant all_tasks_def)
  with impl free nj have "implements tx stays (th_exec tx stays f e) s"
    by (simp add: Grant implements_def all_watches_def)
  then show ?thesis by blast
next
  case (Finish a)
  with en consider n call where "th_guard f = Held n (Request call)" "answers_ok capacity (th_core f) a call"
    | n u where "th_guard f = Held n (Broadcast u)"
    by (auto split: guard.splits job.splits)
  then show ?thesis
    using finish_request [OF impl] finish_broadcast [OF impl] req
    by cases (auto simp: Finish requests_ok_def)
next
  case (Return i)
  with en have i: "i < length (th_after f)" by simp
  obtain n ss where nj: "th_after f ! i = (n, ss)" by fastforce
  have "mset (all_tasks tx stays (th_exec tx stays f e)) = mset (all_tasks tx stays f)"
    using mset_concat_delete_at [OF i, of "snd \<circ> setup_event_handlers tx stays \<circ> snd", symmetric] nj
    by (simp add: Return all_tasks_def split: prod.split)
  moreover have "mset (all_watches tx stays (th_exec tx stays f e)) = mset (all_watches tx stays f)"
    using mset_concat_delete_at [OF i, of "fst \<circ> setup_event_handlers tx stays \<circ> snd", symmetric] nj
    by (simp add: Return all_watches_def split: prod.split)
  ultimately have "implements tx stays (th_exec tx stays f e) s"
    using impl nj by (simp add: Return implements_def split: prod.split)
  then show ?thesis by blast
next
  case (Cancel n)
  with cancel_simulated [OF impl inv] en show ?thesis by blast
next
  case (Abandon a k)
  with en obtain n call where held: "th_guard f = Held n (Request call)"
    and "midway_ok capacity (th_core f) a k call"
    by (auto split: guard.splits job.splits)
  moreover from held req have "call_ok capacity call" by (simp add: requests_ok_def)
  ultimately show ?thesis unfolding Abandon by (rule abandon_simulated [OF impl])
next
  case (Report i h)
  with report_simulated [OF impl] en show ?thesis by simp
next
  case (DropStream ch)
  with en impl have "sys_waiting s \<noteq> Some ch"
    by (cases "th_guard f") (auto simp: implements_def)
  with impl have "implements tx stays (th_exec tx stays f e) (sys_exec tx stays s (HangUp ch))"
    by (simp add: DropStream implements_def all_tasks_def all_watches_def)
  moreover have "sys_step tx stays capacity s (sys_exec tx stays s (HangUp ch))"
    by (intro sys_step.event) simp
  ultimately show ?thesis by blast
qed

definition match :: "texts \<Rightarrow> (hook \<Rightarrow> bool) \<Rightarrow> nat \<Rightarrow> threads \<Rightarrow> system \<Rightarrow> bool" where
  "match tx stays capacity f s \<longleftrightarrow>
     implements tx stays f s \<and> tickets_ok f \<and> requests_ok capacity f"

interpretation threads: simulation th_initial "th_step tx stays capacity" sys_initial
  "sys_step tx stays capacity" "match tx stays capacity"
  for tx stays capacity
proof
  fix f assume "th_initial f"
  then obtain c where c: "core_start c" "f = th_start c" by (auto simp: th_initial_def)
  then have "match tx stays capacity f (sys_start c)"
    using tickets_ok_start [OF \<open>th_initial f\<close>] requests_ok_start [OF \<open>th_initial f\<close>]
    by (simp add: match_def implements_def th_start_def sys_start_def all_tasks_def all_watches_def)
  with c(1) show "\<exists>s. sys_initial s \<and> match tx stays capacity f s" by (auto simp: sys_initial_def)
next
  fix f s g assume "match tx stays capacity f s" and "th_step tx stays capacity f g"
  then show "\<exists>t. (sys_step tx stays capacity)\<^sup>*\<^sup>* s t \<and> match tx stays capacity g t"
    using th_exec_simulated tickets_ok_exec requests_ok_exec unfolding match_def th_step_iff by blast
qed

lemma th_reachable_simulated:
  assumes "th_reachable tx stays capacity f"
  obtains s where "sys_reachable tx stays capacity s" and "implements tx stays f s" and "tickets_ok f"
proof -
  from assms threads.simulated [of _ tx stays capacity f]
  obtain s0 s where "sys_initial s0" "(sys_step tx stays capacity)\<^sup>*\<^sup>* s0 s" "match tx stays capacity f s"
    unfolding th_reachable_def by blast
  then show thesis
    by (intro that [of s]) (auto simp: sys_initial_def sys_reachable_def match_def)
qed

text \<open>So the invariants of the machine hold of the interleaved server.\<close>

interpretation delivered: refined_invariant th_initial "th_step tx stays capacity" sys_initial
    "sys_step tx stays capacity" "match tx stays capacity" "sys_inv tx"
  for tx stays capacity ..

lemma th_reachable_inv:
  assumes "th_reachable tx stays capacity f"
  obtains s where "sys_inv tx s" and "implements tx stays f s" and "tickets_ok f" and "requests_ok capacity f"
  using assms delivered.reachable_match_inv [of _ tx stays capacity f]
  unfolding th_reachable_def match_def by blast

lemma th_reachable_core: "th_reachable tx stays capacity f \<Longrightarrow> core_inv (th_core f)"
  by (erule th_reachable_inv) (simp add: implements_def sys_inv_def)

end
