(* ===== verification/Sfu_Registry.thy ===== *)
theory Sfu_Registry
  imports Sfu_Operations
begin

text \<open>
  What the core promises, without its data structures: a registry of sessions, each on a router of
  the pool and with one or two members. A session opens with one member on a router with room, a
  second member enters, a session is closed, or all are. Media objects, capabilities, event
  channels and the round-robin index do not appear.
\<close>

section \<open>Specification\<close>

type_synonym registry = "uuid \<rightharpoonup> router_id \<times> string set"

definition registry_load :: "registry \<Rightarrow> router_id \<Rightarrow> nat" where
  "registry_load m rid = card {sid. \<exists>members. m sid = Some (rid, members)}"

inductive registry_step :: "router_id set \<Rightarrow> nat \<Rightarrow> registry \<Rightarrow> registry \<Rightarrow> bool"
  for pool limit where
  open_session: "m sid = None \<Longrightarrow> rid \<in> pool \<Longrightarrow> registry_load m rid < limit \<Longrightarrow>
    registry_step pool limit m (m(sid \<mapsto> (rid, {pid})))"
| enter: "m sid = Some (rid, {p}) \<Longrightarrow> q \<noteq> p \<Longrightarrow>
    registry_step pool limit m (m(sid \<mapsto> (rid, {p, q})))"
| close_one: "registry_step pool limit m (m(sid := None))"
| close_all: "registry_step pool limit m Map.empty"
| other: "registry_step pool limit m m"

definition registry_of :: "sfu_core \<Rightarrow> registry" where
  "registry_of c sid =
     map_option (\<lambda>st. (router_ident (session_router st), hm_keys (participants st)))
       (hm_get (sessions c) sid)"

definition pool_ids :: "sfu_core \<Rightarrow> router_id set" where
  "pool_ids c = router_ident ` set (routers (router_pool c))"

definition session_limit :: "sfu_core \<Rightarrow> nat" where
  "session_limit c = unat (max_sessions_per_router c)"

section \<open>Lemmas\<close>

lemma registry_load_of:
  assumes "core_inv c"
  shows "registry_load (registry_of c) rid = sessions_on c rid"
  using assms
  by (auto simp: registry_load_def registry_of_def sessions_on_def core_inv_def sessions_ok_def
      hm_count_card intro!: arg_cong [of _ _ card])

lemma registry_of_changes:
  "changes c sid pid Q c' \<Longrightarrow> registry_of c' = registry_of c"
  by (auto simp: changes_def registry_of_def fun_eq_iff hm_keys_get)

lemma same_limits_changes:
  "changes c sid pid Q c' \<Longrightarrow> pool_ids c' = pool_ids c \<and> session_limit c' = session_limit c"
  by (auto simp: changes_def pool_ids_def session_limit_def)

lemma close_sessions_limits [simp]:
  "pool_ids (close_sessions sids c) = pool_ids c"
  "session_limit (close_sessions sids c) = session_limit c"
proof -
  have "max_sessions_per_router (close_session sid c) = max_sessions_per_router c" for sid c
    by (simp add: close_session_def split: option.split)
  then show "session_limit (close_sessions sids c) = session_limit c"
    by (induction sids arbitrary: c) (simp_all add: session_limit_def)
qed (simp add: pool_ids_def close_sessions_pool)

lemma register_refines:
  assumes inv: "core_inv c" and fresh: "hm_get (sessions c) new_id = None"
    and reg: "register_session new_id c pid ptype = (res, c')"
  shows "registry_step (pool_ids c) (session_limit c) (registry_of c) (registry_of c') \<and>
         pool_ids c' = pool_ids c \<and> session_limit c' = session_limit c"
proof -
  from inv have pool: "pool_ok (router_pool c)" by (simp add: core_inv_def)
  from pool reg show ?thesis
  proof (cases rule: register_session_cases)
    case (full rm)
    then have "registry_of c' = registry_of c" by (simp add: registry_of_def fun_eq_iff)
    with full show ?thesis by (simp add: registry_step.other pool_ids_def session_limit_def)
  next
    case (ok r n rm)
    have "registry_of c' = (registry_of c)(new_id \<mapsto> (router_ident r, {pid}))"
      by (simp add: ok(7) registry_of_def fun_eq_iff)
    moreover have "registry_of c new_id = None" using fresh by (simp add: registry_of_def)
    moreover have "registry_load (registry_of c) (router_ident r) < session_limit c"
      using core_inv_capacity(1) [OF inv ok(3)] ok(4)
      by (simp add: registry_load_of [OF inv] session_limit_def word_less_nat_alt)
    moreover have "router_ident r \<in> pool_ids c" using ok(2) by (simp add: pool_ids_def)
    ultimately show ?thesis
      using ok(7,9) by (simp add: registry_step.open_session pool_ids_def session_limit_def)
  qed
qed

lemma join_refines:
  assumes inv: "core_inv c" and join: "join_session tx c sid pid ptype = (res, c')"
  shows "registry_step (pool_ids c) (session_limit c) (registry_of c) (registry_of c') \<and>
         pool_ids c' = pool_ids c \<and> session_limit c' = session_limit c"
proof -
  from join_session_cases [OF join] consider "c' = c"
    | st where "hm_get (sessions c) sid = Some st"
        "hm_len (participants st) < max_participants st" "\<not> hm_contains (participants st) pid"
        "c' = put_participant sid st pid (new_participant ptype) c"
    by blast
  then show ?thesis
  proof cases
    case 1
    then show ?thesis by (simp add: registry_step.other)
  next
    case (2 st)
    from inv 2(1) have st: "session_ok st" by (auto simp: core_inv_def sessions_ok_def)
    with 2(2) have "card (hm_keys (participants st)) = 1"
      by (simp add: session_ok_def flip: hm_len_card)
    then obtain p where p: "hm_keys (participants st) = {p}" by (auto simp: card_1_singleton_iff)
    then have "hm_contains (participants st) p"
      using hm_keys_get [of p "participants st"] by (simp add: hm_contains_def)
    with 2(3) have "pid \<noteq> p" by auto
    moreover have "registry_of c sid = Some (router_ident (session_router st), {p})"
      by (simp add: registry_of_def 2(1) p)
    moreover have "registry_of c'
        = (registry_of c)(sid \<mapsto> (router_ident (session_router st), {p, pid}))"
      by (simp add: registry_of_def fun_eq_iff 2(4) p insert_commute)
    ultimately show ?thesis
      by (simp add: registry_step.enter 2(4) pool_ids_def session_limit_def)
  qed
qed

text \<open>The operations the registry does not see.\<close>

lemma unseen_refines:
  assumes "c' = c \<or> changes c sid pid Q c'"
  shows "registry_step (pool_ids c) (session_limit c) (registry_of c) (registry_of c') \<and>
         pool_ids c' = pool_ids c \<and> session_limit c' = session_limit c"
  using assms registry_of_changes [of c sid pid Q c'] same_limits_changes [of c sid pid Q c']
  by (auto simp: registry_step.other)

lemma core_step_refines:
  assumes "core_inv c" and "core_step c c'"
  shows "registry_step (pool_ids c) (session_limit c) (registry_of c) (registry_of c') \<and>
         pool_ids c' = pool_ids c \<and> session_limit c' = session_limit c"
  using assms(2,1)
proof (cases rule: core_step.cases)
  case (register new_id pid ptype)
  with register_refines [OF assms(1) register(2)] show ?thesis by (metis prod.collapse)
next
  case (join tx sid pid ptype)
  with join_refines [OF assms(1)] show ?thesis by (metis prod.collapse)
next
  case (set_capabilities tx sid pid caps)
  with unseen_refines set_rtp_capabilities_cases show ?thesis by (metis prod.collapse)
next
  case (new_transport ms tx sid pid direction)
  with unseen_refines create_transport_cases show ?thesis by (metis (no_types, lifting) prod.collapse)
next
  case (connect ms tx sid pid tid dtls)
  then show ?thesis by (simp add: core_unchanged registry_step.other)
next
  case (new_producer ms tx sid pid tid kind params)
  with unseen_refines create_producer_cases show ?thesis by (metis (no_types, lifting) prod.collapse)
next
  case (new_consumer ms tx sid pid tid prid caps)
  with unseen_refines create_consumer_cases show ?thesis by (metis (no_types, lifting) prod.collapse)
next
  case (resume ms tx sid pid cid)
  then show ?thesis by (simp add: core_unchanged registry_step.other)
next
  case (close sid)
  have "registry_of c' = (registry_of c)(sid := None)"
    by (simp add: registry_of_def fun_eq_iff close close_session_sessions)
  then show ?thesis
    using close_sessions_limits [of "[sid]" c] by (simp add: registry_step.close_one close)
next
  case (subscribe tx \<pi> \<rho> snd_out sid pid s)
  then have "registry_of c' = registry_of c" "pool_ids c' = pool_ids c" "session_limit c' = session_limit c"
    by (simp_all add: subscribe_to_events_core registry_of_def fun_eq_iff subscribed_def pool_ids_def
        session_limit_def)
  then show ?thesis by (simp add: registry_step.other)
next
  case (stop \<pi>)
  then have "registry_of c' = Map.empty"
    by (simp add: registry_of_def fun_eq_iff shutdown_sessions)
  then show ?thesis
    using stop by (simp add: registry_step.close_all shutdown_def)
next
  case (stop_search j)
  have "pool_ok (router_pool c)" using assms(1) by (simp add: core_inv_def)
  then obtain rm where "abandon_register j c = c\<lparr>router_pool := rm\<rparr>"
    "routers rm = routers (router_pool c)" by (rule abandon_register_eq)
  then have "registry_of c' = registry_of c" "pool_ids c' = pool_ids c" "session_limit c' = session_limit c"
    by (simp_all add: stop_search registry_of_def fun_eq_iff pool_ids_def session_limit_def)
  then show ?thesis by (simp add: registry_step.other)
qed

interpretation reg: simulation "\<lambda>c. core_start c \<and> pool_ids c = ids \<and> session_limit c = limit" core_step
    "\<lambda>r. r = Map.empty" "registry_step ids limit"
    "\<lambda>c r. core_inv c \<and> pool_ids c = ids \<and> session_limit c = limit \<and> registry_of c = r"
  for ids limit
proof
  fix c assume c: "core_start c \<and> pool_ids c = ids \<and> session_limit c = limit"
  then have "registry_of c = Map.empty"
    by (auto simp: core_start_def sfu_core_new_def registry_of_def fun_eq_iff)
  with c core.start_inv show "\<exists>r. r = Map.empty \<and> core_inv c \<and> pool_ids c = ids \<and>
      session_limit c = limit \<and> registry_of c = r" by blast
next
  fix c r c'
  assume c: "core_inv c \<and> pool_ids c = ids \<and> session_limit c = limit \<and> registry_of c = r"
    and step: "core_step c c'"
  with core_step_refines [of c c'] core_step_inv [of c c']
  show "\<exists>r'. (registry_step ids limit)\<^sup>*\<^sup>* r r' \<and> core_inv c' \<and> pool_ids c' = ids \<and>
      session_limit c' = limit \<and> registry_of c' = r'" by auto
qed

section \<open>Properties\<close>

text \<open>C5. The core refines the registry: every run of core operations from a fresh core, with any
  arguments and any answers of the libraries, is a run of the registry from the empty registry
  with the same pool and limit, under the map that forgets all but routers and members.\<close>

theorem core_refines_registry:
  assumes "core_start c0" and "core_step\<^sup>*\<^sup>* c0 c"
  shows "(registry_step (pool_ids c) (session_limit c))\<^sup>*\<^sup>* Map.empty (registry_of c)"
  using reg.simulated [where ids = "pool_ids c0" and limit = "session_limit c0" and c = c0 and c' = c] assms
  by force

theorem core_refines_registry_witness:
  "(registry_step (pool_ids ex_core1) (session_limit ex_core1))\<^sup>*\<^sup>* Map.empty (registry_of ex_core1)"
proof (rule core_refines_registry [OF ex_core0_start])
  have "core_step ex_core0 ex_core1"
    unfolding ex_core1_def by (rule core_step.register) (simp add: ex_core0_eq)
  then show "core_step\<^sup>*\<^sup>* ex_core0 ex_core1" ..
qed

end
