(* ===== verification/Sfu_Progress.thy ===== *)
theory Sfu_Progress
  imports Sfu_Interleaving Sfu_Registry
begin

text \<open>
  What the server owes to the requests that arrived: a bound on its own steps, and that it can
  always take one unless a subscription is stuck or nothing is left to do.
\<close>

section \<open>Work\<close>

text \<open>The steps the server takes by itself: what it owes to the requests that have arrived.\<close>

fun own_step :: "th_event \<Rightarrow> bool" where
  "own_step (Poll i) = True"
| "own_step (Grant i) = True"
| "own_step (Finish a) = True"
| "own_step (Return i) = True"
| "own_step _ = False"

fun arrival :: "th_event \<Rightarrow> bool" where
  "arrival (Arrive call) = True"
| "arrival _ = False"

fun job_work :: "job \<Rightarrow> nat" where
  "job_work (Request call) = 9"
| "job_work (Broadcast t) = 2"

fun guard_work :: "guard \<Rightarrow> nat" where
  "guard_work (Held n j) = job_work j - 1"
| "guard_work _ = 0"

definition watch_work :: "close_watch \<Rightarrow> nat" where
  "watch_work w = (if is_closed w then 0 else 3)"

fun setup_work :: "pending_event_setup \<Rightarrow> nat" where
  "setup_work (PendingProducer p sid pid kind) = 6"
| "setup_work _ = 3"

definition after_work :: "nat \<times> pending_event_setup list \<Rightarrow> nat" where
  "after_work a = Suc (sum_list (map setup_work (snd a)))"

definition th_work :: "threads \<Rightarrow> nat" where
  "th_work f = 3 * length (th_spawned f) + sum_list (map (job_work \<circ> snd) (th_queue f)) +
     guard_work (th_guard f) + sum_list (map after_work (th_after f)) +
     sum_list (map watch_work (th_watches f))"

lemma setups_work:
  "3 * length (snd (setup_event_handlers tx stays ss)) +
   sum_list (map watch_work (fst (setup_event_handlers tx stays ss))) = sum_list (map setup_work ss)"
  by (induction tx stays ss rule: setup_event_handlers.induct)
    (auto simp: watch_work_def setup_events_defs split: prod.split)

lemma setup_work_le: "setup_work ps \<le> 6"
  by (cases ps) simp_all

lemma pending_setups_work: "sum_list (map setup_work (pending_setups res)) \<le> 6"
  by (auto simp: pending_setups_def setup_work_le split: sum.split option.split)

lemma perform_work: "sum_list (map setup_work (eff_setups (perform tx a c call))) \<le> 6"
  by (cases call) (auto simp: pending_setups_work split: prod.split)

lemma finish_work:
  assumes "th_guard f = Held n j"
  shows "Suc (th_work (finish tx a n j f)) \<le> th_work f"
proof (cases j)
  case (Request call)
  with assms perform_work [of tx a "th_core f" call] show ?thesis
    by (auto simp: th_work_def after_work_def Let_def split: option.split)
next
  case (Broadcast t)
  with assms show ?thesis by (simp add: th_work_def)
qed

lemma th_exec_work:
  assumes en: "th_enabled capacity f e"
  shows "th_work (th_exec tx stays f e) + (if own_step e then 1 else 0)
         \<le> th_work f + (if arrival e then 9 else 0)"
proof (cases e)
  case (Poll i)
  with en length_delete_at [of i "th_spawned f"] show ?thesis by (simp add: th_work_def)
next
  case (Grant i)
  with en have i: "i < length (th_queue f)" and free: "th_guard f = Free" by simp_all
  obtain n j where nj: "th_queue f ! i = (n, j)" by fastforce
  then have "1 \<le> job_work j" by (cases j) simp_all
  with sum_list_delete_at [OF i, of "job_work \<circ> snd"] free nj show ?thesis
    by (simp add: Grant th_work_def)
next
  case (Finish a)
  with en obtain n j where "th_guard f = Held n j" by (auto split: guard.splits)
  with finish_work [OF this, of tx a] show ?thesis by (simp add: Finish)
next
  case (Return i)
  with en have i: "i < length (th_after f)" by simp
  obtain n ss where nj: "th_after f ! i = (n, ss)" by fastforce
  with sum_list_delete_at [OF i, of after_work] setups_work [of tx stays ss] show ?thesis
    by (auto simp: Return th_work_def after_work_def split: prod.split)
next
  case (Cancel n)
  with sum_list_filter_le [of "job_work \<circ> snd" "\<lambda>(k, j). k \<noteq> n" "th_queue f"] show ?thesis
    by (simp add: th_work_def)
next
  case (Abandon a k)
  with en obtain n call where "th_guard f = Held n (Request call)"
    by (auto split: guard.splits job.splits)
  then show ?thesis by (simp add: Abandon th_work_def split: prod.split)
next
  case (Report i h)
  with en have i: "i < length (th_watches f)" by simp
  show ?thesis
  proof (cases h "th_watches f ! i" rule: fire_cases)
    case silent
    then show ?thesis by (simp add: Report th_work_def)
  next
    case (reports w')
    with sum_list_update_le [OF i, of watch_work w'] show ?thesis
      by (simp add: Report th_work_def watch_work_def)
  qed
qed (simp_all add: th_work_def)

lemma th_run_work:
  "th_all_enabled tx stays capacity f es \<Longrightarrow>
   th_work (th_run tx stays f es) + length (filter own_step es)
   \<le> th_work f + 9 * length (filter arrival es)"
proof (induction es arbitrary: f)
  case (Cons e es)
  then have "th_work (th_run tx stays f (e # es)) + length (filter own_step es)
      \<le> th_work (th_exec tx stays f e) + 9 * length (filter arrival es)"
    by simp
  moreover have "th_work (th_exec tx stays f e) + (if own_step e then 1 else 0)
      \<le> th_work f + (if arrival e then 9 else 0)"
    using Cons.prems by (intro th_exec_work [of capacity]) simp
  ultimately show ?case by (cases "own_step e"; cases "arrival e") simp_all
qed simp

section \<open>Rest\<close>

definition at_rest :: "threads \<Rightarrow> bool" where
  "at_rest f \<longleftrightarrow> th_queue f = [] \<and> th_guard f = Free \<and> th_after f = [] \<and> th_spawned f = []"

lemma fresh_uuid:
  assumes "hm_len (m :: (uuid, 'a) hmap) < 2 ^ 128"
  obtains u where "hm_get m u = None"
proof (rule ccontr)
  assume "\<not> thesis"
  with that have "hm_get m u \<noteq> None" for u by blast
  then have "(UNIV :: uuid set) \<subseteq> fst ` set m"
    by (auto simp: hm_get_def map_of_eq_None_iff)
  then have "card (UNIV :: uuid set) \<le> card (fst ` set m)"
    by (intro card_mono) simp_all
  also have "\<dots> \<le> hm_len m"
    unfolding hm_len_def by (metis card_length length_map list.set_map)
  finally show False using assms by (simp add: card_word)
qed

lemma few_sessions:
  assumes "core_inv c" and "card (pool_ids c) \<le> 65536"
  shows "hm_len (sessions c) < 2 ^ 128"
proof -
  have "hm_len (sessions c) \<le> card (pool_ids c) * unat (max_sessions_per_router c)"
    using sessions_at_most [OF assms(1)] by (simp add: pool_ids_def)
  also have "\<dots> \<le> 65536 * 2 ^ LENGTH(64)"
  proof (rule mult_le_mono [OF assms(2) less_imp_le])
    show "unat (max_sessions_per_router c) < 2 ^ LENGTH(64)" by (rule unsigned_less)
  qed
  also have "(65536::nat) * 2 ^ LENGTH(64) < 2 ^ 128" by simp
  finally show ?thesis .
qed

lemma answers_exist:
  assumes "core_inv c" and "card (pool_ids c) \<le> 65536"
  shows "\<exists>a. answers_ok capacity c a call"
proof -
  obtain u where u: "hm_get (sessions c) u = None"
    using few_sessions [OF assms] by (rule fresh_uuid)
  let ?a = "\<lparr>ans_id = u, ans_ms = ex_ms 0, ans_order = \<lambda>i. i, ans_inner_order = \<lambda>_ i. i,
      ans_send = ex_channel capacity, ans_try = \<lambda>_ _ _. TryOk\<rparr>"
  have "answers_ok capacity c ?a call"
    by (cases call) (simp_all add: u ex_channel_unpolled)
  then show ?thesis ..
qed

text \<open>A server that owes something and is not stuck can take a step of its own.\<close>

lemma own_step_enabled:
  assumes "core_inv (th_core f)" and "card (pool_ids (th_core f)) \<le> 65536"
    and "stuck_channel (th_guard f) = None" and "\<not> at_rest f"
  shows "\<exists>e. own_step e \<and> th_enabled capacity f e"
proof (cases "th_guard f")
  case Free
  with assms(4) consider "0 < length (th_queue f)" | "0 < length (th_after f)" | "0 < length (th_spawned f)"
    by (auto simp: at_rest_def)
  then show ?thesis
  proof cases
    case 1
    with Free have "own_step (Grant 0) \<and> th_enabled capacity f (Grant 0)" by simp
    then show ?thesis ..
  next
    case 2
    then have "own_step (Return 0) \<and> th_enabled capacity f (Return 0)" by simp
    then show ?thesis ..
  next
    case 3
    then have "own_step (Poll 0) \<and> th_enabled capacity f (Poll 0)" by simp
    then show ?thesis ..
  qed
next
  case (Held n j)
  obtain a where "th_enabled capacity f (Finish a)"
  proof (cases j)
    case (Request call)
    with answers_exist [OF assms(1,2), of capacity call] Held that show ?thesis by auto
  next
    case (Broadcast t)
    with Held that show ?thesis by simp
  qed
  then show ?thesis by (intro exI [of _ "Finish a"]) simp
next
  case (Stuck n ch)
  with assms(3) show ?thesis by simp
qed

lemma th_reachable_exec:
  "\<lbrakk>th_reachable tx stays capacity f; th_enabled capacity f e\<rbrakk> \<Longrightarrow>
   th_reachable tx stays capacity (th_exec tx stays f e)"
  unfolding th_reachable_def by (meson rtranclp.rtrancl_into_rtrancl th_step.th_event)

lemma th_reachable_run:
  "\<lbrakk>th_reachable tx stays capacity f; th_all_enabled tx stays capacity f es\<rbrakk> \<Longrightarrow>
   th_reachable tx stays capacity (th_run tx stays f es)"
  by (induction es arbitrary: f) (simp_all add: th_reachable_exec del: th_exec.simps th_enabled.simps)

lemma perform_core_step:
  "answers_ok capacity c a call \<Longrightarrow>
   core_step c (eff_core (perform tx a c call)) \<or> eff_core (perform tx a c call) = c"
  by (cases call) (auto simp: case_prod_beta intro: core_step.intros)

lemma dropped_midway_core_step:
  "core_step c (fst (dropped_midway tx a k c call)) \<or> fst (dropped_midway tx a k c call) = c"
proof (cases call)
  case (CallSubscribe sid pid ch)
  have "fst (dropped_midway tx a k c call)
      = fst (snd (subscribe_to_events tx (ans_order a) (ans_inner_order a) (ans_send a) c sid pid ch))"
    by (simp add: CallSubscribe split: prod.split)
  then show ?thesis by (metis core_step.subscribe)
qed (auto intro: core_step.stop_search)

lemma th_exec_limits:
  assumes "core_inv (th_core f)" and en: "th_enabled capacity f e"
  shows "pool_ids (th_core (th_exec tx stays f e)) = pool_ids (th_core f) \<and>
         session_limit (th_core (th_exec tx stays f e)) = session_limit (th_core f)"
proof (cases e)
  case (Finish a)
  with en consider n call where "th_guard f = Held n (Request call)" "answers_ok capacity (th_core f) a call"
    | n u where "th_guard f = Held n (Broadcast u)"
    by (auto split: guard.splits job.splits)
  then show ?thesis
  proof cases
    case (1 n call)
    from perform_core_step [OF 1(2), of tx] core_step_refines [OF assms(1)]
    have "pool_ids (eff_core (perform tx a (th_core f) call)) = pool_ids (th_core f) \<and>
          session_limit (eff_core (perform tx a (th_core f) call)) = session_limit (th_core f)"
      by metis
    with 1(1) show ?thesis by (simp add: Finish Let_def split: option.split)
  qed (simp add: Finish)
next
  case (Abandon a k)
  with en obtain n call where held: "th_guard f = Held n (Request call)"
    by (auto split: guard.splits job.splits)
  from dropped_midway_core_step [of "th_core f" tx a k call] core_step_refines [OF assms(1)]
  have "pool_ids (fst (dropped_midway tx a k (th_core f) call)) = pool_ids (th_core f) \<and>
        session_limit (fst (dropped_midway tx a k (th_core f) call)) = session_limit (th_core f)"
    by metis
  then show ?thesis
    by (cases "dropped_midway tx a k (th_core f) call") (simp add: Abandon held)
qed (auto split: prod.split option.split)

lemma th_run_limits:
  "\<lbrakk>th_reachable tx stays capacity f; th_all_enabled tx stays capacity f es\<rbrakk> \<Longrightarrow>
   pool_ids (th_core (th_run tx stays f es)) = pool_ids (th_core f) \<and>
   session_limit (th_core (th_run tx stays f es)) = session_limit (th_core f)"
proof (induction es arbitrary: f)
  case (Cons e es)
  then show ?case
    using th_exec_limits [OF th_reachable_core [OF Cons.prems(1)], of capacity e tx stays]
      th_reachable_exec [OF Cons.prems(1), of e]
    by (simp del: th_exec.simps th_enabled.simps)
qed simp

lemma comes_to_rest:
  assumes "th_reachable tx stays capacity f" and "card (pool_ids (th_core f)) \<le> 65536"
  shows "\<exists>es. (\<forall>e \<in> set es. own_step e) \<and> th_all_enabled tx stays capacity f es \<and>
           (stuck_channel (th_guard (th_run tx stays f es)) \<noteq> None \<or> at_rest (th_run tx stays f es))"
  using assms
proof (induction "th_work f" arbitrary: f rule: less_induct)
  case less
  show ?case
  proof (cases "stuck_channel (th_guard f) \<noteq> None \<or> at_rest f")
    case True
    then show ?thesis by (intro exI [of _ "[]"]) simp
  next
    case False
    with own_step_enabled [OF th_reachable_core [OF less.prems(1)] less.prems(2)]
    obtain e where e: "own_step e" "th_enabled capacity f e" by blast
    let ?g = "th_exec tx stays f e"
    have "th_work ?g < th_work f"
      using th_exec_work [OF e(2), of tx stays] e(1) by (cases e) simp_all
    moreover have "th_reachable tx stays capacity ?g"
      using less.prems(1) e(2) by (rule th_reachable_exec)
    moreover have "card (pool_ids (th_core ?g)) \<le> 65536"
      using th_exec_limits [OF th_reachable_core [OF less.prems(1)] e(2)] less.prems(2) by simp
    ultimately obtain es where "\<forall>e \<in> set es. own_step e" "th_all_enabled tx stays capacity ?g es"
      "stuck_channel (th_guard (th_run tx stays ?g es)) \<noteq> None \<or> at_rest (th_run tx stays ?g es)"
      using less.hyps by blast
    with e show ?thesis by (intro exI [of _ "e # es"]) simp
  qed
qed

text \<open>At rest every ticket is answered or dropped.\<close>

lemma at_rest_answered:
  assumes "tickets_ok f" and "at_rest f"
  shows "set (th_done f) \<union> set (th_dropped f) = {..<th_next f}"
  using tickets_ok_set [OF assms(1)] assms(2) by (simp add: tickets_def at_rest_def)

end
