(* ===== verification/Thread_Runs.thy ===== *)
theory Thread_Runs
  imports Sfu_Progress
begin

text \<open>
  The properties of the server at the grain of its await points, and the example session as a run
  of it, on which the witnesses are evaluated: five requests served one after the other, then a
  subscription and the broadcast that was waiting.
\<close>

section \<open>An example run\<close>

text \<open>A request that is served while nothing else happens.\<close>

definition alone :: "core_call \<Rightarrow> answers \<Rightarrow> th_event list" where
  "alone call a = [Arrive call, Grant 0, Finish a, Return 0]"

lemma alone_run:
  assumes "th_queue f = []" "th_guard f = Free" "th_after f = []"
    and "e = perform tx a (th_core f) call" and "eff_stuck e = None"
    and "setup_event_handlers tx stays (eff_setups e) = (ws, ts)"
  shows "th_run tx stays f (alone call a) =
     f\<lparr>th_core := eff_core e, th_log := th_log f @ eff_log e,
       th_produced := th_produced f @ eff_produced e, th_watches := th_watches f @ ws,
       th_spawned := th_spawned f @ ts, th_next := Suc (th_next f), th_done := th_next f # th_done f\<rparr>"
  using assms by (simp add: alone_def delete_at_def Let_def)

lemma alone_enabled:
  assumes "th_queue f = []" "th_guard f = Free" "th_after f = []"
    and "call_ok capacity call" and "answers_ok capacity (th_core f) a call" and "eff_stuck (perform tx a (th_core f) call) = None"
  shows "th_all_enabled tx stays capacity f (alone call a)"
  using assms by (simp add: alone_def delete_at_def Let_def)

lemma th_run_append: "th_run tx stays f (es @ es') = th_run tx stays (th_run tx stays f es) es'"
  by (induction es arbitrary: f) simp_all

lemma th_all_enabled_append:
  "th_all_enabled tx stays capacity f (es @ es') \<longleftrightarrow>
   th_all_enabled tx stays capacity f es \<and> th_all_enabled tx stays capacity (th_run tx stays f es) es'"
  by (induction es arbitrary: f) simp_all

definition ex_answers :: "uuid \<Rightarrow> answers" where
  "ex_answers i = \<lparr>ans_id = 7, ans_ms = ex_ms i, ans_order = (\<lambda>i. i), ans_inner_order = (\<lambda>_ i. i),
     ans_send = ex_channel 8, ans_try = (\<lambda>_ _ _. TryOk)\<rparr>"

definition ex_calls :: "(core_call \<times> answers) list" where
  "ex_calls =
     [(CallRegister ''a'' User, ex_answers 0), (CallJoin 7 ''b'' User, ex_answers 0),
      (CallTransport 7 ''a'' ''send'', ex_answers 1), (CallTransport 7 ''b'' ''recv'', ex_answers 2),
      (CallProducer 7 ''a'' (TransportId 1) Audio (RtpParameters 1), ex_answers 3)]"

definition ex_busy :: "(hook \<Rightarrow> bool) \<Rightarrow> threads" where
  "ex_busy stays = (th_start ex_core0)\<lparr>th_core := ex_core5, th_next := 5, th_done := [4, 3, 2, 1, 0],
     th_watches := sys_watches (ex_sys5 stays), th_spawned := sys_tasks (ex_sys5 stays),
     th_produced := sys_produced (ex_sys5 stays)\<rparr>"

lemma ex_busy_run:
  "th_run ex_texts stays (th_start ex_core0) (concat (map (\<lambda>(call, a). alone call a) ex_calls))
   = ex_busy stays \<and>
   th_all_enabled ex_texts stays 8 (th_start ex_core0)
     (concat (map (\<lambda>(call, a). alone call a) ex_calls))"
proof -
  have fresh: "hm_get (sessions ex_core0) 7 = None" by (simp add: ex_core0_eq)
  note run = alone_run [OF _ _ _ refl] and en = alone_enabled
  show ?thesis
    by (simp add: ex_calls_def th_run_append th_all_enabled_append run en th_start_def ex_answers_def
        ex_answers_of fresh pending_setups_def ex_busy_def ex_sys5_def ex_new_producer_def
        del: One_nat_def flip: ex_core1_def ex_core2_def)
qed

definition ex_subscriber :: core_call where
  "ex_subscriber = CallSubscribe 7 ''b'' (Sender 1)"

text \<open>The announcement task starts to wait, gets the lock and ends.\<close>

definition ex_settle :: "th_event list" where
  "ex_settle = alone ex_subscriber (ex_answers 0) @ [Poll 0, Grant 0, Finish (ex_answers 0)]"

lemma ex_busy_reachable: "th_reachable ex_texts stays 8 (ex_busy stays)"
proof -
  have "th_reachable ex_texts stays 8 (th_start ex_core0)"
    using ex_core0_start by (auto simp: th_reachable_def th_initial_def)
  from th_reachable_run [OF this conjunct2 [OF ex_busy_run]] show ?thesis
    by (simp add: conjunct1 [OF ex_busy_run])
qed

lemma ex_perform_subscriber:
  "perform ex_texts (ex_answers 0) ex_core5 ex_subscriber =
   (just ex_core6)\<lparr>eff_log := [(7, ''b'', Sender 1, SubscriptionConfirmed (uuid_text ex_texts 7), TryOk),
                             (7, ''b'', Sender 1, ex_new_producer, TryOk)]\<rparr>"
  by (simp add: ex_subscriber_def ex_answers_def subscribe_to_events_def ex_live
      ex_no_senders ex_core6_subscribed ex_existing ex_channel_def ex_new_producer_def Let_def
      del: One_nat_def)

lemma ex_settle_enabled: "th_all_enabled ex_texts stays 8 (ex_busy stays) ex_settle"
proof -
  have "call_ok 8 ex_subscriber" "answers_ok 8 ex_core5 (ex_answers 0) ex_subscriber"
    by (simp_all add: ex_subscriber_def ex_answers_def ex_channel_unpolled)
  then show ?thesis
    by (simp add: ex_settle_def th_all_enabled_append alone_enabled alone_run [OF _ _ _ refl]
        ex_perform_subscriber ex_busy_def th_start_def just_def ex_sys5_def delete_at_def
        del: One_nat_def)
qed

lemma ex_settle_rest:
  "at_rest (th_run ex_texts stays (ex_busy stays) ex_settle)"
  "th_core (th_run ex_texts stays (ex_busy stays) ex_settle) = ex_core6"
  "th_gone (th_run ex_texts stays (ex_busy stays) ex_settle) = []"
  by (simp_all add: ex_settle_def th_run_append alone_run [OF _ _ _ refl]
      ex_perform_subscriber ex_busy_def th_start_def just_def ex_sys5_def delete_at_def at_rest_def
      del: One_nat_def)

lemma own_no_arrival: "own_step e \<Longrightarrow> \<not> arrival e"
  by (cases e) simp_all

section \<open>Properties\<close>

text \<open>C4. The server at the grain of its await points refines the machine whose steps are critical
  sections: whatever the order in which requests, tasks, callbacks and clients that go away are
  interleaved, and wherever a request is dropped, every reachable state has the core, the channels'
  contents and the stuck subscriber of a reachable state of the machine, with the same waiting
  broadcasts and callbacks once those that answered requests still have to set up are counted in.\<close>

theorem interleaving_refines_machine:
  assumes "th_reachable tx stays capacity f"
  shows "\<exists>s. sys_reachable tx stays capacity s \<and>
     th_core f = sys_core s \<and> th_log f = sys_log s \<and> th_gone f = sys_gone s \<and>
     th_produced f = sys_produced s \<and> th_unconfirmed f = sys_unconfirmed s \<and>
     stuck_channel (th_guard f) = sys_waiting s \<and>
     mset (all_tasks tx stays f) = mset (sys_tasks s) \<and>
     mset (all_watches tx stays f) = mset (sys_watches s)"
  using th_reachable_simulated [OF assms] unfolding implements_def by metis

theorem interleaving_refines_machine_witness:
  "\<exists>s. sys_reachable ex_texts (\<lambda>_. True) 8 s \<and> sys_core s = ex_core5 \<and>
     mset (sys_tasks s) = mset (sys_tasks (ex_sys5 (\<lambda>_. True)))"
proof -
  have busy: "th_core (ex_busy (\<lambda>_. True)) = ex_core5"
    "all_tasks ex_texts (\<lambda>_. True) (ex_busy (\<lambda>_. True)) = sys_tasks (ex_sys5 (\<lambda>_. True))"
    by (simp_all add: ex_busy_def all_tasks_def th_start_def)
  from interleaving_refines_machine [OF ex_busy_reachable, of "\<lambda>_. True"] busy show ?thesis
    by metis
qed

text \<open>No request is forgotten or answered twice: in every interleaving each job that started to wait
  for the lock is in exactly one place: still waiting, holding the lock, past it and about to
  answer, ended, or dropped because its client went away.\<close>

lemma no_request_forgotten:
  assumes "th_reachable tx stays capacity f"
  shows "distinct (tickets f) \<and> set (tickets f) = {..<th_next f}"
proof -
  from assms obtain s where "tickets_ok f" by (rule th_reachable_inv)
  then show ?thesis using tickets_ok_distinct tickets_ok_set by blast
qed

text \<open>C8. The announcements survive the interleaving: at every point between the critical sections a
  listening participant was offered every stored producer of the others, or a broadcast that will
  offer it is spawned, waiting for the lock, holding it, or about to be spawned by the request that
  made the producer. When the server is at rest the offer has been made.\<close>

theorem announcements_survive_interleaving:
  assumes "th_reachable tx stays capacity f" and "has_producer (th_core f) sid owner prid"
    and "hm_get (senders_of (th_core f) sid) pid = Some ch" and "ch \<notin> set (th_gone f)"
    and "stuck_channel (th_guard f) \<noteq> Some ch" and "pid \<noteq> owner"
  shows "(\<exists>k r. (sid, pid, ch, NewProducer (producer_id_proto tx prid) k, r) \<in> set (th_log f)) \<or>
         \<not> at_rest f \<and>
         (\<exists>t \<in> set (all_tasks tx stays f). task_session t = sid \<and> task_exclude t = Some owner \<and>
            (\<exists>k. task_event t = NewProducer (producer_id_proto tx prid) k))"
proof -
  from assms(1) obtain s where s: "sys_inv tx s" "implements tx stays f s"
    by (rule th_reachable_inv)
  then have "none_lost tx s" by (simp add: sys_inv_def)
  moreover from s(2) have tasks: "set (all_tasks tx stays f) = set (sys_tasks s)"
    by (auto simp: implements_def dest: mset_eq_setD)
  moreover have "at_rest f \<Longrightarrow> all_tasks tx stays f = []"
    by (simp add: at_rest_def all_tasks_def)
  moreover have "has_producer (sys_core s) sid owner prid" and "listens s sid pid ch"
    using s(2) assms(2-5) by (auto simp: implements_def listens_def)
  ultimately have "announced tx s sid pid ch prid \<or> \<not> at_rest f \<and> announcement_due tx s sid owner prid"
    using assms(6) unfolding none_lost_def announcement_due_def by fastforce
  moreover have "th_log f = sys_log s" using s(2) by (simp add: implements_def)
  ultimately show ?thesis
    using tasks unfolding announced_def announcement_due_def by simp
qed

theorem announcements_survive_interleaving_witness:
  "\<exists>k r. (7, ''b'', Sender 1, NewProducer (producer_id_proto ex_texts (ProducerId 3)) k, r)
     \<in> set (th_log (th_run ex_texts (\<lambda>_. True) (ex_busy (\<lambda>_. True)) ex_settle))"
proof -
  let ?f = "th_run ex_texts (\<lambda>_. True) (ex_busy (\<lambda>_. True)) ex_settle"
  have "th_reachable ex_texts (\<lambda>_. True) 8 ?f"
    by (rule th_reachable_run [OF ex_busy_reachable ex_settle_enabled])
  moreover have "has_producer (th_core ?f) 7 ''a'' (ProducerId 3)"
    by (simp add: ex_settle_rest ex_has_producer)
  moreover have "hm_get (senders_of (th_core ?f) 7) ''b'' = Some (Sender 1)"
    by (simp add: ex_settle_rest senders_of_def ex_core6_eq)
  moreover have "stuck_channel (th_guard ?f) = None"
    using ex_settle_rest(1) [of "\<lambda>_. True"] by (simp add: at_rest_def)
  ultimately show ?thesis
    using announcements_survive_interleaving [of ex_texts "\<lambda>_. True" 8 ?f 7 "''a''" "ProducerId 3"
        "''b''" "Sender 1"] ex_settle_rest
    by simp
qed

text \<open>C6. The work is bounded: however the steps are interleaved, in a run from a fresh server the server
  takes at most nine steps of its own for each request that arrived, with all the broadcasts and
  close callbacks it caused counted in, and from any state on at most nine per arrival and what
  that state still owes. Without new requests every run of own steps ends.\<close>

theorem work_is_bounded:
  assumes "th_all_enabled tx stays capacity f es"
  shows "length (filter own_step es) \<le> th_work f + 9 * length (filter arrival es) \<and>
         (f = th_start c \<longrightarrow> length (filter own_step es) \<le> 9 * length (filter arrival es)) \<and>
         ((\<forall>e \<in> set es. own_step e) \<longrightarrow> length es \<le> th_work f)"
proof -
  have "length (filter own_step es) \<le> th_work f + 9 * length (filter arrival es)"
    using th_run_work [OF assms] by linarith
  moreover have "th_work (th_start c) = 0" by (simp add: th_work_def th_start_def)
  moreover have "length es \<le> th_work f" if "\<forall>e \<in> set es. own_step e"
  proof -
    from that have "filter own_step es = es" and "filter arrival es = []"
      using own_no_arrival by (auto simp: filter_id_conv filter_empty_conv)
    with calculation(1) show ?thesis by simp
  qed
  ultimately show ?thesis by auto
qed

theorem work_is_bounded_witness:
  "length (filter own_step ex_settle) \<le> th_work (ex_busy (\<lambda>_. True)) + 9 * length (filter arrival ex_settle)"
  using work_is_bounded [OF ex_settle_enabled] by blast

text \<open>C7. The server answers: from every reachable state of a server with at most 65536 routers, steps of
  its own lead it to rest or to a subscription that is stuck; and however it takes its own steps,
  when none is left it is at rest or stuck. At rest every request has been answered, or its client
  went away before.\<close>

theorem server_comes_to_rest:
  assumes "th_reachable tx stays capacity f" and "length (routers (router_pool (th_core f))) \<le> 65536"
  shows "(\<exists>es. (\<forall>e \<in> set es. own_step e) \<and> th_all_enabled tx stays capacity f es \<and>
            (stuck_channel (th_guard (th_run tx stays f es)) \<noteq> None \<or> at_rest (th_run tx stays f es))) \<and>
         (\<forall>es g. th_all_enabled tx stays capacity f es \<and> g = th_run tx stays f es \<and>
            (\<forall>e. own_step e \<longrightarrow> \<not> th_enabled capacity g e) \<longrightarrow>
            stuck_channel (th_guard g) \<noteq> None \<or>
            at_rest g \<and> set (th_done g) \<union> set (th_dropped g) = {..<th_next g})"
proof (intro conjI allI impI)
  have few: "card (pool_ids (th_core f)) \<le> 65536"
    using assms(2) unfolding pool_ids_def
    by (metis card_length length_map list.set_map le_trans)
  show "\<exists>es. (\<forall>e \<in> set es. own_step e) \<and> th_all_enabled tx stays capacity f es \<and>
      (stuck_channel (th_guard (th_run tx stays f es)) \<noteq> None \<or> at_rest (th_run tx stays f es))"
    using assms(1) few by (rule comes_to_rest)
  fix es g
  assume run: "th_all_enabled tx stays capacity f es \<and> g = th_run tx stays f es \<and>
    (\<forall>e. own_step e \<longrightarrow> \<not> th_enabled capacity g e)"
  then have g: "th_reachable tx stays capacity g"
    using assms(1) th_reachable_run by blast
  have "card (pool_ids (th_core g)) \<le> 65536"
    using th_run_limits [OF assms(1)] run few by simp
  with own_step_enabled [OF th_reachable_core [OF g]] run
  have "stuck_channel (th_guard g) \<noteq> None \<or> at_rest g" by blast
  moreover from g obtain s where "tickets_ok g" by (rule th_reachable_inv)
  ultimately show "stuck_channel (th_guard g) \<noteq> None \<or>
      at_rest g \<and> set (th_done g) \<union> set (th_dropped g) = {..<th_next g}"
    using at_rest_answered by blast
qed

theorem server_comes_to_rest_witness:
  "\<exists>es. (\<forall>e \<in> set es. own_step e) \<and> th_all_enabled ex_texts (\<lambda>_. True) 8 (ex_busy (\<lambda>_. True)) es \<and>
     (stuck_channel (th_guard (th_run ex_texts (\<lambda>_. True) (ex_busy (\<lambda>_. True)) es)) \<noteq> None \<or>
      at_rest (th_run ex_texts (\<lambda>_. True) (ex_busy (\<lambda>_. True)) es))"
proof -
  have "length (routers (router_pool (th_core (ex_busy (\<lambda>_. True))))) \<le> 65536"
    by (simp add: ex_busy_def ex_core5_eq ex_core1_eq ex_pool_def)
  from server_comes_to_rest [OF ex_busy_reachable this] show ?thesis by blast
qed

end
