(* ===== verification/Grpc_Methods.thy ===== *)
theory Grpc_Methods
  imports Grpc_Handler Thread_Runs
begin

text \<open>
  The properties of the gRPC methods of \<open>src/grpc/handler.rs\<close>: a rejected request has no effect,
  every method keeps the invariant of the core, and every method is a request of the interleaved
  server, so that what is proved of its runs holds of the service.
\<close>

section \<open>Definitions\<close>

text \<open>The methods of the service, and the call of the core a request leads to, if it gets that far.\<close>

datatype rpc =
    RpcRegister | RpcJoin | RpcGetCapabilities | RpcSetCapabilities | RpcCreateTransport
  | RpcConnectTransport | RpcCreateProducer | RpcCreateConsumer | RpcResumeConsumer
  | RpcCloseSession | RpcSubscribe

definition decoded_call :: "status + 'a \<Rightarrow> ('a \<Rightarrow> core_call) \<Rightarrow> core_call option" where
  "decoded_call r f = (case r of Inl _ \<Rightarrow> None | Inr a \<Rightarrow> Some (f a))"

fun rpc_call :: "conversions \<Rightarrow> sender panics \<Rightarrow> rpc \<Rightarrow> request_envelope \<Rightarrow> core_call option" where
  "rpc_call cv made RpcRegister req =
     (if req_participant_id req = '''' then None
      else Some (CallRegister (req_participant_id req) User))"
| "rpc_call cv made RpcJoin req =
     decoded_call (decode_join cv req) (\<lambda>(s, p, t). CallJoin s p t)"
| "rpc_call cv made RpcGetCapabilities req =
     decoded_call (decode_get_capabilities cv req) CallCapabilities"
| "rpc_call cv made RpcSetCapabilities req =
     decoded_call (decode_set_capabilities cv req)
       (\<lambda>(s, caps). CallSetCapabilities s (req_participant_id req) caps)"
| "rpc_call cv made RpcCreateTransport req =
     decoded_call (decode_create_transport cv req)
       (\<lambda>(s, d). CallTransport s (req_participant_id req) d)"
| "rpc_call cv made RpcConnectTransport req =
     decoded_call (decode_connect_transport cv req)
       (\<lambda>(s, t, d). CallConnect s (req_participant_id req) t d)"
| "rpc_call cv made RpcCreateProducer req =
     decoded_call (decode_create_producer cv req)
       (\<lambda>(s, t, k, ps). CallProducer s (req_participant_id req) t k ps)"
| "rpc_call cv made RpcCreateConsumer req =
     decoded_call (decode_create_consumer cv req)
       (\<lambda>(s, t, p, cs). CallConsumer s (req_participant_id req) t p cs)"
| "rpc_call cv made RpcResumeConsumer req =
     decoded_call (decode_resume_consumer cv req)
       (\<lambda>(s, i). CallResume s (req_participant_id req) i)"
| "rpc_call cv made RpcCloseSession req = decoded_call (decode_close_session cv req) CallClose"
| "rpc_call cv made RpcSubscribe req =
     (case made of
        Panicked \<Rightarrow> None
      | Returned ch \<Rightarrow>
          decoded_call (decode_subscribe cv req)
            (\<lambda>s. CallSubscribe s (req_participant_id req) ch))"

text \<open>
  What a method does: the core it leaves, the callbacks it registers, the broadcasts it spawns,
  what it puts into a channel, and whether it waits for ever. \<open>made\<close> is the channel of a
  subscription, or the panic of making it.
\<close>

type_synonym rpc_outcome =
  "sfu_core \<times> close_watch list \<times> broadcast_task list \<times> log_entry list \<times> bool"

fun served ::
  "(status + response_envelope) \<times> sfu_core \<times> close_watch list \<times> broadcast_task list \<Rightarrow> rpc_outcome" where
  "served (res, c, ws, ts) = (c, ws, ts, [], False)"

fun rpc_effect ::
  "texts \<Rightarrow> conversions \<Rightarrow> (hook \<Rightarrow> bool) \<Rightarrow> answers \<Rightarrow> sender panics \<Rightarrow> nat \<Rightarrow> rpc \<Rightarrow>
   request_envelope \<Rightarrow> sfu_core \<Rightarrow> rpc_outcome" where
  "rpc_effect tx cv stays a made capacity RpcRegister req c =
     (snd (rpc_register_session tx (ans_id a) req c), [], [], [], False)"
| "rpc_effect tx cv stays a made capacity RpcJoin req c = served (rpc_join_session tx cv req c)"
| "rpc_effect tx cv stays a made capacity RpcGetCapabilities req c =
     served (rpc_get_router_rtp_capabilities tx cv req c)"
| "rpc_effect tx cv stays a made capacity RpcSetCapabilities req c =
     served (rpc_set_rtp_capabilities tx cv req c)"
| "rpc_effect tx cv stays a made capacity RpcCreateTransport req c =
     served (rpc_create_transport (ans_ms a) tx cv stays req c)"
| "rpc_effect tx cv stays a made capacity RpcConnectTransport req c =
     served (rpc_connect_transport (ans_ms a) tx cv req c)"
| "rpc_effect tx cv stays a made capacity RpcCreateProducer req c =
     served (rpc_create_producer (ans_ms a) tx cv stays req c)"
| "rpc_effect tx cv stays a made capacity RpcCreateConsumer req c =
     served (rpc_create_consumer (ans_ms a) tx cv stays req c)"
| "rpc_effect tx cv stays a made capacity RpcResumeConsumer req c =
     served (rpc_resume_consumer (ans_ms a) tx cv req c)"
| "rpc_effect tx cv stays a made capacity RpcCloseSession req c =
     served (rpc_close_session cv req c)"
| "rpc_effect tx cv stays a made capacity RpcSubscribe req c =
     (case rpc_subscribe_to_events tx cv (\<lambda>_. made) (ans_order a) (ans_inner_order a) (ans_send a)
             capacity req c of
        (res, c', evs) \<Rightarrow>
          (c', [], [],
           (case (decode_subscribe cv req, made) of
              (Inr sid, Returned ch) \<Rightarrow>
                map (\<lambda>ev. (sid, req_participant_id req, ch, ev, TryOk)) evs
            | _ \<Rightarrow> []),
           res = Returned Blocked))"

text \<open>The steps by which an idle server serves one call; a stuck one does not get to the last.\<close>

definition serving :: "core_call \<Rightarrow> answers \<Rightarrow> bool \<Rightarrow> th_event list" where
  "serving call a stuck = [Arrive call, Grant 0, Finish a] @ (if stuck then [] else [Return 0])"

text \<open>Conversions and a request for the witnesses.\<close>

definition ex_cv :: conversions where
  "ex_cv = \<lparr>cv_parse_uuid = (\<lambda>t. if t = ''seven'' then Inr 7 else Inl ''invalid character''),
     cv_parse_transport_id = (\<lambda>t. if t = ''one'' then Inr (TransportId 1) else Inl ''invalid''),
     cv_parse_producer_id = (\<lambda>t. if t = ''three'' then Inr (ProducerId 3) else Inl ''invalid''),
     cv_parse_consumer_id = (\<lambda>t. Inl ''invalid''),
     cv_participant_type = (\<lambda>n. if n = 1 then Some User else Some (OtherParticipant n)),
     cv_direction = (\<lambda>n. if n = 1 then Some DirSend else if n = 2 then Some DirRecv else None),
     cv_media_kind = (\<lambda>n. Some (ProtoMediaKind n)),
     cv_media_kind_in = (\<lambda>k. if k = ProtoMediaKind 1 then Some Audio else Some Video),
     cv_capabilities_in = (\<lambda>_. Inr (RtpCapabilities 1)),
     cv_capabilities_out = (\<lambda>_. Inr (ProtoRtpCapabilities 1)),
     cv_parameters_in = (\<lambda>_. Inr (RtpParameters 1)),
     cv_parameters_out = (\<lambda>_. Inr (ProtoRtpParameters 1)),
     cv_dtls_in = (\<lambda>_. Inr (DtlsParameters 1)),
     cv_dtls_out = (\<lambda>_. Some (ProtoDtlsParameters 1)),
     cv_candidate_out = (\<lambda>_. None),
     cv_ice_out = (\<lambda>_. ProtoIceParameters 1)\<rparr>"

definition ex_request :: "string \<Rightarrow> request_data \<Rightarrow> request_envelope" where
  "ex_request pid data =
     \<lparr>req_session_id = ''seven'', req_participant_id = pid, req_data = Some data\<rparr>"

section \<open>Lemmas\<close>

text \<open>What \<open>serve\<close> does is what the critical section and the set-up behind it do.\<close>

lemma served_plain:
  "served (serve (Inr x) call msg no_setups respond c) = (snd (call x c), [], [], [], False)"
  by (simp add: serve_def no_setups_def split: prod.split sum.split)

lemma served_setups:
  "served (serve (Inr x) call msg (setups_of tx stays) respond c) =
     (case setup_event_handlers tx stays (pending_setups (fst (call x c))) of
        (ws, ts) \<Rightarrow> (snd (call x c), ws, ts, [], False))"
proof (cases "call x c")
  case (Pair res c')
  then show ?thesis
    by (cases res) (auto simp: serve_def setups_of_def pending_setups_def split: option.split prod.split)
qed

lemma served_undecoded: "served (serve (Inl e) call msg setups respond c) = (c, [], [], [], False)"
  by (simp add: serve_def)

lemma decoded_call_None [simp]: "decoded_call r f = None \<longleftrightarrow> (\<exists>e. r = Inl e)"
  by (auto simp: decoded_call_def split: sum.split)

lemma decoded_call_Some [simp]: "decoded_call r f = Some call \<longleftrightarrow> (\<exists>x. r = Inr x \<and> call = f x)"
  by (auto simp: decoded_call_def split: sum.split)

lemmas rpc_defs = rpc_join_session_def rpc_get_router_rtp_capabilities_def
  rpc_set_rtp_capabilities_def rpc_create_transport_def rpc_connect_transport_def
  rpc_create_producer_def rpc_create_consumer_def rpc_resume_consumer_def rpc_close_session_def

text \<open>A request that does not decode, or whose channel cannot be made, does nothing.\<close>

lemma rpc_effect_none:
  "rpc_call cv made m req = None \<Longrightarrow>
   rpc_effect tx cv stays a made capacity m req c = (c, [], [], [], False)"
  by (cases m)
    (auto simp: rpc_defs served_undecoded rpc_register_session_def rpc_subscribe_to_events_def
      split: if_splits panics.splits sum.split)

text \<open>Every other request does what its call does in the critical section and after it.\<close>

lemma rpc_effect_register:
  assumes "req_participant_id req \<noteq> ''''"
  shows "snd (rpc_register_session tx new_id req c)
    = snd (register_session new_id c (req_participant_id req) User)"
  using assms by (simp add: rpc_register_session_def split: prod.split panics.split sum.split)

lemma rpc_effect_subscribe:
  assumes "rpc_call cv made RpcSubscribe req = Some call" and "e = perform tx a c call"
  shows "rpc_effect tx cv stays a made capacity RpcSubscribe req c =
    (eff_core e, [], [], eff_log e, eff_stuck e \<noteq> None)"
  using assms
  by (auto simp: rpc_subscribe_to_events_def
      split: panics.splits prod.splits awaited.splits sum.splits)

lemma rpc_effect_call:
  assumes "rpc_call cv made m req = Some call" and e: "e = perform tx a c call"
  shows "rpc_effect tx cv stays a made capacity m req c =
    (case setup_event_handlers tx stays (eff_setups e) of
       (ws, ts) \<Rightarrow> (eff_core e, ws, ts, eff_log e, eff_stuck e \<noteq> None))"
proof (cases m)
  case RpcSubscribe
  moreover from RpcSubscribe assms(1) have "eff_setups e = []"
    by (auto simp: e split: panics.splits prod.split)
  ultimately show ?thesis using rpc_effect_subscribe [of cv made req call e tx a c] assms by simp
qed (use assms in \<open>auto simp: rpc_defs served_plain served_setups rpc_effect_register
    split: if_splits prod.splits\<close>)

text \<open>An idle server that serves one call.\<close>

lemma serving_run:
  assumes "th_queue f = []" "th_guard f = Free" "th_after f = []"
    and e: "e = perform tx a (th_core f) call"
    and "setup_event_handlers tx stays (eff_setups e) = (ws, ts)"
  shows "th_run tx stays f (serving call a (eff_stuck e \<noteq> None)) =
     f\<lparr>th_core := eff_core e, th_log := th_log f @ eff_log e,
       th_produced := th_produced f @ eff_produced e, th_watches := th_watches f @ ws,
       th_spawned := th_spawned f @ ts, th_next := Suc (th_next f),
       th_guard := (case eff_stuck e of Some ch \<Rightarrow> Stuck (th_next f) ch | None \<Rightarrow> Free),
       th_done := (if eff_stuck e = None then th_next f # th_done f else th_done f)\<rparr>"
proof (cases "eff_stuck e")
  case None
  with assms show ?thesis by (simp add: serving_def delete_at_def Let_def)
next
  case (Some ch)
  then have "eff_setups e = []" unfolding e by (rule perform_stuck)
  with Some assms show ?thesis by (simp add: serving_def delete_at_def Let_def)
qed

lemma serving_enabled:
  assumes "th_queue f = []" "th_guard f = Free" "th_after f = []"
    and "answers_ok capacity (th_core f) a call" and "call_ok capacity call"
  shows "th_all_enabled tx stays capacity f
    (serving call a (eff_stuck (perform tx a (th_core f) call) \<noteq> None))"
  using assms by (auto simp: serving_def delete_at_def Let_def)

lemma rpc_call_ok:
  assumes "rpc_call cv made m req = Some call" and "made \<noteq> Panicked \<longrightarrow> channel_ok capacity"
  shows "call_ok capacity call"
  using assms by (cases m) (auto split: if_splits panics.splits)

section \<open>Properties\<close>

text \<open>C38. A request that is answered with an error has changed nothing, registered nothing and spawned
  nothing. For the methods that convert the library's data into the response only after the
  operation, and for registering and subscribing, this holds of every invalid argument.\<close>

theorem invalid_requests_change_nothing:
  "(fst (rpc_register_session tx new_id req c) = Returned (Inl (InvalidArgument m)) \<longrightarrow>
      snd (rpc_register_session tx new_id req c) = c) \<and>
   (fst (rpc_join_session tx cv req c) = Inl e \<longrightarrow>
      snd (rpc_join_session tx cv req c) = (c, [], [])) \<and>
   (fst (rpc_set_rtp_capabilities tx cv req c) = Inl e \<longrightarrow>
      snd (rpc_set_rtp_capabilities tx cv req c) = (c, [], [])) \<and>
   (fst (rpc_create_transport ms tx cv stays req c) = Inl (InvalidArgument m) \<longrightarrow>
      snd (rpc_create_transport ms tx cv stays req c) = (c, [], [])) \<and>
   (fst (rpc_connect_transport ms tx cv req c) = Inl e \<longrightarrow>
      snd (rpc_connect_transport ms tx cv req c) = (c, [], [])) \<and>
   (fst (rpc_create_producer ms tx cv stays req c) = Inl e \<longrightarrow>
      snd (rpc_create_producer ms tx cv stays req c) = (c, [], [])) \<and>
   (fst (rpc_create_consumer ms tx cv stays req c) = Inl (InvalidArgument m) \<longrightarrow>
      snd (rpc_create_consumer ms tx cv stays req c) = (c, [], [])) \<and>
   (fst (rpc_resume_consumer ms tx cv req c) = Inl e \<longrightarrow>
      snd (rpc_resume_consumer ms tx cv req c) = (c, [], [])) \<and>
   (fst (rpc_close_session cv req c) = Inl e \<longrightarrow>
      snd (rpc_close_session cv req c) = (c, [], [])) \<and>
   (fst (rpc_subscribe_to_events tx cv channel \<pi> \<rho> snd_out capacity req c)
        = Returned (Done (Inl (InvalidArgument m))) \<longrightarrow>
      snd (rpc_subscribe_to_events tx cv channel \<pi> \<rho> snd_out capacity req c) = (c, []))"
proof (intro conjI impI)
  show "snd (rpc_register_session tx new_id req c) = c"
    if "fst (rpc_register_session tx new_id req c) = Returned (Inl (InvalidArgument m))"
    using that by (auto simp: rpc_register_session_def split: if_splits prod.splits panics.splits sum.splits)
  show "snd (rpc_join_session tx cv req c) = (c, [], [])"
    if "fst (rpc_join_session tx cv req c) = Inl e"
    using that unfolding rpc_join_session_def by (rule call_join.serve_rejected) simp
  show "snd (rpc_set_rtp_capabilities tx cv req c) = (c, [], [])"
    if "fst (rpc_set_rtp_capabilities tx cv req c) = Inl e"
    using that unfolding rpc_set_rtp_capabilities_def by (rule call_set_caps.serve_rejected) simp
  show "snd (rpc_create_transport ms tx cv stays req c) = (c, [], [])"
    if "fst (rpc_create_transport ms tx cv stays req c) = Inl (InvalidArgument m)"
    using that unfolding rpc_create_transport_def
    by (rule call_transport.serve_rejected) (simp split: prod.split)
  show "snd (rpc_connect_transport ms tx cv req c) = (c, [], [])"
    if "fst (rpc_connect_transport ms tx cv req c) = Inl e"
    using that unfolding rpc_connect_transport_def by (rule call_connect.serve_rejected) simp
  show "snd (rpc_create_producer ms tx cv stays req c) = (c, [], [])"
    if "fst (rpc_create_producer ms tx cv stays req c) = Inl e"
    using that unfolding rpc_create_producer_def
    by (rule call_producer.serve_rejected) (simp split: prod.split)
  show "snd (rpc_create_consumer ms tx cv stays req c) = (c, [], [])"
    if "fst (rpc_create_consumer ms tx cv stays req c) = Inl (InvalidArgument m)"
    using that unfolding rpc_create_consumer_def
    by (rule call_consumer.serve_rejected) (simp split: prod.split)
  show "snd (rpc_resume_consumer ms tx cv req c) = (c, [], [])"
    if "fst (rpc_resume_consumer ms tx cv req c) = Inl e"
    using that unfolding rpc_resume_consumer_def by (rule call_resume.serve_rejected) simp
  show "snd (rpc_close_session cv req c) = (c, [], [])"
    if "fst (rpc_close_session cv req c) = Inl e"
    using that unfolding rpc_close_session_def by (rule call_close.serve_rejected) simp
  show "snd (rpc_subscribe_to_events tx cv channel \<pi> \<rho> snd_out capacity req c) = (c, [])"
    if "fst (rpc_subscribe_to_events tx cv channel \<pi> \<rho> snd_out capacity req c)
          = Returned (Done (Inl (InvalidArgument m)))"
    using that
    by (auto simp: rpc_subscribe_to_events_def
        split: sum.splits panics.splits awaited.splits prod.splits)
qed

theorem invalid_requests_change_nothing_witness:
  "snd (rpc_join_session ex_texts ex_cv (ex_request ''b'' (JoinSessionRequest None None 1)) ex_core1)
     = (ex_core1, [], [])"
proof -
  have "fst (rpc_join_session ex_texts ex_cv (ex_request ''b'' (JoinSessionRequest None None 1)) ex_core1)
      = Inl (InvalidArgument ''Session id is required'')"
    by (simp add: rpc_join_session_def serve_def decode_join_def ex_request_def session_id_of_def
        and_then_def required_def)
  with invalid_requests_change_nothing [where tx = ex_texts and cv = ex_cv and
      req = "ex_request ''b'' (JoinSessionRequest None None 1)" and c = ex_core1 and
      e = "InvalidArgument ''Session id is required''"]
  show ?thesis by blast
qed

text \<open>Every method keeps the invariant of the core, whatever the request and whatever the libraries
  answer.\<close>

lemma rpcs_keep_invariant:
  assumes "core_inv c"
  shows "(hm_get (sessions c) new_id = None \<longrightarrow> core_inv (snd (rpc_register_session tx new_id req c))) \<and>
         core_inv (fst (snd (rpc_join_session tx cv req c))) \<and>
         core_inv (fst (snd (rpc_get_router_rtp_capabilities tx cv req c))) \<and>
         core_inv (fst (snd (rpc_set_rtp_capabilities tx cv req c))) \<and>
         core_inv (fst (snd (rpc_create_transport ms tx cv stays req c))) \<and>
         core_inv (fst (snd (rpc_connect_transport ms tx cv req c))) \<and>
         core_inv (fst (snd (rpc_create_producer ms tx cv stays req c))) \<and>
         core_inv (fst (snd (rpc_create_consumer ms tx cv stays req c))) \<and>
         core_inv (fst (snd (rpc_resume_consumer ms tx cv req c))) \<and>
         core_inv (fst (snd (rpc_close_session cv req c))) \<and>
         core_inv (fst (snd (rpc_subscribe_to_events tx cv channel \<pi> \<rho> snd_out capacity req c)))"
proof (intro conjI impI)
  show "core_inv (snd (rpc_register_session tx new_id req c))"
    if "hm_get (sessions c) new_id = None"
  proof -
    have "snd (rpc_register_session tx new_id req c)
        \<in> {c, snd (register_session new_id c (req_participant_id req) User)}"
      by (auto simp: rpc_register_session_def split: prod.split panics.split sum.split)
    with core_inv_register [OF assms that, of "req_participant_id req" User] assms
    show ?thesis by auto
  qed
  show "core_inv (fst (snd (rpc_subscribe_to_events tx cv channel \<pi> \<rho> snd_out capacity req c)))"
  proof -
    have "core_inv (fst (snd (subscribe_to_events tx \<pi> \<rho> snd_out c s pid ch)))" for s pid ch
      by (rule core_inv_subscribe [OF assms])
    then show ?thesis
      using assms
      by (auto simp: rpc_subscribe_to_events_def
          split: sum.split panics.split awaited.split prod.split) (metis fst_conv snd_conv)+
  qed
qed (use assms in \<open>simp_all add: rpc_join_session_def rpc_get_router_rtp_capabilities_def
      rpc_set_rtp_capabilities_def rpc_create_transport_def rpc_connect_transport_def
      rpc_create_producer_def rpc_create_consumer_def rpc_resume_consumer_def
      rpc_close_session_def call_join.serve_keeps_inv call_get_caps.serve_keeps_inv
      call_set_caps.serve_keeps_inv call_transport.serve_keeps_inv call_connect.serve_keeps_inv
      call_producer.serve_keeps_inv call_consumer.serve_keeps_inv call_resume.serve_keeps_inv
      call_close.serve_keeps_inv\<close>)

lemma rpcs_keep_invariant_witness:
  "core_inv (fst (snd (rpc_join_session ex_texts ex_cv
     (ex_request ''b'' (JoinSessionRequest (Some ''seven'') (Some ''b'') 1)) ex_core1)))"
  using rpcs_keep_invariant [OF reachable_core_inv [OF ex_reachable(2)], where tx = ex_texts and
      cv = ex_cv and req = "ex_request ''b'' (JoinSessionRequest (Some ''seven'') (Some ''b'') 1)"]
  by blast

text \<open>C15. Every method of the service is a request of the interleaved server. A request that does not
  decode, or whose channel cannot be made, changes nothing. Any other makes exactly one call of the
  core, and what the method leaves in the core, registers, spawns and puts into a channel is what a
  server that is idle otherwise has done after the steps of that call: it arrives, gets the lock,
  leaves the critical section and is answered; or it is stuck, exactly if the method never answers.
  The steps are possible when the environment keeps its promises, so everything proved of the runs
  of the server holds of the service.\<close>

theorem rpcs_refine_machine:
  assumes "th_queue f = []" and "th_guard f = Free" and "th_after f = []"
    and "made \<noteq> Panicked \<longrightarrow> channel_ok capacity"
    and "rpc_effect tx cv stays a made capacity m req (th_core f) = (c', ws, ts, l, stuck)"
  shows "case rpc_call cv made m req of
     None \<Rightarrow> c' = th_core f \<and> ws = [] \<and> ts = [] \<and> l = [] \<and> \<not> stuck
   | Some call \<Rightarrow>
       let g = th_run tx stays f (serving call a stuck) in
       th_core g = c' \<and> th_watches g = th_watches f @ ws \<and> th_spawned g = th_spawned f @ ts \<and>
       th_log g = th_log f @ l \<and> th_queue g = [] \<and> th_after g = [] \<and>
       (if stuck then \<exists>ch. made = Returned ch \<and> th_guard g = Stuck (th_next f) ch
        else th_guard g = Free \<and> th_done g = th_next f # th_done f) \<and>
       (answers_ok capacity (th_core f) a call \<longrightarrow>
          th_all_enabled tx stays capacity f (serving call a stuck))"
proof (cases "rpc_call cv made m req")
  case None
  with rpc_effect_none [OF None] assms(5) show ?thesis by simp
next
  case (Some call)
  define e where "e = perform tx a (th_core f) call"
  obtain ws' ts' where set_up: "setup_event_handlers tx stays (eff_setups e) = (ws', ts')" by fastforce
  with rpc_effect_call [OF Some e_def, of stays capacity] assms(5)
  have out: "c' = eff_core e" "ws = ws'" "ts = ts'" "l = eff_log e" "stuck \<longleftrightarrow> eff_stuck e \<noteq> None"
    by simp_all
  note run = serving_run [OF assms(1-3) e_def set_up, folded out]
  have en: "th_all_enabled tx stays capacity f (serving call a stuck)"
    if "answers_ok capacity (th_core f) a call"
    using serving_enabled [OF assms(1-3) that rpc_call_ok [OF Some assms(4)]] out(5) by (simp add: e_def)
  show ?thesis
  proof (cases "eff_stuck e")
    case None
    then show ?thesis using run en out assms(1-3) \<open>rpc_call cv made m req = Some call\<close> by (simp add: Let_def)
  next
    case (Some ch)
    then have "made = Returned ch"
      using \<open>rpc_call cv made m req = Some call\<close>
      by (cases m) (auto simp: e_def split: if_splits panics.splits prod.splits)
    then show ?thesis
      using run en out assms(1-3) Some \<open>rpc_call cv made m req = Some call\<close> by (simp add: Let_def)
  qed
qed

theorem rpcs_refine_machine_witness:
  "th_spawned (th_run ex_texts (\<lambda>_. True) (th_start ex_core4)
     (serving (CallProducer 7 ''a'' (TransportId 1) Audio (RtpParameters 1)) (ex_answers 3) False))
   = [\<lparr>task_session = 7, task_event = ex_new_producer, task_exclude = Some ''a''\<rparr>]"
proof -
  let ?req = "ex_request ''a'' (CreateProducerRequest (Some ''seven'') (Some ''one'') 1 (Some (ProtoRtpParameters 1)))"
  have call: "rpc_call ex_cv Panicked RpcCreateProducer ?req
      = Some (CallProducer 7 ''a'' (TransportId 1) Audio (RtpParameters 1))"
    by (simp add: decode_create_producer_def ex_request_def session_id_of_def transport_id_of_def
        ex_cv_def parsed_def converted_def and_then_def required_def)
  obtain ws ts where set_up: "setup_event_handlers ex_texts (\<lambda>_. True)
      [PendingProducer (ex_producer 3) 7 ''a'' Audio] = (ws, ts)" by fastforce
  then have ts: "ts = [\<lparr>task_session = 7, task_event = ex_new_producer, task_exclude = Some ''a''\<rparr>]"
    by (auto simp: ex_new_producer_def ex_values)
  have "rpc_effect ex_texts ex_cv (\<lambda>_. True) (ex_answers 3) Panicked 8 RpcCreateProducer ?req ex_core4
      = (ex_core5, ws, ts, [], False)"
    unfolding rpc_effect_call [OF call refl]
    by (simp add: ex_answers_def ex_answers_of pending_setups_def set_up
        del: setup_event_handlers.simps One_nat_def)
  then have eff: "rpc_effect ex_texts ex_cv (\<lambda>_. True) (ex_answers 3) Panicked 8 RpcCreateProducer ?req
      (th_core (th_start ex_core4)) = (ex_core5, ws, ts, [], False)" by (simp add: th_start_def)
  have "th_queue (th_start ex_core4) = []" "th_guard (th_start ex_core4) = Free"
    "th_after (th_start ex_core4) = []" by (simp_all add: th_start_def)
  from rpcs_refine_machine [OF this _ eff] call ts show ?thesis
    by (simp add: Let_def th_start_def del: rpc_call.simps)
qed

text \<open>C39. The subscribe method on a live session, with a channel as tokio documents it (a capacity of
  zero or of more than \<open>2 ^ 61 - 1\<close> panics; nobody reads before the response): with such a capacity
  it panics without touching the core; otherwise it answers with the receiving end exactly if the
  confirmation and the announcements of the others' producers fit, and else never answers.\<close>

theorem subscribe_rpc_outcome:
  assumes "decode_subscribe cv req = Inr sid" and "hm_get (sessions c) sid = Some st"
    and "\<forall>n. channel n = (if channel_ok n then Returned ch else Panicked)"
    and "unpolled_channel capacity snd_out"
  shows "fst (rpc_subscribe_to_events tx cv channel \<pi> \<rho> snd_out capacity req c) =
           (if \<not> channel_ok capacity then Panicked
            else if 1 + length (producers_of_others (req_participant_id req) (all_producers st)) \<le> capacity
            then Returned (Done (Inr ch))
            else Returned Blocked) \<and>
         fst (snd (rpc_subscribe_to_events tx cv channel \<pi> \<rho> snd_out capacity req c)) =
           (if \<not> channel_ok capacity then c else subscribed c sid (req_participant_id req) ch)"
  using subscribe_unpolled [where pid = "req_participant_id req" and tx = tx and \<pi> = \<pi> and
      \<rho> = \<rho> and s = ch, OF assms(2,4)] assms(1,3)
  by (auto simp: rpc_subscribe_to_events_def)

theorem subscribe_rpc_outcome_witness:
  "fst (rpc_subscribe_to_events ex_texts ex_cv
          (\<lambda>n. if channel_ok n then Returned (Sender 1) else Panicked) (\<lambda>i. i) (\<lambda>_ i. i) (ex_channel 1) 1
          (ex_request ''b'' (SubscribeToEventsRequest (Some ''seven''))) ex_core5) = Returned Blocked"
proof -
  let ?st = "ex_session (ex_sender_side\<lparr>producers := [(ProducerId 3, ex_producer 3)]\<rparr>) ex_receiver_side"
  let ?req = "ex_request ''b'' (SubscribeToEventsRequest (Some ''seven''))"
  have decode: "decode_subscribe ex_cv ?req = Inr 7"
    by (simp add: decode_subscribe_def ex_request_def session_id_of_def ex_cv_def parsed_def)
  have st: "hm_get (sessions ex_core5) 7 = Some ?st" by (simp add: ex_core5_eq)
  have "length (producers_of_others ''b'' (all_producers ?st)) = 1"
    by (simp add: producers_of_others_def all_producers_def ex_session_def
        ex_sender_side_def ex_receiver_side_def ex_values new_participant_def)
  then show ?thesis
    using subscribe_rpc_outcome [where tx = ex_texts and
        channel = "\<lambda>n. if channel_ok n then Returned (Sender 1) else Panicked" and \<pi> = "\<lambda>i. i" and
        \<rho> = "\<lambda>_ i. i" and ch = "Sender 1", OF decode st _ ex_channel_unpolled [of 1]]
    by (simp add: ex_request_def)
qed

text \<open>An error response does not mean that nothing happened: when the conversion of the new
  transport's candidates fails, the client gets an internal error although the transport was
  created, is stored with the participant and is watched.\<close>

lemma create_transport_late_error:
  assumes "decode_create_transport cv req = Inr (sid, direction)"
    and "create_transport ms tx c sid (req_participant_id req) direction = (Inr (data, Some su), c')"
    and "collect_options (map (cv_candidate_out cv) (ct_ice_candidates data)) = None"
  shows "rpc_create_transport ms tx cv stays req c
           = (Inl (Internal ''Failed to convert ICE candidates''), c',
              setup_event_handlers tx stays [su])"
  using assms
  by (simp add: rpc_create_transport_def serve_def setups_of_def and_then_def split: prod.split)

lemma create_transport_late_error_witness:
  "fst (rpc_create_transport (ex_ms 1) ex_texts ex_cv (\<lambda>_. True)
          (ex_request ''a'' (CreateTransportRequest (Some ''seven'') 1)) ex_core2)
     = Inl (Internal ''Failed to convert ICE candidates'')"
proof -
  let ?data = "\<lparr>ct_transport_id = TransportId 1, ct_ice_candidates = [IceCandidate 1],
      ct_dtls_parameters = DtlsParameters 1, ct_ice_parameters = IceParameters 1\<rparr>"
  let ?req = "ex_request ''a'' (CreateTransportRequest (Some ''seven'') 1)"
  have decode: "decode_create_transport ex_cv ?req = Inr (7, ''send'')"
    by (simp add: decode_create_transport_def ex_request_def session_id_of_def ex_cv_def parsed_def
        and_then_def required_def)
  have "fst (create_transport (ex_ms 1) ex_texts ex_core2 7 ''a'' ''send'')
      = Inr (?data, Some (PendingTransport (ex_transport 1) 7 ''a''))"
    by (simp add: ex_core2_eq ex_core1_eq ex_core0_eq create_transport_def ex_op_defs ex_values)
  then have create: "create_transport (ex_ms 1) ex_texts ex_core2 7 (req_participant_id ?req) ''send''
      = (Inr (?data, Some (PendingTransport (ex_transport 1) 7 ''a'')), ex_core3)"
    unfolding ex_core3_def ex_request_def by (simp add: prod_eq_iff)
  have "collect_options (map (cv_candidate_out ex_cv) (ct_ice_candidates ?data)) = None"
    by (simp add: ex_cv_def)
  from create_transport_late_error [OF decode create this] show ?thesis by simp
qed

end
