(* ===== verification/Channel_Contents.thy ===== *)
theory Channel_Contents
  imports Thread_Runs
begin

text \<open>
  What a client finds in its channel: the confirmation of its subscription comes first, and an
  announcement may come twice, or be thrown away when the channel is full.
\<close>

section \<open>Definitions\<close>

text \<open>What was offered to a channel, in order, and whether a channel is registered.\<close>

definition offers :: "system \<Rightarrow> sender \<Rightarrow> (uuid \<times> string \<times> sfu_event \<times> try_send_result) list" where
  "offers s ch =
     map (\<lambda>(sid, pid, c, ev, r). (sid, pid, ev, r)) (filter (\<lambda>(sid, pid, c, ev, r). c = ch) (sys_log s))"

definition registered :: "sfu_core \<Rightarrow> sender \<Rightarrow> bool" where
  "registered c ch \<longleftrightarrow> (\<exists>sid pid. hm_get (senders_of c sid) pid = Some ch)"

text \<open>
  A channel is opened by the confirmation of its subscription, unless the subscription was dropped
  before it sent anything; then its client went away, and nobody has the receiving end.
\<close>

definition opened :: "texts \<Rightarrow> (uuid \<times> string \<times> sfu_event \<times> try_send_result) list \<Rightarrow> bool" where
  "opened tx l \<longleftrightarrow>
     (\<exists>sid pid rest. l = (sid, pid, SubscriptionConfirmed (uuid_text tx sid), TryOk) # rest)"

definition confirmed_first :: "texts \<Rightarrow> system \<Rightarrow> bool" where
  "confirmed_first tx s \<longleftrightarrow>
     set (sys_unconfirmed s) \<subseteq> set (sys_gone s) \<and>
     (\<forall>ch. registered (sys_core s) ch \<or> offers s ch \<noteq> [] \<longrightarrow>
        opened tx (offers s ch) \<or> ch \<in> set (sys_unconfirmed s))"

section \<open>The confirmation comes first\<close>

lemma opened_append: "opened tx l \<Longrightarrow> opened tx (l @ l')"
  by (auto simp: opened_def)

lemma offers_append:
  "sys_log t = sys_log s @ l \<Longrightarrow>
   offers t ch = offers s ch @
     map (\<lambda>(sid, pid, c, ev, r). (sid, pid, ev, r)) (filter (\<lambda>(sid, pid, c, ev, r). c = ch) l)"
  by (simp add: offers_def)

text \<open>Only a subscription registers a channel; only a subscription and a task make an offer.\<close>

fun subscribes :: "sys_event \<Rightarrow> bool" where
  "subscribes (Subscribe \<pi> \<rho> snd_out sid pid ch) = True"
| "subscribes (AbandonSubscribe k \<pi> \<rho> snd_out sid pid ch) = True"
| "subscribes _ = False"

fun runs_task :: "sys_event \<Rightarrow> bool" where
  "runs_task (RunTask \<pi> try_out i) = True"
| "runs_task _ = False"

lemma registered_exec:
  assumes pool: "pool_ok (router_pool (sys_core s))" and "\<not> subscribes e"
    and "registered (sys_core (sys_exec tx stays s e)) ch"
  shows "registered (sys_core s) ch"
proof (cases e)
  case (Register new_id pid ptype)
  with assms(3) show ?thesis by (simp add: registered_def senders_of_register [OF pool])
next
  case (AbandonRegister j)
  with assms(3) show ?thesis by (simp add: registered_def senders_of_def)
next
  case (Close sid)
  with assms(3) show ?thesis by (auto simp: registered_def dest: senders_of_close)
next
  case (Shutdown \<pi>)
  with assms(3) show ?thesis
    by (auto simp: registered_def shutdown_def dest: senders_of_close_sessions)
qed (use assms(2,3) in \<open>auto simp: registered_def core_unchanged Let_def
    split: prod.splits option.splits if_splits\<close>)

lemma log_exec:
  "\<not> subscribes e \<Longrightarrow> \<not> runs_task e \<Longrightarrow> sys_log (sys_exec tx stays s e) = sys_log s"
  by (cases e) (auto simp: note_produced_def Let_def split: prod.split option.split sum.split)

lemma unconfirmed_exec:
  "\<not> subscribes e \<Longrightarrow>
   sys_unconfirmed (sys_exec tx stays s e) = sys_unconfirmed s \<and>
   set (sys_gone s) \<subseteq> set (sys_gone (sys_exec tx stays s e))"
  by (cases e)
    (auto simp: note_produced_def after_create_def Let_def split: prod.split option.split sum.split)

lemma confirmed_first_run_task:
  assumes core: "core_inv (sys_core s)" and inv: "confirmed_first tx s"
    and t: "t = sys_exec tx stays s (RunTask \<pi> try_out i)"
  shows "confirmed_first tx t"
proof (cases "i < length (sys_tasks s)")
  case True
  let ?u = "sys_tasks s ! i"
  let ?bs = "broadcast_event \<pi> try_out (sys_core s) (task_session ?u) (task_event ?u) (task_exclude ?u)"
  let ?l = "map (\<lambda>(pid, ch, r). (task_session ?u, pid, ch, task_event ?u, r)) ?bs"
  have log: "sys_log t = sys_log s @ ?l" and same: "sys_core t = sys_core s"
    "sys_unconfirmed t = sys_unconfirmed s" "sys_gone t = sys_gone s"
    using True by (simp_all add: t Let_def)
  have reg: "registered (sys_core s) ch" if "(pid, ch, r) \<in> set ?bs" for pid ch r
    using that in_broadcast_event [OF core_inv_senders_of [OF core, of "task_session ?u"]]
    unfolding registered_def by blast
  show ?thesis
    unfolding confirmed_first_def
  proof (intro conjI allI impI)
    show "set (sys_unconfirmed t) \<subseteq> set (sys_gone t)"
      using inv by (simp add: confirmed_first_def same)
    fix ch assume "registered (sys_core t) ch \<or> offers t ch \<noteq> []"
    with reg have "registered (sys_core s) ch \<or> offers s ch \<noteq> []"
      by (auto simp: offers_append [OF log] same filter_empty_conv)
    with inv have "opened tx (offers s ch) \<or> ch \<in> set (sys_unconfirmed s)"
      unfolding confirmed_first_def by blast
    then show "opened tx (offers t ch) \<or> ch \<in> set (sys_unconfirmed t)"
      unfolding offers_append [OF log] same by (blast intro: opened_append)
  qed
qed (use inv in \<open>simp add: t\<close>)

lemma confirmed_first_subscribe:
  assumes inv: "confirmed_first tx s" and unpolled: "unpolled_channel k snd_out"
    and sub: "subscribe_to_events tx \<pi> \<rho> snd_out (sys_core s) sid pid c = (res, c', evs)"
    and log: "sys_log t = sys_log s @ map (\<lambda>ev. (sid, pid, c, ev, TryOk)) evs"
    and core: "sys_core t = c'"
    and gone: "set (sys_gone s) \<subseteq> set (sys_gone t)" "set (sys_unconfirmed t) \<subseteq> set (sys_gone t)"
      "set (sys_unconfirmed s) \<subseteq> set (sys_unconfirmed t)"
    and unconfirmed: "k = 0 \<Longrightarrow> evs = [] \<Longrightarrow> c \<in> set (sys_unconfirmed t)"
  shows "confirmed_first tx t"
proof -
  have sent: "evs = [] \<and> (k = 0 \<or> \<not> hm_contains (sessions (sys_core s)) sid) \<or>
      (\<exists>evs'. evs = SubscriptionConfirmed (uuid_text tx sid) # evs')"
    using sub unpolled
    by (auto simp: subscribe_to_events_def unpolled_channel_def Let_def
        split: if_splits sum.splits prod.splits awaited.splits)
  have reg: "registered c' ch \<Longrightarrow>
      registered (sys_core s) ch \<or> ch = c \<and> hm_contains (sessions (sys_core s)) sid" for ch
    using subscribe_to_events_core [of tx \<pi> \<rho> snd_out "sys_core s" sid pid c] sub
    by (auto simp: registered_def listens_subscribed split: if_splits)
  have "opened tx (offers t ch) \<or> ch \<in> set (sys_unconfirmed t)"
    if ch: "registered c' ch \<or> offers t ch \<noteq> []" for ch
  proof (cases "registered (sys_core s) ch \<or> offers s ch \<noteq> []")
    case True
    with inv have "opened tx (offers s ch) \<or> ch \<in> set (sys_unconfirmed s)"
      unfolding confirmed_first_def by blast
    with gone(3) show ?thesis unfolding offers_append [OF log] by (blast intro: opened_append)
  next
    case False
    with ch reg have "ch = c" and "evs \<noteq> [] \<or> hm_contains (sessions (sys_core s)) sid"
      by (auto simp: offers_append [OF log] filter_empty_conv)
    with sent unconfirmed False show ?thesis by (auto simp: offers_append [OF log] opened_def)
  qed
  with gone(2) core show ?thesis by (simp add: confirmed_first_def)
qed

definition ordered :: "texts \<Rightarrow> system \<Rightarrow> bool" where
  "ordered tx s \<longleftrightarrow> sys_inv tx s \<and> confirmed_first tx s"

lemma ordered_exec:
  assumes inv: "ordered tx s" and en: "sys_enabled capacity s e"
  shows "ordered tx (sys_exec tx stays s e)"
proof -
  from inv have core: "core_inv (sys_core s)" and first: "confirmed_first tx s"
    by (simp_all add: ordered_def sys_inv_def)
  from first have gone: "set (sys_unconfirmed s) \<subseteq> set (sys_gone s)"
    by (simp add: confirmed_first_def)
  have "confirmed_first tx (sys_exec tx stays s e)"
  proof (cases "subscribes e \<or> runs_task e")
    case True
    then show ?thesis
    proof (cases e)
      case (Subscribe \<pi> \<rho> snd_out sid pid ch)
      obtain res c' evs where sub: "subscribe_to_events tx \<pi> \<rho> snd_out (sys_core s) sid pid ch = (res, c', evs)"
        by (metis prod.exhaust)
      show ?thesis
        by (rule confirmed_first_subscribe [OF first _ sub, where k = capacity])
          (use Subscribe en sub gone in \<open>auto simp: channel_ok_def\<close>)
    next
      case (AbandonSubscribe k \<pi> \<rho> snd_out sid pid ch)
      obtain res c' evs where sub: "subscribe_to_events tx \<pi> \<rho> snd_out (sys_core s) sid pid ch = (res, c', evs)"
        by (metis prod.exhaust)
      show ?thesis
        by (rule confirmed_first_subscribe [OF first _ sub, where k = k])
          (use AbandonSubscribe en sub gone in auto)
    next
      case (RunTask \<pi> try_out i)
      then show ?thesis using confirmed_first_run_task [OF core first refl] by simp
    qed simp_all
  next
    case False
    let ?t = "sys_exec tx stays s e"
    from False have offers: "offers ?t = offers s" by (simp add: fun_eq_iff offers_def log_exec)
    have un: "sys_unconfirmed ?t = sys_unconfirmed s" and grown: "set (sys_gone s) \<subseteq> set (sys_gone ?t)"
      using unconfirmed_exec [of e tx stays s] False by simp_all
    have pool: "pool_ok (router_pool (sys_core s))" using core by (simp add: core_inv_def)
    have "registered (sys_core s) ch" if "registered (sys_core ?t) ch" for ch
      using registered_exec [OF pool _ that] False by blast
    with first gone grown show ?thesis
      unfolding confirmed_first_def offers un by blast
  qed
  then show ?thesis
    using inv en sys_exec_inv by (simp add: ordered_def)
qed

lemma ordered_start: "core_start c \<Longrightarrow> ordered tx (sys_start c)"
  using sys_inv_start [of c tx]
  by (auto simp: ordered_def confirmed_first_def registered_def offers_def sys_start_def
      core_start_def sfu_core_new_def senders_of_def)

interpretation ordered: invariant_system sys_initial "sys_step tx stays capacity" "ordered tx"
  for tx stays capacity
  by unfold_locales (auto simp: sys_initial_def sys_step_iff intro: ordered_start ordered_exec)

interpretation ordered_threads: refined_invariant th_initial "th_step tx stays capacity"
    sys_initial "sys_step tx stays capacity" "match tx stays capacity" "ordered tx"
  for tx stays capacity ..

section \<open>A channel that is full\<close>

text \<open>
  A subscription fills its channel of capacity one with the confirmation, the client does not read
  it, and the announcement of the next producer finds the channel full.
\<close>

definition ex_full :: "sys_event list" where
  "ex_full =
     [Register 7 ''a'' User, Join 7 ''b'' User, MakeTransport (ex_ms 1) 7 ''a'' ''send'',
      Subscribe (\<lambda>i. i) (\<lambda>_ i. i) (ex_channel 1) 7 ''b'' (Sender 1),
      MakeProducer (ex_ms 3) 7 ''a'' (TransportId 1) Audio (RtpParameters 1),
      RunTask (\<lambda>i. i) (\<lambda>_ _ _. TryFull) 0]"

definition ex_dropped :: "(hook \<Rightarrow> bool) \<Rightarrow> system" where
  "ex_dropped stays = \<lparr>sys_core = ex_core1\<lparr>sessions :=
       [(7, ex_session (ex_sender_side\<lparr>producers := [(ProducerId 3, ex_producer 3)]\<rparr>) ex_participant)],
       event_senders := [(7, [(''b'', Sender 1)])]\<rparr>,
     sys_watches = [setup_transport_events ex_texts stays (ex_transport 1) 7,
                    setup_producer_events ex_texts stays (ex_producer 3) 7],
     sys_tasks = [],
     sys_log = [(7, ''b'', Sender 1, SubscriptionConfirmed (uuid_text ex_texts 7), TryOk),
                (7, ''b'', Sender 1, ex_new_producer, TryFull)],
     sys_waiting = None, sys_gone = [], sys_produced = [(7, ''a'', ProducerId 3)],
     sys_unconfirmed = []\<rparr>"

lemma ex_small_subscription:
  "subscribe_to_events ex_texts (\<lambda>i. i) (\<lambda>_ i. i) (ex_channel 1) ex_core3 7 ''b'' (Sender 1) =
   (Done (Inr ()), ex_core3\<lparr>event_senders := [(7, [(''b'', Sender 1)])]\<rparr>,
    [SubscriptionConfirmed (uuid_text ex_texts 7)])"
  by (simp add: subscribe_to_events_def ex_core3_eq ex_core1_eq ex_core0_eq hm_contains_def
      hm_insert_def ex_channel_def get_existing_producers_for_session_def find_session_def
      ex_session_def ex_sender_side_def ex_values new_participant_def hm_iter_def)

lemma ex_full_run: "sys_run ex_texts stays (sys_start ex_core0) ex_full = ex_dropped stays"
proof -
  let ?c4 = "ex_core3\<lparr>event_senders := [(7, [(''b'', Sender 1)])]\<rparr>"
  let ?c5 = "?c4\<lparr>sessions :=
    [(7, ex_session (ex_sender_side\<lparr>producers := [(ProducerId 3, ex_producer 3)]\<rparr>) ex_participant)]\<rparr>"
  have pr: "create_producer (ex_ms 3) ex_texts ?c4 7 ''a'' (TransportId 1) Audio (RtpParameters 1)
      = (Inr (ProducerId 3, Some (PendingProducer (ex_producer 3) 7 ''a'' Audio)), ?c5)"
    by (simp add: ex_core3_eq create_producer_def ex_op_defs ex_session_def ex_sender_side_def
        ex_values)
  have bc: "broadcast_event (\<lambda>i. i) (\<lambda>_ _ _. TryFull) ?c5 7 ev (Some ''a'') = [(''b'', Sender 1, TryFull)]"
    for ev by (simp add: broadcast_event_def hm_iter_def)
  show ?thesis
    by (simp add: ex_full_def sys_start_def after_create_def note_produced_def pending_setups_def
        ex_dropped_def ex_new_producer_def Let_def ex_answers_of ex_small_subscription pr bc
        del: One_nat_def flip: ex_core1_def ex_core2_def)
     (simp add: ex_core3_eq)
qed

lemma ex_dropped_reachable: "sys_reachable ex_texts stays 1 (ex_dropped stays)"
proof -
  have "hm_get (sessions ex_core0) 7 = None" by (simp add: ex_core0_eq)
  then have "sys_all_enabled ex_texts stays 1 (sys_start ex_core0) ex_full"
    by (simp add: ex_full_def sys_start_def after_create_def note_produced_def Let_def
        ex_channel_unpolled ex_answers_of ex_small_subscription
        split: prod.split sum.split del: One_nat_def flip: ex_core1_def ex_core2_def)
  from sys_run_reachable [OF ex_core0_start this] show ?thesis by (simp add: ex_full_run)
qed

section \<open>Properties\<close>

text \<open>C14. The confirmation comes first: in every interleaving, whatever was ever offered to a channel,
  the first was the confirmation of the subscription that registered it, and it was accepted; no
  announcement and no close event overtakes it. The one exception no client can see: the client of
  the subscription went away before the confirmation was sent, and nobody has the receiving end.\<close>

theorem confirmation_comes_first:
  assumes "th_reachable tx stays capacity f" and "(sid, pid, ch, ev, r) \<in> set (th_log f)"
  shows "(\<exists>sid' pid' rest.
            map (\<lambda>(sid, pid, c, ev, r). (sid, pid, ev, r)) (filter (\<lambda>(sid, pid, c, ev, r). c = ch) (th_log f))
            = (sid', pid', SubscriptionConfirmed (uuid_text tx sid'), TryOk) # rest) \<or>
         ch \<in> set (th_unconfirmed f) \<and> ch \<in> set (th_gone f)"
proof -
  obtain s where "ordered tx s" and s: "implements tx stays f s"
    using assms(1) ordered_threads.reachable_match_inv [of _ tx stays capacity f]
    unfolding th_reachable_def match_def by blast
  moreover have "th_log f = sys_log s" "th_unconfirmed f = sys_unconfirmed s" "th_gone f = sys_gone s"
    using s by (simp_all add: implements_def)
  moreover have "offers s ch \<noteq> []"
    using assms(2) \<open>th_log f = sys_log s\<close> by (force simp: offers_def filter_empty_conv)
  ultimately show ?thesis
    by (auto simp: ordered_def confirmed_first_def opened_def offers_def)
qed

theorem confirmation_comes_first_witness:
  "\<exists>sid' pid' rest.
     map (\<lambda>(sid, pid, c, ev, r). (sid, pid, ev, r)) (filter (\<lambda>(sid, pid, c, ev, r). c = Sender 1)
       (th_log (th_run ex_texts (\<lambda>_. True) (ex_busy (\<lambda>_. True)) ex_settle)))
     = (sid', pid', SubscriptionConfirmed (uuid_text ex_texts sid'), TryOk) # rest"
proof -
  let ?f = "th_run ex_texts (\<lambda>_. True) (ex_busy (\<lambda>_. True)) ex_settle"
  have reach: "th_reachable ex_texts (\<lambda>_. True) 8 ?f"
    by (rule th_reachable_run [OF ex_busy_reachable ex_settle_enabled])
  have "(7, ''b'', Sender 1, ex_new_producer, TryOk) \<in> set (th_log ?f)"
    by (simp add: ex_settle_def th_run_append alone_run [OF _ _ _ refl] ex_perform_subscriber
        ex_busy_def th_start_def just_def ex_sys5_def delete_at_def del: One_nat_def)
  from confirmation_comes_first [OF reach this] ex_settle_rest(3) [of "\<lambda>_. True"] show ?thesis by simp
qed

text \<open>C33. Announcements are not delivered exactly once. A single announcement may be offered and accepted
  twice on the same channel, once by the subscription and once by the task spawned for the
  producer. And it may never be delivered: the channel of a participant that listens was full when
  the announcement of a stored producer was broadcast, its channel has accepted nothing but the
  confirmation, and no task is waiting any more.\<close>

theorem delivery_not_exactly_once:
  "(\<exists>s. sys_reachable ex_texts stays 8 s \<and> length (sys_produced s) = 1 \<and>
      count (mset (sys_log s)) (7, ''b'', Sender 1,
        create_new_producer_event ex_texts (ProducerId 3) Audio, TryOk) = 2) \<and>
   (\<exists>s. sys_reachable ex_texts stays 1 s \<and> sys_waiting s = None \<and> sys_tasks s = [] \<and>
      has_producer (sys_core s) 7 ''a'' (ProducerId 3) \<and> listens s 7 ''b'' (Sender 1) \<and>
      sys_log s = [(7, ''b'', Sender 1, SubscriptionConfirmed (uuid_text ex_texts 7), TryOk),
                   (7, ''b'', Sender 1, create_new_producer_event ex_texts (ProducerId 3) Audio, TryFull)])"
proof (intro conjI)
  have "count (mset (sys_log (ex_sys7 stays))) (7, ''b'', Sender 1, ex_new_producer, TryOk) = 2"
    by (simp add: ex_sys7_def ex_sys6_def ex_new_producer_def create_new_producer_event_def)
  moreover have "length (sys_produced (ex_sys7 stays)) = 1"
    by (simp add: ex_sys7_def ex_sys6_def ex_sys5_def)
  ultimately show "\<exists>s. sys_reachable ex_texts stays 8 s \<and> length (sys_produced s) = 1 \<and>
      count (mset (sys_log s)) (7, ''b'', Sender 1,
        create_new_producer_event ex_texts (ProducerId 3) Audio, TryOk) = 2"
    using ex_sys7_reachable unfolding ex_new_producer_def by blast
  have "has_producer (sys_core (ex_dropped stays)) 7 ''a'' (ProducerId 3)"
    by (simp add: has_producer_def ex_dropped_def ex_session_def hm_contains_def)
  moreover have "listens (ex_dropped stays) 7 ''b'' (Sender 1)"
    by (simp add: listens_def ex_dropped_def senders_of_def)
  moreover have "sys_waiting (ex_dropped stays) = None" and "sys_tasks (ex_dropped stays) = []"
    by (simp_all add: ex_dropped_def)
  moreover have "sys_log (ex_dropped stays)
      = [(7, ''b'', Sender 1, SubscriptionConfirmed (uuid_text ex_texts 7), TryOk),
         (7, ''b'', Sender 1, create_new_producer_event ex_texts (ProducerId 3) Audio, TryFull)]"
    by (simp add: ex_dropped_def ex_new_producer_def)
  ultimately show "\<exists>s. sys_reachable ex_texts stays 1 s \<and> sys_waiting s = None \<and> sys_tasks s = [] \<and>
      has_producer (sys_core s) 7 ''a'' (ProducerId 3) \<and> listens s 7 ''b'' (Sender 1) \<and>
      sys_log s = [(7, ''b'', Sender 1, SubscriptionConfirmed (uuid_text ex_texts 7), TryOk),
                   (7, ''b'', Sender 1, create_new_producer_event ex_texts (ProducerId 3) Audio, TryFull)]"
    using ex_dropped_reachable by blast
qed

end
