(* ===== verification/Session_Lifetime.thy ===== *)
theory Session_Lifetime
  imports Sfu_Runs
begin

text \<open>
  What happens to a session while it is not closed: it only grows. There is no operation by which
  a participant leaves, and none that forgets a producer or a consumer. A second
  \<open>create_transport\<close> in the same direction replaces the transport, and that is the only way to
  lose one.
\<close>

section \<open>Definitions\<close>

text \<open>
  What a participant keeps: its type, its producers and consumers, that it has capabilities and
  that it has a transport of a direction (but another one may have taken the place), and its very
  transports if they are \<open>settled\<close>, that is if none is created meanwhile.
\<close>

definition keeps :: "bool \<Rightarrow> participant_state \<Rightarrow> participant_state \<Rightarrow> bool" where
  "keeps settled p p' \<longleftrightarrow>
     (settled \<longrightarrow> transports_of p' = transports_of p) \<and>
     participant_type_of p' = participant_type_of p \<and>
     (rtp_caps p \<noteq> None \<longrightarrow> rtp_caps p' \<noteq> None) \<and>
     (send_transport (transports_of p) \<noteq> None \<longrightarrow> send_transport (transports_of p') \<noteq> None) \<and>
     (recv_transport (transports_of p) \<noteq> None \<longrightarrow> recv_transport (transports_of p') \<noteq> None) \<and>
     (\<forall>prid. hm_contains (producers p) prid \<longrightarrow> hm_contains (producers p') prid) \<and>
     (\<forall>cid. hm_contains (consumers p) cid \<longrightarrow> hm_contains (consumers p') cid)"

definition grown :: "(string \<Rightarrow> bool) \<Rightarrow> session_state \<Rightarrow> session_state \<Rightarrow> bool" where
  "grown settled st st' \<longleftrightarrow>
     session_router st' = session_router st \<and> max_participants st' = max_participants st \<and>
     (\<forall>pid p. hm_get (participants st) pid = Some p \<longrightarrow>
        (\<exists>p'. hm_get (participants st') pid = Some p' \<and> keeps (settled pid) p p'))"

definition live_grown :: "(string \<Rightarrow> bool) \<Rightarrow> uuid \<Rightarrow> sfu_core \<Rightarrow> sfu_core \<Rightarrow> bool" where
  "live_grown settled sid c c' \<longleftrightarrow>
     (\<forall>st. hm_get (sessions c) sid = Some st \<longrightarrow>
        (\<exists>st'. hm_get (sessions c') sid = Some st' \<and> grown settled st st'))"

fun ends_session :: "uuid \<Rightarrow> sys_event \<Rightarrow> bool" where
  "ends_session sid (Close s) = (s = sid)"
| "ends_session sid (Shutdown \<pi>) = True"
| "ends_session sid _ = False"

fun makes_transport :: "uuid \<Rightarrow> string \<Rightarrow> sys_event \<Rightarrow> bool" where
  "makes_transport sid pid (MakeTransport ms s p direction) = (s = sid \<and> p = pid)"
| "makes_transport sid pid _ = False"

section \<open>Lemmas\<close>

lemma keeps_refl: "keeps b p p"
  by (simp add: keeps_def)

lemma keeps_trans: "keeps b p q \<Longrightarrow> keeps b q r \<Longrightarrow> keeps b p r"
  by (simp add: keeps_def)

lemma grown_refl: "grown q st st"
  by (simp add: grown_def keeps_refl)

lemma grown_trans: "grown q st st' \<Longrightarrow> grown q st' st'' \<Longrightarrow> grown q st st''"
  unfolding grown_def by (metis keeps_trans)

lemma live_grown_refl: "live_grown q sid c c"
  by (simp add: live_grown_def grown_refl)

lemma live_grown_trans: "live_grown q sid c c' \<Longrightarrow> live_grown q sid c' c'' \<Longrightarrow> live_grown q sid c c''"
  unfolding live_grown_def by (metis grown_trans)

lemma live_grown_same: "sessions c' = sessions c \<Longrightarrow> live_grown q sid c c'"
  by (simp add: live_grown_def grown_refl)

lemma grown_insert:
  "(\<And>p. hm_get (participants st) pid = Some p \<Longrightarrow> keeps (q pid) p p') \<Longrightarrow>
   grown q st (st\<lparr>participants := hm_insert pid p' (participants st)\<rparr>)"
  by (auto simp: grown_def intro: keeps_refl)

lemma live_grown_put:
  assumes "hm_get (sessions c) s = Some st"
    and "\<And>p. hm_get (participants st) pid = Some p \<Longrightarrow> s = sid \<Longrightarrow> keeps (q pid) p p'"
  shows "live_grown q sid c (put_participant s st pid p' c)"
  using assms grown_insert [of st pid q p'] by (auto simp: live_grown_def grown_refl)

lemma live_grown_changes:
  "changes c s pid Q c' \<Longrightarrow> (\<And>p p'. Q p p' \<Longrightarrow> s = sid \<Longrightarrow> keeps (q pid) p p') \<Longrightarrow> live_grown q sid c c'"
  unfolding changes_def by (auto intro!: live_grown_put)

lemma live_grown_join: "live_grown q sid c (snd (join_session tx c s pid ptype))"
  using join_session_cases [of tx c s pid ptype "fst (join_session tx c s pid ptype)"
      "snd (join_session tx c s pid ptype)"]
  by (auto simp: live_grown_refl hm_contains_def intro!: live_grown_put)

lemma live_grown_set_capabilities: "live_grown q sid c (snd (set_rtp_capabilities tx c s pid caps))"
  using set_rtp_capabilities_cases [of tx c s pid caps
      "fst (set_rtp_capabilities tx c s pid caps)" "snd (set_rtp_capabilities tx c s pid caps)"]
  by (auto simp: live_grown_refl keeps_def elim!: live_grown_changes)

lemma live_grown_transport:
  assumes "s = sid \<Longrightarrow> \<not> q pid"
  shows "live_grown q sid c (snd (create_transport ms tx c s pid dir))"
  using assms create_transport_cases [of ms tx c s pid dir
      "fst (create_transport ms tx c s pid dir)" "snd (create_transport ms tx c s pid dir)"]
  by (auto simp: live_grown_refl keeps_def elim!: live_grown_changes)

lemma live_grown_producer: "live_grown q sid c (snd (create_producer ms tx c s pid tid kind params))"
  using create_producer_cases [of ms tx c s pid tid kind params
      "fst (create_producer ms tx c s pid tid kind params)"
      "snd (create_producer ms tx c s pid tid kind params)"]
  by (auto simp: live_grown_refl keeps_def hm_contains_insert elim!: live_grown_changes)

lemma live_grown_consumer: "live_grown q sid c (snd (create_consumer ms tx c s pid tid prid caps))"
  using create_consumer_cases [of ms tx c s pid tid prid caps
      "fst (create_consumer ms tx c s pid tid prid caps)"
      "snd (create_consumer ms tx c s pid tid prid caps)"]
  by (auto simp: live_grown_refl keeps_def hm_contains_insert elim!: live_grown_changes)

lemma live_grown_register:
  assumes "pool_ok (router_pool c)" and "hm_get (sessions c) new_id = None"
  shows "live_grown q sid c (snd (register_session new_id c pid ptype))"
proof -
  obtain res c' where reg: "register_session new_id c pid ptype = (res, c')" by fastforce
  from assms(1) reg show ?thesis
    by (cases rule: register_session_cases)
      (use assms(2) in \<open>auto simp: reg live_grown_def grown_refl\<close>)
qed

lemma sys_exec_live_grown:
  assumes inv: "core_inv (sys_core s)" and en: "sys_enabled capacity s e" and "\<not> ends_session sid e"
    and settled: "\<And>pid. q pid \<Longrightarrow> \<not> makes_transport sid pid e"
  shows "live_grown q sid (sys_core s) (sys_core (sys_exec tx stays s e))"
proof (cases e)
  case (Register new_id pid ptype)
  with inv en live_grown_register show ?thesis by (simp add: core_inv_def)
next
  case (Close x)
  with assms(3) show ?thesis
    by (auto simp: live_grown_def close_session_sessions grown_refl)
next
  case (Subscribe \<pi> \<rho> snd_out x pid ch)
  have "sessions (fst (snd (subscribe_to_events tx \<pi> \<rho> snd_out (sys_core s) x pid ch)))
      = sessions (sys_core s)"
    by (simp add: subscribe_to_events_core subscribed_def)
  then show ?thesis by (auto simp: Subscribe live_grown_same split: prod.split)
next
  case (AbandonSubscribe k \<pi> \<rho> snd_out x pid ch)
  have "sessions (fst (snd (subscribe_to_events tx \<pi> \<rho> snd_out (sys_core s) x pid ch)))
      = sessions (sys_core s)"
    by (simp add: subscribe_to_events_core subscribed_def)
  then show ?thesis by (auto simp: AbandonSubscribe live_grown_same split: prod.split)
next
  case (MakeTransport ms x pid dir)
  with settled [of pid] show ?thesis by (auto intro: live_grown_transport)
qed (use assms(3) in \<open>auto simp: live_grown_refl live_grown_join live_grown_set_capabilities
    live_grown_producer live_grown_consumer live_grown_same core_unchanged
    Let_def split: prod.split option.split\<close>)

lemma sys_run_live_grown:
  assumes "sys_reachable tx stays capacity s" and "sys_all_enabled tx stays capacity s es"
    and "\<forall>e \<in> set es. \<not> ends_session sid e"
    and "\<And>pid. q pid \<Longrightarrow> \<forall>e \<in> set es. \<not> makes_transport sid pid e"
  shows "live_grown q sid (sys_core s) (sys_core (sys_run tx stays s es))"
  using assms
proof (induction es arbitrary: s)
  case (Cons e es)
  then have "live_grown q sid (sys_core s) (sys_core (sys_exec tx stays s e))"
    using sys_reachable_core [OF Cons.prems(1)] by (intro sys_exec_live_grown [where capacity = capacity]) auto
  moreover have "sys_reachable tx stays capacity (sys_exec tx stays s e)"
    using Cons.prems by (intro sys_reachable_exec) simp_all
  ultimately show ?case using Cons.IH Cons.prems live_grown_trans by simp
qed (simp add: live_grown_refl)

text \<open>A session with two participants is full for good.\<close>

lemma grown_len:
  assumes "grown q st st'" and "session_ok st" and "session_ok st'" and "hm_len (participants st) = 2"
  shows "hm_len (participants st') = 2" and "max_participants st' = 2"
proof -
  have "hm_keys (participants st) \<subseteq> hm_keys (participants st')"
    using assms(1) by (fastforce simp: grown_def hm_keys_get)
  moreover have "finite (hm_keys (participants st'))" by (simp add: hm_keys_def)
  moreover have "card (hm_keys (participants st)) = 2" "hm_len (participants st') = card (hm_keys (participants st'))"
    using assms(2-4) hm_len_card [of "participants st"] hm_len_card [of "participants st'"]
    by (auto simp: session_ok_def)
  ultimately have "2 \<le> hm_len (participants st')" by (metis card_mono)
  with assms(3) show "hm_len (participants st') = 2" and "max_participants st' = 2"
    by (auto simp: session_ok_def)
qed

section \<open>Properties\<close>

text \<open>C13. A session is for life: until it is closed or the server shuts down, it stays, on its router, and
  no participant leaves it. Every participant keeps its place, its producers and consumers,
  whatever its connection does, and a transport for each direction it had one for; unless it
  creates a transport meanwhile, which replaces the one of that direction, it keeps its very
  transports. So a session that holds two participants refuses every
  later join as full, also one of its own participants that reconnects, and a producer, once
  created, is announced to every later subscription of another participant.\<close>

theorem session_is_for_life:
  assumes "sys_reachable tx stays capacity s" and "sys_all_enabled tx stays capacity s es"
    and "\<forall>e \<in> set es. \<not> ends_session sid e" and "hm_get (sessions (sys_core s)) sid = Some st"
  shows "\<exists>st'. hm_get (sessions (sys_core (sys_run tx stays s es))) sid = Some st' \<and>
           grown (\<lambda>pid. \<forall>e \<in> set es. \<not> makes_transport sid pid e) st st' \<and>
           (\<forall>prid kind owner. (prid, kind, owner) \<in> set (all_producers st) \<longrightarrow>
              (\<exists>kind'. (prid, kind', owner) \<in> set (all_producers st'))) \<and>
           (hm_len (participants st) = 2 \<longrightarrow>
              (\<forall>pid ptype. join_session tx (sys_core (sys_run tx stays s es)) sid pid ptype
                = (Inl (SessionFull (uuid_text tx sid)), sys_core (sys_run tx stays s es))))"
proof -
  let ?c = "sys_core s" and ?c' = "sys_core (sys_run tx stays s es)"
  let ?q = "\<lambda>pid. \<forall>e \<in> set es. \<not> makes_transport sid pid e"
  from sys_run_live_grown [OF assms(1-3), of ?q] assms(4) obtain st'
    where st': "hm_get (sessions ?c') sid = Some st'" and grown: "grown ?q st st'"
    by (auto simp: live_grown_def)
  have inv: "core_inv ?c" "core_inv ?c'"
    using assms(1,2) sys_reachable_core sys_reachable_run by blast+
  have "\<exists>kind'. (prid, kind', owner) \<in> set (all_producers st')"
    if "(prid, kind, owner) \<in> set (all_producers st)" for prid kind owner
  proof -
    have "has_producer ?c sid owner prid"
      using all_producers_has [OF inv(1) assms(4)] that by blast
    with grown assms(4) st' have "has_producer ?c' sid owner prid"
      by (fastforce simp: has_producer_def grown_def keeps_def)
    then show ?thesis using all_producers_has [OF inv(2) st'] by blast
  qed
  moreover have "join_session tx ?c' sid pid ptype = (Inl (SessionFull (uuid_text tx sid)), ?c')"
    if "hm_len (participants st) = 2" for pid ptype
  proof -
    have "session_ok st" "session_ok st'"
      using inv assms(4) st' by (auto simp: core_inv_def sessions_ok_def)
    from grown_len [OF grown this that] show ?thesis
      by (simp add: join_session_def find_session_def st')
  qed
  ultimately show ?thesis using st' grown by blast
qed

theorem session_is_for_life_witness:
  "join_session ex_texts (sys_core (ex_sys7 (\<lambda>_. True))) 7 ''a'' User
   = (Inl (SessionFull (uuid_text ex_texts 7)), sys_core (ex_sys7 (\<lambda>_. True)))"
proof -
  let ?s = "ex_sys5 (\<lambda>_. True)" and ?es = "[ex_subscribe 8, ex_run_task]"
  let ?st = "ex_session (ex_sender_side\<lparr>producers := [(ProducerId 3, ex_producer 3)]\<rparr>) ex_receiver_side"
  have run: "sys_run ex_texts (\<lambda>_. True) ?s ?es = ex_sys7 (\<lambda>_. True)"
    by (simp add: ex_subscribe_8 ex_run_task_exec)
  have "sys_enabled 8 ?s (ex_subscribe 8)" "sys_enabled 8 (ex_sys6 (\<lambda>_. True)) ex_run_task"
    by (simp_all add: ex_subscribe_def ex_run_task_def ex_sys5_def ex_sys6_def ex_channel_unpolled)
  then have en: "sys_all_enabled ex_texts (\<lambda>_. True) 8 ?s ?es" by (simp add: ex_subscribe_8)
  have quiet: "\<forall>e \<in> set ?es. \<not> ends_session 7 e"
    by (simp add: ex_subscribe_def ex_run_task_def)
  have live: "hm_get (sessions (sys_core ?s)) 7 = Some ?st" by (simp add: ex_sys5_def ex_core5_eq)
  have two: "hm_len (participants ?st) = 2" by (simp add: ex_session_def hm_len_def)
  from session_is_for_life [OF ex_setup_reachable en quiet live, unfolded run] two
  show ?thesis by blast
qed

end
