(* ===== verification/Sfu_Capacity.thy ===== *)
theory Sfu_Capacity
  imports Thread_Runs
begin

text \<open>
  When a subscription cannot get stuck: a channel that is larger than the number of producers ever
  made in the session takes the confirmation and every announcement at once. So a server whose
  channels have room for the producers that exist and those that are asked for answers everything.
\<close>

section \<open>Definitions\<close>

text \<open>The producers ever made in a session, and those that waiting requests still ask for.\<close>

definition made_in :: "uuid \<Rightarrow> (uuid \<times> string \<times> producer_id) list \<Rightarrow> nat" where
  "made_in sid l = length (filter (\<lambda>e. fst e = sid) l)"

fun producer_job :: "uuid \<Rightarrow> job \<Rightarrow> nat" where
  "producer_job sid (Request (CallProducer s pid tid kind params)) = (if s = sid then 1 else 0)"
| "producer_job sid _ = 0"

fun guard_producer :: "uuid \<Rightarrow> guard \<Rightarrow> nat" where
  "guard_producer sid (Held n j) = producer_job sid j"
| "guard_producer sid _ = 0"

definition asked_in :: "uuid \<Rightarrow> threads \<Rightarrow> nat" where
  "asked_in sid f =
     sum_list (map (producer_job sid \<circ> snd) (th_queue f)) + guard_producer sid (th_guard f)"

text \<open>The server is stuck only where a session has as many producers as a channel has room.\<close>

definition crowded :: "texts \<Rightarrow> nat \<Rightarrow> system \<Rightarrow> bool" where
  "crowded tx capacity s \<longleftrightarrow>
     sys_inv tx s \<and>
     (sys_waiting s \<noteq> None \<longrightarrow> (\<exists>sid. capacity \<le> made_in sid (sys_produced s)))"

section \<open>The producers of a session are among those ever made\<close>

lemma distinct_concat_keys:
  "\<lbrakk>distinct (map fst xs); \<And>k v. (k, v) \<in> set xs \<Longrightarrow> distinct (g v)\<rbrakk> \<Longrightarrow>
   distinct (concat (map (\<lambda>(k, v). map (Pair k) (g v)) xs))"
proof (induction xs)
  case (Cons x xs)
  obtain k v where x: "x = (k, v)" by (cases x)
  have "distinct (map (Pair k) (g v))"
    using Cons.prems(2) [of k v] x by (simp add: distinct_map inj_on_def)
  moreover have "k \<notin> fst ` set xs" using Cons.prems(1) x by simp
  ultimately show ?case
    using Cons.IH Cons.prems x by (force simp: image_iff)
qed simp

lemma producers_made:
  assumes inv: "sys_inv tx s" and st: "hm_get (sessions (sys_core s)) sid = Some st"
  shows "length (all_producers st) \<le> made_in sid (sys_produced s)"
proof -
  let ?key = "\<lambda>(prid, kind, owner). (owner, prid)"
  let ?keys = "map ?key (all_producers st)"
  from inv have core: "core_inv (sys_core s)" and made: "produced_all s"
    by (simp_all add: sys_inv_def none_invented_def)
  have parts: "hm_ok (participants st)"
    using core st by (auto simp: core_inv_def sessions_ok_def session_ok_def)
  have "?keys = concat (map (\<lambda>(pid, p). map (Pair pid) (map fst (producers p))) (participants st))"
    by (simp add: all_producers_def map_concat case_prod_unfold o_def)
  moreover have "distinct (map fst (producers p))" if "(pid, p) \<in> set (participants st)" for pid p
    using core_inv_participant [OF core st] that hm.in_entries [OF parts, of pid p]
    by (simp add: participant_ok_def hm_ok_def)
  ultimately have dist: "distinct ?keys"
    using distinct_concat_keys [of "participants st" "\<lambda>p. map fst (producers p)"] parts
    by (simp add: hm_ok_def)
  let ?mine = "filter (\<lambda>e. fst e = sid) (sys_produced s)"
  have "set ?keys \<subseteq> snd ` set ?mine"
  proof
    fix e assume "e \<in> set ?keys"
    then obtain prid kind owner where "(prid, kind, owner) \<in> set (all_producers st)" and e: "e = (owner, prid)"
      by auto
    then have "has_producer (sys_core s) sid owner prid"
      using all_producers_has [OF core st] by blast
    with made have "(sid, owner, prid) \<in> set (sys_produced s)" by (simp add: produced_all_def)
    then show "e \<in> snd ` set ?mine" using e by force
  qed
  then have "card (set ?keys) \<le> card (snd ` set ?mine)" by (intro card_mono) simp_all
  also have "\<dots> \<le> length ?mine"
    using card_length [of "map snd ?mine"] unfolding set_map length_map .
  finally show ?thesis
    using distinct_card [OF dist] unfolding made_in_def length_map by linarith
qed

section \<open>A stuck server is crowded\<close>

lemma waits_or_same:
  assumes "\<And>\<pi> \<rho> snd_out sid pid ch. e \<noteq> Subscribe \<pi> \<rho> snd_out sid pid ch"
  shows "sys_waiting (sys_exec tx stays s e) \<noteq> None \<Longrightarrow> sys_waiting s \<noteq> None"
  using assms
  by (cases e) (auto simp: note_produced_def Let_def split: prod.splits option.splits sum.splits if_splits)

lemma made_in_grows: "made_in sid (sys_produced s) \<le> made_in sid (sys_produced (sys_exec tx stays s e))"
  by (cases e)
    (auto simp: made_in_def note_produced_def Let_def split: prod.split option.split sum.split)

lemma crowded_exec:
  assumes inv: "crowded tx capacity s" and en: "sys_enabled capacity s e"
  shows "crowded tx capacity (sys_exec tx stays s e)"
proof -
  let ?t = "sys_exec tx stays s e"
  from inv have sys: "sys_inv tx s" by (simp add: crowded_def)
  have "\<exists>sid. capacity \<le> made_in sid (sys_produced ?t)" if "sys_waiting ?t \<noteq> None"
  proof (cases "\<exists>\<pi> \<rho> snd_out sid pid ch. e = Subscribe \<pi> \<rho> snd_out sid pid ch")
    case False
    with that waits_or_same [of e tx stays s] inv obtain sid where "capacity \<le> made_in sid (sys_produced s)"
      by (auto simp: crowded_def)
    with made_in_grows [of sid s tx stays e] show ?thesis by (meson le_trans)
  next
    case True
    then obtain \<pi> \<rho> snd_out sid pid ch where e: "e = Subscribe \<pi> \<rho> snd_out sid pid ch" by blast
    with en that have chan: "unpolled_channel capacity snd_out"
      and blocked: "fst (subscribe_to_events tx \<pi> \<rho> snd_out (sys_core s) sid pid ch) = Blocked"
      by (auto split: prod.splits if_splits)
    then obtain st where st: "hm_get (sessions (sys_core s)) sid = Some st"
      by (cases "hm_get (sessions (sys_core s)) sid") (simp_all add: subscribe_to_events_def hm_contains_def)
    with subscribe_unpolled [where pid = pid and tx = tx and \<pi> = \<pi> and \<rho> = \<rho> and s = ch, OF st chan] blocked
    have "capacity \<le> length (producers_of_others pid (all_producers st))"
      by (auto split: if_splits)
    also have "\<dots> \<le> length (all_producers st)" by (simp add: producers_of_others_def)
    also have "\<dots> \<le> made_in sid (sys_produced s)" by (rule producers_made [OF sys st])
    finally show ?thesis using made_in_grows [of sid s tx stays e] le_trans by blast
  qed
  with sys_exec_inv [OF sys en] show ?thesis by (simp add: crowded_def)
qed

lemma crowded_start: "core_start c \<Longrightarrow> crowded tx capacity (sys_start c)"
  using sys_inv_start [of c tx] by (simp add: crowded_def sys_start_def)

interpretation crowded: invariant_system sys_initial "sys_step tx stays capacity" "crowded tx capacity"
  for tx stays capacity
  by unfold_locales (auto simp: sys_initial_def sys_step_iff intro: crowded_start crowded_exec)

interpretation crowded_threads: refined_invariant th_initial "th_step tx stays capacity"
    sys_initial "sys_step tx stays capacity" "match tx stays capacity" "crowded tx capacity"
  for tx stays capacity ..

lemma stuck_crowded:
  assumes "th_reachable tx stays capacity f" and "stuck_channel (th_guard f) \<noteq> None"
  shows "\<exists>sid. capacity \<le> made_in sid (th_produced f)"
proof -
  obtain s where "crowded tx capacity s" and "implements tx stays f s"
    using assms(1) crowded_threads.reachable_match_inv [of _ tx stays capacity f]
    unfolding th_reachable_def match_def by blast
  with assms(2) show ?thesis by (simp add: crowded_def implements_def)
qed

section \<open>Own steps make no more producers than were asked for\<close>

lemma perform_made:
  "made_in sid (eff_produced (perform tx a c call)) \<le> producer_job sid (Request call)"
  by (cases call) (auto simp: made_in_def split: prod.split sum.split)

lemma made_in_append [simp]: "made_in sid (l @ l') = made_in sid l + made_in sid l'"
  by (simp add: made_in_def)

lemma own_step_made:
  assumes "own_step e" and en: "th_enabled capacity f e"
  shows "made_in sid (th_produced (th_exec tx stays f e)) + asked_in sid (th_exec tx stays f e)
         \<le> made_in sid (th_produced f) + asked_in sid f"
proof (cases e)
  case (Grant i)
  with en have i: "i < length (th_queue f)" and free: "th_guard f = Free" by simp_all
  obtain n j where "th_queue f ! i = (n, j)" by fastforce
  with sum_list_delete_at [OF i, of "producer_job sid \<circ> snd"] free show ?thesis
    by (simp add: Grant asked_in_def)
next
  case (Finish a)
  with en obtain n j where held: "th_guard f = Held n j" by (auto split: guard.splits)
  show ?thesis
  proof (cases j)
    case (Request call)
    with perform_made [of sid tx a "th_core f" call] held show ?thesis
      by (auto simp: Finish asked_in_def Let_def simp del: producer_job.simps split: option.split)
  qed (simp add: Finish held asked_in_def)
qed (use assms(1) in \<open>auto simp: asked_in_def split: prod.split\<close>)

lemma own_run_made:
  "\<lbrakk>th_all_enabled tx stays capacity f es; \<forall>e \<in> set es. own_step e\<rbrakk> \<Longrightarrow>
   made_in sid (th_produced (th_run tx stays f es)) \<le> made_in sid (th_produced f) + asked_in sid f"
proof (induction es arbitrary: f)
  case (Cons e es)
  then have "made_in sid (th_produced (th_run tx stays f (e # es)))
      \<le> made_in sid (th_produced (th_exec tx stays f e)) + asked_in sid (th_exec tx stays f e)"
    by simp
  also have "\<dots> \<le> made_in sid (th_produced f) + asked_in sid f"
    using Cons.prems own_step_made [of e capacity f sid tx stays] by simp
  finally show ?case .
qed simp

section \<open>Properties\<close>

text \<open>C18. A server with enough capacity answers everything: if the channels hold more events than any
  session has ever had producers, those counted in that waiting requests ask for, then no order in
  which the server takes its own steps ends in a stuck subscription. It can always come to rest, and
  whenever it has no step of its own left it is at rest, and every request has been answered or its
  client went away before.\<close>

theorem enough_capacity_answers:
  assumes reach: "th_reachable tx stays capacity f"
    and few: "length (routers (router_pool (th_core f))) \<le> 65536"
    and room: "\<forall>sid. made_in sid (th_produced f) + asked_in sid f < capacity"
  shows "(\<exists>es. (\<forall>e \<in> set es. own_step e) \<and> th_all_enabled tx stays capacity f es \<and>
            at_rest (th_run tx stays f es)) \<and>
         (\<forall>es g. th_all_enabled tx stays capacity f es \<and> (\<forall>e \<in> set es. own_step e) \<and>
            g = th_run tx stays f es \<and> (\<forall>e. own_step e \<longrightarrow> \<not> th_enabled capacity g e) \<longrightarrow>
            at_rest g \<and> set (th_done g) \<union> set (th_dropped g) = {..<th_next g})"
proof -
  have never: "stuck_channel (th_guard (th_run tx stays f es)) = None"
    if "th_all_enabled tx stays capacity f es" "\<forall>e \<in> set es. own_step e" for es
  proof (rule ccontr)
    assume "stuck_channel (th_guard (th_run tx stays f es)) \<noteq> None"
    with stuck_crowded th_reachable_run [OF reach that(1)]
    obtain sid where "capacity \<le> made_in sid (th_produced (th_run tx stays f es))" by blast
    with own_run_made [OF that, of sid] room show False by (metis le_trans not_less)
  qed
  have ids: "card (pool_ids (th_core f)) \<le> 65536"
    using few unfolding pool_ids_def by (metis card_length length_map list.set_map le_trans)
  have rest: "at_rest g \<and> set (th_done g) \<union> set (th_dropped g) = {..<th_next g}"
    if run: "th_all_enabled tx stays capacity f es" "\<forall>e \<in> set es. own_step e"
      "g = th_run tx stays f es" "\<forall>e. own_step e \<longrightarrow> \<not> th_enabled capacity g e" for es g
  proof -
    have g: "th_reachable tx stays capacity g" using th_reachable_run [OF reach run(1)] run(3) by simp
    have "card (pool_ids (th_core g)) \<le> 65536" using th_run_limits [OF reach run(1)] ids run(3) by simp
    with own_step_enabled [OF th_reachable_core [OF g]] never [OF run(1,2)] run(3,4)
    have "at_rest g" by blast
    moreover from g obtain s where "tickets_ok g" by (rule th_reachable_inv)
    ultimately show ?thesis using at_rest_answered by blast
  qed
  obtain es where es: "\<forall>e \<in> set es. own_step e" "th_all_enabled tx stays capacity f es"
    and "stuck_channel (th_guard (th_run tx stays f es)) \<noteq> None \<or> at_rest (th_run tx stays f es)"
    using comes_to_rest [OF reach ids] by metis
  with never [OF es(2,1)] have "at_rest (th_run tx stays f es)" by simp
  with es rest show ?thesis by metis
qed

theorem enough_capacity_answers_witness:
  "\<exists>es. (\<forall>e \<in> set es. own_step e) \<and> th_all_enabled ex_texts (\<lambda>_. True) 8 (ex_busy (\<lambda>_. True)) es \<and>
     at_rest (th_run ex_texts (\<lambda>_. True) (ex_busy (\<lambda>_. True)) es)"
proof -
  have "length (routers (router_pool (th_core (ex_busy (\<lambda>_. True))))) \<le> 65536"
    by (simp add: ex_busy_def ex_core5_eq ex_core1_eq ex_pool_def)
  moreover have "made_in sid (th_produced (ex_busy (\<lambda>_. True))) + asked_in sid (ex_busy (\<lambda>_. True)) < 8" for sid
    by (simp add: made_in_def asked_in_def ex_busy_def th_start_def ex_sys5_def)
  ultimately show ?thesis
    using enough_capacity_answers [OF ex_busy_reachable] by blast
qed

end
