(* ===== verification/Spec2Isabelle.thy ===== *)
theory Spec2Isabelle
  imports Startup Grpc_Methods Channel_Contents Session_Lifetime Sfu_Capacity
begin

text \<open>
  A verification development for the Saasy SFU, a signaling server in Rust for one-to-one WebRTC
  sessions on mediasoup. File names below are relative to the repository (\<open>src/sfu/core.rs\<close> and
  so on).

  THE PROGRAM. A gRPC service (\<open>src/grpc/handler.rs\<close>) decodes requests and runs one operation of
  the session core (\<open>src/sfu/core.rs\<close>) at a time under a mutex. The core keeps the sessions, each on
  a router with up to two participants and their transports, producers and consumers; a counter of
  sessions per router; and the event channel of every subscribed participant. Routers come from a
  pool (\<open>src/sfu/router_manager.rs\<close>) that is searched round-robin for one with room; the pool is
  built from mediasoup workers (\<open>src/sfu/worker_manager.rs\<close>) with the codecs of
  \<open>src/sfu/codecs.rs\<close>. What an operation created is handed back to the service as a pending
  set-up: close callbacks are registered on it (\<open>src/sfu/event_handler.rs\<close>), and a new producer is
  announced by a spawned task that takes the lock again and broadcasts. \<open>src/main.rs\<close> starts all
  this from the configuration and shuts it down.

  THE THEORIES, in the order in which they build on each other.

  \<^item> \<open>Sfu_Prelude\<close>: machine integers as words, panics and awaits as values, \<open>Result\<close> as a sum, lists
    and multisets, and three locales: \<open>invariant_system\<close> (interpreted for the core, for the whole
    server and several of its invariants), \<open>simulation\<close> (for the core and its registry, and for the
    interleaved server and its critical sections) and \<open>refined_invariant\<close>, which extends both.
  \<^item> \<open>Hash_Map\<close>: \<open>std::collections::HashMap\<close> with its contract as the locale \<open>hash_map\<close>; iteration
    takes a seed, so whatever is proved holds for every iteration order.
  \<^item> \<open>Media_Types\<close>: the libraries as the program sees them. Their calls are parameters (the records
    \<open>mediasoup\<close> and \<open>texts\<close>); a step of a run may use other answers than the step before.
  \<^item> \<open>Sfu_Error\<close>, \<open>Codecs\<close>, \<open>Worker_Manager\<close>, \<open>Router_Manager\<close>, \<open>Event_Handler\<close>, \<open>Event_Tasks\<close>,
    \<open>Sfu_Core\<close>, \<open>Grpc_Handler\<close>, \<open>Startup\<close>: the components, one definition per function of the source,
    named as there. A definition that mutates takes and returns the state; an early return is a
    branch. \<open>Router_Manager\<close> offers its search to the core through the locale \<open>router_source\<close>, the core
    its operations to the handlers through \<open>core_call\<close> (in \<open>Grpc_Handler\<close>); both are interpreted on
    the definitions of the model.
  \<^item> \<open>Sfu_Examples\<close>: a concrete run on which the witnesses of the properties are evaluated.
  \<^item> \<open>Sfu_Invariant\<close>: the steps of the core as the inductive relation \<open>core_step\<close>, the invariant
    \<open>core_inv\<close> and its preservation by every operation; the properties of the capacity counters, of
    registration and of the shape of the maps.
  \<^item> \<open>Sfu_Operations\<close>: what each operation does, on every branch: joining, creating and later using
    transports, producers and consumers, capabilities, errors without effect, isolation of sessions, closing,
    the bound on all sessions, shutdown.
  \<^item> \<open>Sfu_Registry\<close>: an abstract registry of sessions and the refinement of it by the core.
  \<^item> \<open>Sfu_Subscription\<close>: what a subscription puts into its channel, exactly when it waits for ever,
    and whom a broadcast reaches.
  \<^item> \<open>Sfu_System\<close>: the running server as a machine. One event is one critical section, one task that
    gets the lock, one callback, one client that goes away, or one request that is dropped in the
    middle of its critical section; a run is any sequence of enabled events, so it covers every
    interleaving of them.
  \<^item> \<open>Sfu_Delivery\<close>, \<open>Sfu_Runs\<close>: the invariants of the machine and what clients are told: no
    announcement is lost, they arrive when the tasks run, none is invented, one
    subscriber may stop the server, and closes are never reported if the library detaches callbacks
    whose id is dropped.
  \<^item> \<open>Session_Lifetime\<close>: a session that is not closed only grows, but a second transport of a
    direction replaces the first.
  \<^item> \<open>Sfu_Threads\<close>: the server at the grain of its await points. A request waits for the lock
    (\<open>Arrive\<close>), gets it (\<open>Grant\<close>), ends its critical section (\<open>Finish\<close>), and only then runs
    \<open>setup_event_handlers\<close> and answers (\<open>Return\<close>); a spawned broadcast starts to wait (\<open>Poll\<close>); a client
    may go away at an await point, before its operation has changed anything (\<open>Cancel\<close>) or after
    (\<open>Abandon\<close>), the library may report the end of an object (\<open>Report\<close>). Between any two of these
    anything else may happen.
  \<^item> \<open>Sfu_Interleaving\<close>, \<open>Sfu_Progress\<close>, \<open>Thread_Runs\<close>: the interleaved server implements the
    machine of critical sections, so its invariants hold there too; its work is bounded by the
    requests that arrive; it comes to rest unless a subscription is stuck.
  \<^item> \<open>Sfu_Capacity\<close>: no subscription is ever stuck, and so every request is answered, while the
    channels hold more events than any session has had producers.
  \<^item> \<open>Channel_Contents\<close>: the confirmation comes first; an announcement may come twice or be thrown
    away.
  \<^item> \<open>Grpc_Methods\<close>: the eleven methods of the service as requests of the interleaved server;
    rejected requests.
  \<^item> This theory: the server from \<open>main\<close> on, with all components composed.

  BOUNDS. Nothing is bounded by fuel: all loops of the source run over finite collections and are
  structural recursions. \<open>usize\<close> is a 64-bit word for the session counters, where the source adds
  and subtracts without a check (the invariant shows that neither wraps), and a natural number
  for lengths and indices. Ports are 16-bit words, with the overflow checks of the build as a
  parameter; a vector whose bytes would exceed \<open>isize::MAX\<close> panics (\<open>capacity_overflow\<close>). A channel is
  only made for a capacity that tokio accepts (\<open>channel_ok\<close>: from 1 to \<open>2 ^ 61 - 1\<close>); with any other
  the subscribe method panics before it asks for the lock, and the runs of such a server have no
  subscriptions. A \<open>send\<close> on a channel may never complete: that is the value \<^const>\<open>Blocked\<close>, and when it
  happens is proved, not assumed (for a bounded channel that nobody reads, as tokio documents it).
  The interleaved server runs for ever as long as requests arrive; the measure \<open>th_work\<close> (nine for a
  request that arrives: the grant, the end of its critical section and its answer, and up to six for
  the one object it may have created, a close report and an announcement of three steps each) bounds
  what it does in between. A fresh session id exists as long as there are at most 65536 routers.

  ASSUMED of the environment, where a property needs it: a fresh \<open>Uuid::new_v4\<close> is not in use; the
  channel of a subscription is bounded and not read before the call returns (the source hands
  the receiving end out with the response). The lock only excludes; nothing is assumed of the order
  in which it is granted. Any \<open>await\<close> may wait for a moment, as tokio's budget for a task allows, and
  the request may be dropped there: a subscription in the middle of its sends, a registration in
  the middle of its search. Nothing is assumed of mediasoup: ids may collide, and any call may fail. A call of mediasoup or of another library
  that never returns keeps the lock; that \<open>Finish\<close> eventually happens is what an own step means.

  NOT MODELLED. Logging; the insides of tokio, tonic, actix and mediasoup (media, and which hooks the
  library fires when: any hook may fire at any time); the reading of a channel by its client (what
  \<open>try_send\<close> answers is arbitrary); the insides of the configuration library and the parsing of
  addresses and ids (parameters); the serving loops, with their limit on concurrent requests; a
  process that runs out of memory, which aborts; the module files, which only declare.
\<close>

section \<open>The server as it is started\<close>

text \<open>C16. The server as it is started: in every interleaving of its life, from an accepted
  configuration on, it is in a reachable state (so all the invariants hold), never holds more
  sessions than the configured workers times the configured sessions per router, and steps of its
  own lead it to rest or to a stuck subscription.\<close>

theorem started_server:
  assumes "startup h = Returned (Inr srv)"
    and "th_all_enabled tx stays (server_channel_capacity srv) (th_start (server_core srv)) es"
    and "f = th_run tx stays (th_start (server_core srv)) es"
  shows "\<exists>cfg. from_env h = Inr cfg \<and>
           th_reachable tx stays (subscribe_channel_capacity cfg) f \<and>
           hm_len (sessions (th_core f))
             \<le> mediasoup_workers cfg * unat (max_sessions_per_router_cfg cfg) \<and>
           (\<exists>es'. (\<forall>e \<in> set es'. own_step e) \<and>
              th_all_enabled tx stays (subscribe_channel_capacity cfg) f es' \<and>
              (stuck_channel (th_guard (th_run tx stays f es')) \<noteq> None \<or>
               at_rest (th_run tx stays f es')))"
proof -
  let ?c = "server_core srv" and ?cap = "server_channel_capacity srv"
  from startup_state [OF assms(1)] obtain cfg where cfg: "from_env h = Inr cfg"
    and start: "core_start ?c" and len: "length (routers (router_pool ?c)) = mediasoup_workers cfg"
    and few: "mediasoup_workers cfg \<le> 65536"
    and limit: "max_sessions_per_router ?c = max_sessions_per_router_cfg cfg"
    and cap: "?cap = subscribe_channel_capacity cfg" by blast
  have start_reach: "th_reachable tx stays ?cap (th_start ?c)"
    using start by (auto simp: th_reachable_def th_initial_def)
  then have reach: "th_reachable tx stays ?cap f"
    unfolding assms(3) using assms(2) by (rule th_reachable_run)
  have ids: "card (pool_ids ?c) \<le> mediasoup_workers cfg"
    unfolding pool_ids_def len [symmetric] by (metis card_length length_map list.set_map)
  have limits: "pool_ids (th_core f) = pool_ids ?c"
    "session_limit (th_core f) = unat (max_sessions_per_router_cfg cfg)"
    using th_run_limits [OF start_reach assms(2)] limit
    by (simp_all add: assms(3) th_start_def session_limit_def)
  have "hm_len (sessions (th_core f))
      \<le> mediasoup_workers cfg * unat (max_sessions_per_router_cfg cfg)"
    using sessions_at_most [OF th_reachable_core [OF reach]] ids limits
    by (metis le_trans mult_le_mono1 pool_ids_def session_limit_def)
  moreover have "card (pool_ids (th_core f)) \<le> 65536" using limits(1) ids few by simp
  ultimately show ?thesis using cfg reach comes_to_rest [OF reach] unfolding cap by blast
qed

theorem started_server_witness:
  "\<exists>srv. startup (ex_host True 2) = Returned (Inr srv) \<and>
     hm_len (sessions (th_core (th_run ex_texts (\<lambda>_. True) (th_start (server_core srv))
       (alone (CallRegister ''a'' User) (ex_answers 0))))) \<le> 4"
proof -
  obtain srv where srv: "startup (ex_host True 2) = Returned (Inr srv)"
    using ex_host_starts by blast
  let ?f = "th_start (server_core srv)" and ?es = "alone (CallRegister ''a'' User) (ex_answers 0)"
  have cfg: "from_env (ex_host True 2) = Inr (ex_config 2)"
    by (simp add: from_env_def ex_host_def)
  have "hm_get (sessions (server_core srv)) 7 = None"
    using startup_state [OF srv] by auto
  then have "th_all_enabled ex_texts (\<lambda>_. True) (server_channel_capacity srv) ?f ?es"
    by (intro alone_enabled) (simp_all add: th_start_def ex_answers_def)
  from started_server [OF srv this refl] cfg srv show ?thesis
    by (auto simp: ex_config_def)
qed

end
